theory Spec2Isabelle
  imports Main "HOL-Library.Sublist" "HOL-Library.AList" "HOL-Library.Multiset"
begin

section \<open>Go library functions used by the storage and cleanup code\<close>

text \<open>
  Go strings are byte sequences; they are modelled as \<open>string\<close> (a list of bytes), so
  \<open>len\<close> is \<open>length\<close> and \<open>strings.HasPrefix s p\<close> is \<open>prefix p s\<close>. A Go \<open>error\<close> built
  with \<open>fmt.Errorf\<close> is modelled by its message; a function returning \<open>(T, error)\<close>
  returns \<open>error + T\<close>, with \<open>Inl\<close> the error.
\<close>

type_synonym error = string

text \<open>
  The \<open>%q\<close> verb and \<open>strconv.Quote\<close>, byte by byte: a double quote and a backslash
  get a backslash before them, the printable ASCII bytes stand for themselves, the
  control bytes are written as \<open>\a\<close>, \<open>\b\<close>, \<open>\f\<close>, \<open>\n\<close>, \<open>\r\<close>, \<open>\t\<close>, \<open>\v\<close> or as
  \<open>\x\<close> and two hexadecimal digits. Bytes from 128 on stand for themselves, as the
  printable runes of a UTF-8 text do in Go (Go escapes the unprintable runes and the
  bytes that are no UTF-8; repository addresses and tags are ASCII texts).
\<close>

definition hexdigit :: "nat \<Rightarrow> char" where
  "hexdigit n = ''0123456789abcdef'' ! n"

definition quoteByte :: "char \<Rightarrow> string" where
  "quoteByte c =
     (let n = (of_char c :: nat) in
      if c = CHR 0x22 \<or> c = CHR 0x5C then [CHR 0x5C, c]
      else if n \<ge> 128 \<or> (32 \<le> n \<and> n \<le> 126) then [c]
      else if n = 7 then [CHR 0x5C, CHR ''a'']
      else if n = 8 then [CHR 0x5C, CHR ''b'']
      else if n = 12 then [CHR 0x5C, CHR ''f'']
      else if n = 10 then [CHR 0x5C, CHR ''n'']
      else if n = 13 then [CHR 0x5C, CHR ''r'']
      else if n = 9 then [CHR 0x5C, CHR ''t'']
      else if n = 11 then [CHR 0x5C, CHR ''v'']
      else [CHR 0x5C, CHR ''x'', hexdigit (n div 16), hexdigit (n mod 16)])"

definition quote :: "string \<Rightarrow> string" where
  "quote s = [CHR 0x22] @ concat (map quoteByte s) @ [CHR 0x22]"

text \<open>\<open>strings.SplitN(s, sep, 2)\<close> for a one-byte separator: the text before the first
  separator and all the text after it, or the whole text alone when it has no separator.\<close>

fun SplitN_2 :: "char \<Rightarrow> string \<Rightarrow> string list" where
  "SplitN_2 sep [] = [[]]"
| "SplitN_2 sep (c # cs) =
     (if c = sep then [[], cs]
      else (case SplitN_2 sep cs of
              [a, b] \<Rightarrow> [c # a, b]
            | _ \<Rightarrow> [c # cs]))"

text \<open>\<open>strings.ReplaceAll(s, old, new)\<close> for a one-byte \<open>old\<close>.\<close>

definition ReplaceAll :: "string \<Rightarrow> char \<Rightarrow> string \<Rightarrow> string" where
  "ReplaceAll s old new = concat (map (\<lambda>c. if c = old then new else [c]) s)"

subsection \<open>\<open>strconv.ParseInt(s, 10, 64)\<close> and the \<open>%d\<close> verb\<close>

datatype num_error = ErrSyntax | ErrRange

definition is_digit :: "char \<Rightarrow> bool" where
  "is_digit c = (48 \<le> (of_char c :: nat) \<and> (of_char c :: nat) \<le> 57)"

definition digit_val :: "char \<Rightarrow> nat" where
  "digit_val c = of_char c - 48"

text \<open>The loop of \<open>strconv.ParseUint\<close> in base 10 with 64 bits: \<open>n\<close> is the value read so
  far; a byte that is no digit is a syntax error, a value that leaves \<open>uint64\<close> a range
  error, whichever comes first.\<close>

fun ParseUint_loop :: "nat \<Rightarrow> string \<Rightarrow> num_error + nat" where
  "ParseUint_loop n [] = Inr n"
| "ParseUint_loop n (c # cs) =
     (if \<not> is_digit c then Inl ErrSyntax
      else if n \<ge> (2 ^ 64 - 1) div 10 + 1 then Inl ErrRange
      else if n * 10 + digit_val c > 2 ^ 64 - 1 then Inl ErrRange
      else ParseUint_loop (n * 10 + digit_val c) cs)"

definition ParseUint :: "string \<Rightarrow> num_error + nat" where
  "ParseUint s = (if s = [] then Inl ErrSyntax else ParseUint_loop 0 s)"

definition ParseInt :: "string \<Rightarrow> num_error + int" where
  "ParseInt s =
     (if s = [] then Inl ErrSyntax
      else
        let neg = (hd s = CHR ''-'');
            s1 = (if hd s = CHR ''+'' \<or> hd s = CHR ''-'' then tl s else s)
        in (case ParseUint s1 of
              Inl ErrSyntax \<Rightarrow> Inl ErrSyntax
            | Inl ErrRange \<Rightarrow> Inl ErrRange
            | Inr un \<Rightarrow>
                if \<not> neg \<and> un \<ge> 2 ^ 63 then Inl ErrRange
                else if neg \<and> un > 2 ^ 63 then Inl ErrRange
                else Inr (if neg then - int un else int un)))"

definition NumError_Error :: "string \<Rightarrow> num_error \<Rightarrow> error" where
  "NumError_Error s e =
     ''strconv.ParseInt: parsing '' @ quote s @ '': '' @
       (case e of ErrSyntax \<Rightarrow> ''invalid syntax'' | ErrRange \<Rightarrow> ''value out of range'')"

text \<open>The decimal digits of a natural number, most significant first.\<close>

definition digit_char :: "nat \<Rightarrow> char" where
  "digit_char d = ''0123456789'' ! d"

function digits :: "nat \<Rightarrow> string" where
  "digits n =
     (if n < 10 then [digit_char n]
      else digits (n div 10) @ [digit_char (n mod 10)])"
  by pat_completeness auto
termination
  by (relation "measure id") auto

declare digits.simps [simp del]

text \<open>\<open>fmt.Sprintf("%d", i)\<close> for an \<open>int64\<close>: the digits, after a minus sign for a
  negative number.\<close>

definition Sprintf_d :: "int \<Rightarrow> string" where
  "Sprintf_d i = (if i < 0 then CHR ''-'' # digits (nat (- i)) else digits (nat i))"

section \<open>The tag codec of the repository stages storage\<close>

definition RepoManagedImageRecord_ImageTagPrefix :: string where
  "RepoManagedImageRecord_ImageTagPrefix = ''managed-image-''"

definition RepoImageMetadataByCommitRecord_ImageTagPrefix :: string where
  "RepoImageMetadataByCommitRecord_ImageTagPrefix = ''image-metadata-by-commit-''"

definition RepoClientIDRecrod_ImageTagPrefix :: string where
  "RepoClientIDRecrod_ImageTagPrefix = ''client-id-''"

definition UnexpectedTagFormatErrorPrefix :: string where
  "UnexpectedTagFormatErrorPrefix = ''unexpected tag format''"

text \<open>\<open>image.StageID\<close>; \<open>UniqueID\<close> is an \<open>int64\<close>, kept as an integer that every
  producer below takes from \<open>ParseInt\<close>, hence inside the 64-bit range.\<close>

record StageID =
  Signature :: string
  UniqueID :: int

text \<open>Modelled from the spec: \<open>image.ParseUniqueIDAsTimestamp\<close> is not among the sources.
  The unique id of a stage tag is a millisecond timestamp written in decimal, an
  \<open>int64\<close>: the text is read by \<open>strconv.ParseInt(uniqueID, 10, 64)\<close> and its error
  is passed on.\<close>

definition ParseUniqueIDAsTimestamp :: "string \<Rightarrow> error + int" where
  "ParseUniqueIDAsTimestamp uniqueID =
     (case ParseInt uniqueID of
        Inl e \<Rightarrow> Inl (NumError_Error uniqueID e)
      | Inr timestamp \<Rightarrow> Inr timestamp)"

definition getSignatureAndUniqueIDFromRepoStageImageTag :: "string \<Rightarrow> error + (string \<times> int)" where
  "getSignatureAndUniqueIDFromRepoStageImageTag repoStageImageTag =
     (let parts = SplitN_2 CHR ''-'' repoStageImageTag in
      if length parts \<noteq> 2
      then Inl (UnexpectedTagFormatErrorPrefix @ '' '' @ repoStageImageTag)
      else (case ParseUniqueIDAsTimestamp (parts ! 1) of
              Inl err \<Rightarrow>
                Inl (UnexpectedTagFormatErrorPrefix @ '' '' @ repoStageImageTag @
                     '': unable to parse unique id '' @ parts ! 1 @ '' as timestamp: '' @ err)
            | Inr uniqueID \<Rightarrow> Inr (parts ! 0, uniqueID)))"

definition isUnexpectedTagFormatError :: "error \<Rightarrow> bool" where
  "isUnexpectedTagFormatError err = prefix UnexpectedTagFormatErrorPrefix err"

text \<open>\<open>ConstructStageImageName\<close> formats \<open>"%s:%s-%d"\<close>: the repository address, a colon
  and the stage tag. The tag alone is \<open>stageTag\<close>.\<close>

definition stageTag :: "string \<Rightarrow> int \<Rightarrow> string" where
  "stageTag signature uniqueID = signature @ ''-'' @ Sprintf_d uniqueID"

definition ConstructStageImageName :: "string \<Rightarrow> string \<Rightarrow> int \<Rightarrow> string" where
  "ConstructStageImageName RepoAddress signature uniqueID =
     RepoAddress @ '':'' @ stageTag signature uniqueID"

section \<open>The docker registry and the enumeration of stages\<close>

text \<open>\<open>image.Info\<close>, the registry's description of one tag. \<open>Labels\<close> is a Go map that
  may be \<open>nil\<close> (\<open>None\<close>); reading a key of a \<open>nil\<close> map gives the empty text, as
  reading a missing key does. \<open>CreatedAtUnixNano\<close> is what \<open>GetCreatedAt\<close> turns into
  a time. The code handles \<open>*image.Info\<close> pointers and compares them by address;
  the infos of one repository differ in \<open>Repository\<close> and \<open>Tag\<close>, so a pointer is
  identified with the record it points to.\<close>

record Info =
  Name :: string
  Repository :: string
  Tag :: string
  Labels :: "(string \<times> string) list option"
  CreatedAtUnixNano :: int

definition label :: "Info \<Rightarrow> string \<Rightarrow> string option" where
  "label i k = (case Labels i of None \<Rightarrow> None | Some m \<Rightarrow> map_of m k)"

definition labelOrEmpty :: "Info \<Rightarrow> string \<Rightarrow> string" where
  "labelOrEmpty i k = (case label i k of None \<Rightarrow> [] | Some v \<Rightarrow> v)"

text \<open>The part of the \<open>docker_registry.DockerRegistry\<close> interface that the functions
  below call, each method by the answer it gives.\<close>

record DockerRegistry =
  Tags :: "string \<Rightarrow> error + string list"
  TryGetRepoImage :: "string \<Rightarrow> error + Info option"

text \<open>Lines written to the debug log by the two enumerations.\<close>

datatype debug_line =
    FetchedTags string "string list"
  | ErrorLine error
  | SelectedStage string int
  | DiscardTag string string
  | SuitableTag string string

text \<open>The loop of \<open>GetAllStages\<close> over the tags: the lines logged and either the error
  returned from inside the loop or the stages appended to \<open>res\<close>.\<close>

fun GetAllStages_loop :: "string list \<Rightarrow> debug_line list \<times> (error + StageID list)" where
  "GetAllStages_loop [] = ([], Inr [])"
| "GetAllStages_loop (tag # tags) =
     (if prefix RepoManagedImageRecord_ImageTagPrefix tag
         \<or> prefix RepoImageMetadataByCommitRecord_ImageTagPrefix tag
      then GetAllStages_loop tags
      else (case getSignatureAndUniqueIDFromRepoStageImageTag tag of
              Inl err \<Rightarrow>
                if isUnexpectedTagFormatError err
                then (case GetAllStages_loop tags of (ls, r) \<Rightarrow> (ErrorLine err # ls, r))
                else ([], Inl err)
            | Inr (signature, uniqueID) \<Rightarrow>
                (case GetAllStages_loop tags of
                   (ls, r) \<Rightarrow>
                     (SelectedStage signature uniqueID # ls,
                      (case r of
                         Inl err \<Rightarrow> Inl err
                       | Inr res \<Rightarrow> Inr (\<lparr>Signature = signature, UniqueID = uniqueID\<rparr> # res))))))"

definition GetAllStages :: "DockerRegistry \<Rightarrow> string \<Rightarrow> debug_line list \<times> (error + StageID list)" where
  "GetAllStages reg RepoAddress =
     (case Tags reg RepoAddress of
        Inl err \<Rightarrow>
          ([], Inl (''unable to fetch tags for repo '' @ quote RepoAddress @ '': '' @ err))
      | Inr tags \<Rightarrow>
          (case GetAllStages_loop tags of (ls, r) \<Rightarrow> (FetchedTags RepoAddress tags # ls, r)))"

fun GetStagesBySignature_loop :: "string \<Rightarrow> string list \<Rightarrow> debug_line list \<times> (error + StageID list)" where
  "GetStagesBySignature_loop signature [] = ([], Inr [])"
| "GetStagesBySignature_loop signature (tag # tags) =
     (if \<not> prefix signature tag
      then (case GetStagesBySignature_loop signature tags of
              (ls, r) \<Rightarrow> (DiscardTag tag signature # ls, r))
      else (case getSignatureAndUniqueIDFromRepoStageImageTag tag of
              Inl err \<Rightarrow>
                if isUnexpectedTagFormatError err
                then (case GetStagesBySignature_loop signature tags of
                        (ls, r) \<Rightarrow> (ErrorLine err # ls, r))
                else ([], Inl err)
            | Inr (_, uniqueID) \<Rightarrow>
                (case GetStagesBySignature_loop signature tags of
                   (ls, r) \<Rightarrow>
                     (SuitableTag tag signature # ls,
                      (case r of
                         Inl err \<Rightarrow> Inl err
                       | Inr res \<Rightarrow> Inr (\<lparr>Signature = signature, UniqueID = uniqueID\<rparr> # res))))))"

definition GetStagesBySignature :: "DockerRegistry \<Rightarrow> string \<Rightarrow> string \<Rightarrow> debug_line list \<times> (error + StageID list)" where
  "GetStagesBySignature reg RepoAddress signature =
     (case Tags reg RepoAddress of
        Inl err \<Rightarrow>
          ([], Inl (''unable to fetch tags for repo '' @ quote RepoAddress @ '': '' @ err))
      | Inr tags \<Rightarrow>
          (case GetStagesBySignature_loop signature tags of
             (ls, r) \<Rightarrow> (FetchedTags RepoAddress tags # ls, r)))"

section \<open>Managed-image and metadata-by-commit records\<close>

text \<open>Modelled from the spec: the constant \<open>NamelessImageRecordTag\<close> is not among the
  sources; the tag schema gives \<open>-nameless-image-\<close> for the empty image name.\<close>

definition NamelessImageRecordTag :: string where
  "NamelessImageRecordTag = ''-nameless-image-''"

definition slugImageNameAsDockerImageTag :: "string \<Rightarrow> string" where
  "slugImageNameAsDockerImageTag imageName =
     (let res = imageName;
          res = ReplaceAll res CHR ''/'' ''__slash__'';
          res = ReplaceAll res CHR ''+'' ''__plus__''
      in if imageName = [] then NamelessImageRecordTag else res)"

text \<open>\<open>fmt.Sprintf(RepoImageMetadataByCommitRecord_TagFormat, a, b)\<close> with the format
  \<open>"image-metadata-by-commit-%s-%s"\<close>. A tag format is modelled by what \<open>Sprintf\<close>
  makes of it and two texts.\<close>

definition RepoImageMetadataByCommitRecord_TagFormat :: "string \<Rightarrow> string \<Rightarrow> string" where
  "RepoImageMetadataByCommitRecord_TagFormat a b = ''image-metadata-by-commit-'' @ a @ ''-'' @ b"

text \<open>\<open>slug.LimitedSlug\<close> is not among the sources: it is the parameter \<open>LimitedSlug\<close>
  of the functions that call it, taking the text and the size (a Go \<open>int\<close>).\<close>

definition slugImageMetadataByCommitImageRecordTag ::
  "(string \<Rightarrow> int \<Rightarrow> string) \<Rightarrow> (string \<Rightarrow> string \<Rightarrow> string) \<Rightarrow> string \<Rightarrow> string \<Rightarrow> string" where
  "slugImageMetadataByCommitImageRecordTag LimitedSlug tagFormat imageName commit =
     (let formattedImageName = slugImageNameAsDockerImageTag imageName;
          tag = tagFormat formattedImageName commit
      in if length tag \<le> 128 then tag
         else
           let extraSize = int (length tag) - 128;
               formattedImageName = LimitedSlug formattedImageName (int (length formattedImageName) - extraSize);
               formattedImageName = ReplaceAll formattedImageName CHR ''-'' ''_''
           in tagFormat formattedImageName commit)"

definition slugRepoImageMetadataByCommitImageRecordTag ::
  "(string \<Rightarrow> int \<Rightarrow> string) \<Rightarrow> string \<Rightarrow> string \<Rightarrow> string" where
  "slugRepoImageMetadataByCommitImageRecordTag LimitedSlug imageName commit =
     slugImageMetadataByCommitImageRecordTag LimitedSlug RepoImageMetadataByCommitRecord_TagFormat imageName commit"

text \<open>Modelled from the spec: what is asked of the missing \<open>slug.LimitedSlug\<close>. The spec
  calls it a length-limited slug by which the name portion is shrunk so that the tag has
  exactly 128 characters (scenario S6): a text longer than the size asked for comes back
  with exactly that size.\<close>

definition LimitedSlug_shrinks_to_size :: "(string \<Rightarrow> int \<Rightarrow> string) \<Rightarrow> bool" where
  "LimitedSlug_shrinks_to_size LimitedSlug =
     (\<forall>data slugMaxSize. 0 \<le> slugMaxSize \<and> slugMaxSize < int (length data)
        \<longrightarrow> int (length (LimitedSlug data slugMaxSize)) = slugMaxSize)"

definition makeRepoImageMetadataByCommitImageRecord ::
  "(string \<Rightarrow> int \<Rightarrow> string) \<Rightarrow> string \<Rightarrow> string \<Rightarrow> string \<Rightarrow> string" where
  "makeRepoImageMetadataByCommitImageRecord LimitedSlug repoAddress imageName commit =
     repoAddress @ '':'' @ slugRepoImageMetadataByCommitImageRecordTag LimitedSlug imageName commit"

definition makeRepoManagedImageRecord :: "string \<Rightarrow> string \<Rightarrow> string" where
  "makeRepoManagedImageRecord repoAddress imageName =
     repoAddress @ '':managed-image-'' @ slugImageNameAsDockerImageTag imageName"

record ImageMetadata =
  ContentSignature :: string

text \<open>\<open>GetImageMetadataByCommit\<close>: \<open>None\<close> is the \<open>nil\<close> metadata. The metadata is built
  when the image info and its \<open>Labels\<close> map are both not \<open>nil\<close>.\<close>

definition GetImageMetadataByCommit ::
  "(string \<Rightarrow> int \<Rightarrow> string) \<Rightarrow> DockerRegistry \<Rightarrow> string \<Rightarrow> string \<Rightarrow> string \<Rightarrow> error + ImageMetadata option" where
  "GetImageMetadataByCommit LimitedSlug reg RepoAddress imageName commit =
     (let fullImageName = makeRepoImageMetadataByCommitImageRecord LimitedSlug RepoAddress imageName commit in
      case TryGetRepoImage reg fullImageName of
        Inl err \<Rightarrow> Inl (''unable to get repo image '' @ fullImageName @ '': '' @ err)
      | Inr imgInfo \<Rightarrow>
          if imgInfo \<noteq> None \<and> Labels (the imgInfo) \<noteq> None
          then Inr (Some \<lparr>ContentSignature = labelOrEmpty (the imgInfo) ''ContentSignature''\<rparr>)
          else Inr None)"

section \<open>Images cleanup: data, interfaces and effects\<close>

text \<open>
  A Go map is modelled as an association list with distinct keys: \<open>map_of\<close>
  reads a key, \<open>AList.update\<close> writes one, and a \<open>range\<close> loop visits the entries in the
  order of the list. Go leaves the order of a \<open>range\<close> over a map open; the order of the
  list stands for the order that a run happens to take.
\<close>

type_synonym 'v gomap = "(string \<times> 'v) list"

text \<open>Modelled from the spec: the label names and the tag strategies are constants of
  the packages \<open>image\<close> and \<open>tag_strategy\<close>, which are not among the sources. The spec
  names the labels \<open>WerfTagStrategy\<close>, \<open>WerfImageTag\<close> and \<open>WerfContentSignature\<close> and the
  strategies \<open>git-tag\<close>, \<open>git-branch\<close>, \<open>git-commit\<close>, \<open>stages-signature\<close> and \<open>custom\<close>.\<close>

definition WerfTagStrategyLabel :: string where
  "WerfTagStrategyLabel = ''WerfTagStrategy''"

definition WerfImageTagLabel :: string where
  "WerfImageTagLabel = ''WerfImageTag''"

definition WerfContentSignatureLabel :: string where
  "WerfContentSignatureLabel = ''WerfContentSignature''"

definition GitTag :: string where "GitTag = ''git-tag''"
definition GitBranch :: string where "GitBranch = ''git-branch''"
definition GitCommit :: string where "GitCommit = ''git-commit''"
definition StagesSignature :: string where "StagesSignature = ''stages-signature''"

text \<open>\<open>Info.GetCreatedAt\<close>: the creation time, in nanoseconds since the epoch;
  \<open>t.Before(u)\<close> is \<open>t < u\<close>.\<close>

definition GetCreatedAt :: "Info \<Rightarrow> int" where
  "GetCreatedAt i = CreatedAtUnixNano i"

text \<open>A \<open>plumbing.Hash\<close> is kept as the text that its \<open>String\<close> method prints.\<close>

type_synonym Hash = string

text \<open>What the cleanup does to the world, in the order in which it does it: the calls
  that delete, and the lines written to the log at the default and the warning level
  (line breaks left out). The headers of log processes and log blocks and the lines of
  the info and debug levels are not modelled. \<open>DeleteRepoImage dryRun images\<close> is the
  call \<open>deleteRepoImageInImagesRepo(ctx, m.ImagesRepo, dryRun, images...)\<close>, and
  \<open>DeleteRepoImageNil dryRun images n\<close> is that call for the images followed by \<open>n\<close>
  \<open>nil\<close> pointers.\<close>

datatype effect =
    DeleteRepoImage bool "Info list"
  | DeleteRepoImageNil bool "Info list" nat
  | RmImageCommit string string string
  | RmManagedImage string string
  | DeleteStage bool "StageID list"
  | LogLine string
  | WarnLine string

text \<open>A failed call: an \<open>error\<close> returned, or a run-time panic.\<close>

datatype failure = Error error | Panic string

type_synonym 'a action = "effect list \<times> (failure + 'a)"

definition return :: "'a \<Rightarrow> 'a action" where
  "return x = ([], Inr x)"

definition fail :: "failure \<Rightarrow> 'a action" where
  "fail e = ([], Inl e)"

definition emit :: "effect list \<Rightarrow> unit action" where
  "emit es = (es, Inr ())"

text \<open>Sequencing: the effects of the first action, then, unless it failed, those of the
  second, which gets the result of the first.\<close>

definition bind :: "'a action \<Rightarrow> ('a \<Rightarrow> 'b action) \<Rightarrow> 'b action" where
  "bind m f =
     (case m of
        (es, Inl e) \<Rightarrow> (es, Inl e)
      | (es, Inr x) \<Rightarrow> (case f x of (es', r) \<Rightarrow> (es @ es', r)))"

text \<open>An \<open>error + 'a\<close> answer of an interface as an action without effects; \<open>wrap\<close> is
  the text that \<open>fmt.Errorf\<close> puts before the error.\<close>

definition lift :: "string \<Rightarrow> error + 'a \<Rightarrow> 'a action" where
  "lift wrap r = (case r of Inl err \<Rightarrow> ([], Inl (Error (wrap @ err))) | Inr x \<Rightarrow> ([], Inr x))"

text \<open>The images that the deleting calls of a run were given.\<close>

fun deleted :: "effect list \<Rightarrow> Info list" where
  "deleted [] = []"
| "deleted (DeleteRepoImage dryRun imgs # es) = imgs @ deleted es"
| "deleted (DeleteRepoImageNil dryRun imgs n # es) = imgs @ deleted es"
| "deleted (_ # es) = deleted es"

subsection \<open>Interfaces\<close>

text \<open>The \<open>GitRepo\<close> interface, each method by its answer.\<close>

record 'repo GitRepo =
  PlainOpen :: "error + 'repo"
  IsCommitExists :: "string \<Rightarrow> error + bool"
  TagsList :: "error + string list"
  RemoteBranchesList :: "error + string list"

text \<open>The part of \<open>kubernetes.Interface\<close> that the probe calls: for each workload kind
  the answer of its \<open>List\<close> call over all namespaces, an item given by the images of the
  containers of its pod spec or pod template.\<close>

record KubernetesClient =
  Pods :: "error + string list list"
  ReplicationControllers :: "error + string list list"
  Deployments :: "error + string list list"
  StatefulSets :: "error + string list list"
  DaemonSets :: "error + string list list"
  ReplicaSets :: "error + string list list"
  CronJobs :: "error + string list list"
  Jobs :: "error + string list list"

text \<open>The methods of the \<open>storage.StagesStorage\<close> interface that the cleanup calls
  and the purge call (\<open>RmImageCommitError\<close> and \<open>RmManagedImageError\<close> are the errors that
  \<open>RmImageCommit\<close> and \<open>RmManagedImage\<close> return; the calls themselves are effects).\<close>

record StagesStorage =
  GetImageCommits :: "string \<Rightarrow> string \<Rightarrow> error + string list"
  GetImageMetadata :: "string \<Rightarrow> string \<Rightarrow> string \<Rightarrow> error + ImageMetadata option"
  RmImageCommitError :: "string \<Rightarrow> string \<Rightarrow> string \<Rightarrow> error option"
  GetManagedImages :: "string \<Rightarrow> error + string list"
  RmManagedImageError :: "string \<Rightarrow> string \<Rightarrow> error option"

record ImagesCleanupPolicies =
  GitTagStrategyHasLimit :: bool
  GitTagStrategyLimit :: int
  GitTagStrategyHasExpiryPeriod :: bool
  GitTagStrategyExpiryPeriod :: int
  GitCommitStrategyHasLimit :: bool
  GitCommitStrategyLimit :: int
  GitCommitStrategyHasExpiryPeriod :: bool
  GitCommitStrategyExpiryPeriod :: int
  StagesSignatureStrategyHasLimit :: bool
  StagesSignatureStrategyLimit :: int
  StagesSignatureStrategyHasExpiryPeriod :: bool
  StagesSignatureStrategyExpiryPeriod :: int

text \<open>\<open>imagesCleanupManager\<close>. The two pointer fields are \<open>None\<close> until the data was
  fetched. \<open>KeepPolicies\<close> stands for \<open>GitHistoryBasedCleanupOptions.KeepPolicies\<close>.\<close>

record ('repo, 'policies) imagesCleanupManager =
  imageRepoImageList :: "Info list gomap option"
  imageCommitHashImageMetadata :: "(Hash \<times> ImageMetadata) list gomap option"
  ProjectName :: string
  ImagesRepo_String :: string
  StagesManager_StagesStorage :: StagesStorage
  ImageNameList :: "string list"
  LocalGit :: "'repo GitRepo option"
  KubernetesContextsClients :: "KubernetesClient gomap"
  WithoutKube :: bool
  Policies :: ImagesCleanupPolicies
  GitHistoryBasedCleanup :: bool
  GitHistoryBasedCleanupV12 :: bool
  KeepPolicies :: 'policies
  DryRun :: bool

text \<open>
  Functions of this repository and of libraries that the cleanup calls and that are not
  among the sources, each by its answer:
  \<^item> \<open>WithHostLockError\<close>: the error of \<open>werf.WithHostLock\<close> when the host lock of the
    given name cannot be taken (then the locked function does not run);
  \<^item> \<open>selectRepoImagesFromImagesRepo\<close>, \<open>getReferencesToScan\<close>, \<open>scanReferencesHistory\<close>;
  \<^item> \<open>deleteRepoImageError\<close>: the error that \<open>deleteRepoImageInImagesRepo\<close> returns for a
    dry-run flag and a list of images (the call itself is the effect \<open>DeleteRepoImage\<close>);
  \<^item> \<open>DockerTag\<close> (\<open>slug.DockerTag\<close>), \<open>NewHash\<close> (\<open>plumbing.NewHash\<close>) and
    \<open>ImageLogName\<close> (\<open>logging.ImageLogName\<close> with \<open>false\<close>);
  \<^item> \<open>deleteRepoImageNilFailure\<close>: the error returned or the panic raised by that
    function when its list ends in the given number of \<open>nil\<close> pointers;
  \<^item> \<open>Now\<close>: \<open>time.Now()\<close>, in nanoseconds since the epoch;
  \<^item> \<open>sortSlice\<close>: what \<open>sort.Slice\<close> makes of a list of images and a \<open>less\<close> function
    on images;
  \<^item> \<open>sliceCap\<close>: the capacity that Go's \<open>append\<close> has given a slice that it has grown
    from \<open>nil\<close> to the given length.
\<close>

record ('repo, 'policies, 'ref) externals =
  WithHostLockError :: "string \<Rightarrow> error option"
  selectRepoImagesFromImagesRepo :: "string list \<Rightarrow> error + Info list gomap"
  getReferencesToScan :: "'repo \<Rightarrow> 'policies \<Rightarrow> error + 'ref list"
  scanReferencesHistory :: "'repo \<Rightarrow> 'ref list \<Rightarrow> Hash list gomap \<Rightarrow> error + string list"
  deleteRepoImageError :: "bool \<Rightarrow> Info list \<Rightarrow> error option"
  deleteRepoImageNilFailure :: "bool \<Rightarrow> Info list \<Rightarrow> nat \<Rightarrow> failure option"
  DockerTag :: "string \<Rightarrow> string"
  NewHash :: "string \<Rightarrow> Hash"
  ImageLogName :: "string \<Rightarrow> string"
  Now :: int
  sortSlice :: "(Info \<Rightarrow> Info \<Rightarrow> bool) \<Rightarrow> Info list \<Rightarrow> Info list"
  sliceCap :: "nat \<Rightarrow> nat"

text \<open>What Go's library documents for \<open>sort.Slice\<close>: it sorts the slice given the
  provided \<open>less\<close> function, and the sort is not guaranteed to be stable. For a \<open>less\<close>
  function that compares a key of the elements, the result is a permutation of the slice
  in which no element is less than an element before it.\<close>

definition sortSlice_sorts :: "((Info \<Rightarrow> Info \<Rightarrow> bool) \<Rightarrow> Info list \<Rightarrow> Info list) \<Rightarrow> bool" where
  "sortSlice_sorts srt =
     (\<forall>(key :: Info \<Rightarrow> int) xs.
        mset (srt (\<lambda>i j. key i < key j) xs) = mset xs
        \<and> sorted_wrt (\<lambda>i j. \<not> key j < key i) (srt (\<lambda>i j. key i < key j) xs))"

text \<open>Modelled from the spec: \<open>exceptRepoImageList\<close> is not among the sources. As its
  name and its callers say, it returns the images of the list that are none of the
  images to except, in the order of the list.\<close>

definition exceptRepoImageList :: "Info list \<Rightarrow> Info list \<Rightarrow> Info list" where
  "exceptRepoImageList repoImageList repoImageListToExcept =
     filter (\<lambda>repoImage. repoImage \<notin> set repoImageListToExcept) repoImageList"

text \<open>\<open>deleteRepoImageInImagesRepo(ctx, m.ImagesRepo, m.DryRun, images...)\<close>, which is not
  among the sources: the call is recorded, and its error, if any, is returned.\<close>

definition deleteRepoImageInImagesRepo ::
  "('repo, 'policies, 'ref) externals \<Rightarrow> bool \<Rightarrow> Info list \<Rightarrow> unit action" where
  "deleteRepoImageInImagesRepo ext dryRun repoImageList =
     ([DeleteRepoImage dryRun repoImageList],
      (case deleteRepoImageError ext dryRun repoImageList of
         Some err \<Rightarrow> Inl (Error err)
       | None \<Rightarrow> Inr ()))"

text \<open>The same call with a list that ends in \<open>n\<close> \<open>nil\<close> pointers.\<close>

definition deleteRepoImageInImagesRepoNil ::
  "('repo, 'policies, 'ref) externals \<Rightarrow> bool \<Rightarrow> Info list \<Rightarrow> nat \<Rightarrow> unit action" where
  "deleteRepoImageInImagesRepoNil ext dryRun repoImageList n =
     ([DeleteRepoImageNil dryRun repoImageList n],
      (case deleteRepoImageNilFailure ext dryRun repoImageList n of
         Some e \<Rightarrow> Inl e
       | None \<Rightarrow> Inr ()))"

text \<open>Arithmetic of \<open>int64\<close>: the value that a result wraps around to.\<close>

definition wrap64 :: "int \<Rightarrow> int" where
  "wrap64 x = (x + 2 ^ 63) mod 2 ^ 64 - 2 ^ 63"

section \<open>Images cleanup: the Kubernetes probe\<close>

definition getPodsImages :: "KubernetesClient \<Rightarrow> error + string list" where
  "getPodsImages kubernetesClient =
     (case Pods kubernetesClient of Inl err \<Rightarrow> Inl err | Inr items \<Rightarrow> Inr (concat items))"

definition getReplicationControllersImages :: "KubernetesClient \<Rightarrow> error + string list" where
  "getReplicationControllersImages kubernetesClient =
     (case ReplicationControllers kubernetesClient of Inl err \<Rightarrow> Inl err | Inr items \<Rightarrow> Inr (concat items))"

definition getDeploymentsImages :: "KubernetesClient \<Rightarrow> error + string list" where
  "getDeploymentsImages kubernetesClient =
     (case Deployments kubernetesClient of Inl err \<Rightarrow> Inl err | Inr items \<Rightarrow> Inr (concat items))"

definition getStatefulSetsImages :: "KubernetesClient \<Rightarrow> error + string list" where
  "getStatefulSetsImages kubernetesClient =
     (case StatefulSets kubernetesClient of Inl err \<Rightarrow> Inl err | Inr items \<Rightarrow> Inr (concat items))"

definition getDaemonSetsImages :: "KubernetesClient \<Rightarrow> error + string list" where
  "getDaemonSetsImages kubernetesClient =
     (case DaemonSets kubernetesClient of Inl err \<Rightarrow> Inl err | Inr items \<Rightarrow> Inr (concat items))"

definition getReplicaSetsImages :: "KubernetesClient \<Rightarrow> error + string list" where
  "getReplicaSetsImages kubernetesClient =
     (case ReplicaSets kubernetesClient of Inl err \<Rightarrow> Inl err | Inr items \<Rightarrow> Inr (concat items))"

definition getCronJobsImages :: "KubernetesClient \<Rightarrow> error + string list" where
  "getCronJobsImages kubernetesClient =
     (case CronJobs kubernetesClient of Inl err \<Rightarrow> Inl err | Inr items \<Rightarrow> Inr (concat items))"

definition getJobsImages :: "KubernetesClient \<Rightarrow> error + string list" where
  "getJobsImages kubernetesClient =
     (case Jobs kubernetesClient of Inl err \<Rightarrow> Inl err | Inr items \<Rightarrow> Inr (concat items))"

text \<open>One step of \<open>deployedDockerImages\<close>: the images of one kind are appended to those
  collected so far, or the error of the kind is returned under the kind's name.\<close>

definition appendImages :: "error + string list \<Rightarrow> string \<Rightarrow> error + string list \<Rightarrow> error + string list" where
  "appendImages collected wrap images =
     (case collected of
        Inl err \<Rightarrow> Inl err
      | Inr deployedDockerImages \<Rightarrow>
          (case images of
             Inl err \<Rightarrow> Inl (wrap @ err)
           | Inr images \<Rightarrow> Inr (deployedDockerImages @ images)))"

definition deployedDockerImages :: "KubernetesClient \<Rightarrow> error + string list" where
  "deployedDockerImages kubernetesClient =
     (let r = Inr [];
          r = appendImages r ''cannot get Pods images: '' (getPodsImages kubernetesClient);
          r = appendImages r ''cannot get ReplicationControllers images: '' (getReplicationControllersImages kubernetesClient);
          r = appendImages r ''cannot get Deployments images: '' (getDeploymentsImages kubernetesClient);
          r = appendImages r ''cannot get StatefulSets images: '' (getStatefulSetsImages kubernetesClient);
          r = appendImages r ''cannot get DaemonSets images: '' (getDaemonSetsImages kubernetesClient);
          r = appendImages r ''cannot get ReplicaSets images: '' (getReplicaSetsImages kubernetesClient);
          r = appendImages r ''cannot get CronJobs images: '' (getCronJobsImages kubernetesClient);
          r = appendImages r ''cannot get Jobs images: '' (getJobsImages kubernetesClient)
      in r)"

fun getDeployedDockerImagesNames :: "KubernetesClient gomap \<Rightarrow> error + string list" where
  "getDeployedDockerImagesNames [] = Inr []"
| "getDeployedDockerImagesNames ((contextName, kubernetesClient) # clients) =
     (case deployedDockerImages kubernetesClient of
        Inl err \<Rightarrow> Inl (''cannot get deployed imagesRepoImageList: '' @ err)
      | Inr names \<Rightarrow>
          (case getDeployedDockerImagesNames clients of
             Inl err \<Rightarrow> Inl err
           | Inr others \<Rightarrow> Inr (names @ others)))"

text \<open>The loop of \<open>exceptRepoImagesByWhitelist\<close> over the images of one image name: the
  images that stay candidates and the excepted ones, both in the order of the list. An
  image is excepted when \<open>Repository:Tag\<close> is one of the deployed names.\<close>

definition dockerImageName :: "Info \<Rightarrow> string" where
  "dockerImageName repoImage = Repository repoImage @ '':'' @ Tag repoImage"

fun exceptLoop :: "string list \<Rightarrow> Info list \<Rightarrow> Info list \<times> Info list" where
  "exceptLoop deployedDockerImagesNames [] = ([], [])"
| "exceptLoop deployedDockerImagesNames (repoImage # repoImageList) =
     (case exceptLoop deployedDockerImagesNames repoImageList of
        (newRepoImages, exceptedImageList) \<Rightarrow>
          if dockerImageName repoImage \<in> set deployedDockerImagesNames
          then (newRepoImages, repoImage # exceptedImageList)
          else (repoImage # newRepoImages, exceptedImageList))"

text \<open>The loop over the image names. Each key is visited once: the visited entry of
  \<open>repoImages\<close> gets the remaining candidates, and \<open>exceptedRepoImages\<close> gets an entry
  for the key when one of its images is excepted. The result is the log, the new
  \<open>repoImages\<close> and \<open>exceptedRepoImages\<close>.\<close>

fun exceptByNames :: "string list \<Rightarrow> Info list gomap \<Rightarrow> effect list \<times> Info list gomap \<times> Info list gomap" where
  "exceptByNames deployedDockerImagesNames [] = ([], [], [])"
| "exceptByNames deployedDockerImagesNames ((imageName, repoImageList) # repoImages) =
     (case exceptLoop deployedDockerImagesNames repoImageList of
        (newRepoImages, exceptedImageList) \<Rightarrow>
          (case exceptByNames deployedDockerImagesNames repoImages of
             (log, repoImages', exceptedRepoImages) \<Rightarrow>
               (map (\<lambda>repoImage. LogLine (''  tag: '' @ Tag repoImage)) exceptedImageList @ log,
                (imageName, newRepoImages) # repoImages',
                (if exceptedImageList = [] then exceptedRepoImages
                 else (imageName, exceptedImageList) # exceptedRepoImages))))"

definition exceptRepoImagesByWhitelist ::
  "Info list gomap \<Rightarrow> KubernetesClient gomap \<Rightarrow> (Info list gomap \<times> Info list gomap) action" where
  "exceptRepoImagesByWhitelist repoImages kubernetesContextsClients =
     bind (lift [] (getDeployedDockerImagesNames kubernetesContextsClients))
       (\<lambda>deployedDockerImagesNames.
          case exceptByNames deployedDockerImagesNames repoImages of
            (log, repoImages', exceptedRepoImages) \<Rightarrow> (log, Inr (repoImages', exceptedRepoImages)))"

section \<open>Images cleanup: git primitives that no longer exist, and the retention policies\<close>

definition repoImageMetaTagMatch ::
  "('repo, 'policies, 'ref) externals \<Rightarrow> string \<Rightarrow> string list \<Rightarrow> bool" where
  "repoImageMetaTagMatch ext imageMetaTag matches =
     list_ex (\<lambda>match. imageMetaTag = DockerTag ext match) matches"

text \<open>Whether the commit of a \<open>git-commit\<close> image exists: \<open>false\<close> without a local git
  repository and for the error \<open>bad commit hash\<close>; any other error is returned.\<close>

definition commitExists :: "'repo GitRepo option \<Rightarrow> string \<Rightarrow> failure + bool" where
  "commitExists localGit repoImageMetaTag =
     (case localGit of
        None \<Rightarrow> Inr False
      | Some git \<Rightarrow>
          (case IsCommitExists git repoImageMetaTag of
             Inl err \<Rightarrow> if prefix ''bad commit hash'' err then Inr False else Inl (Error err)
           | Inr exist \<Rightarrow> Inr exist))"

text \<open>The loop of \<open>repoImagesCleanupByNonexistentGitPrimitive\<close>: the images whose git
  tag, git branch and git commit do not exist, in that order.\<close>

fun nonexistentGitPrimitives ::
  "('repo, 'policies, 'ref) externals \<Rightarrow> 'repo GitRepo option \<Rightarrow> string list \<Rightarrow> string list \<Rightarrow> Info list
     \<Rightarrow> failure + (Info list \<times> Info list \<times> Info list)" where
  "nonexistentGitPrimitives ext localGit gitTags gitBranches [] = Inr ([], [], [])"
| "nonexistentGitPrimitives ext localGit gitTags gitBranches (repoImage # repoImages) =
     (case label repoImage WerfTagStrategyLabel of
        None \<Rightarrow> nonexistentGitPrimitives ext localGit gitTags gitBranches repoImages
      | Some strategy \<Rightarrow>
          let repoImageMetaTag =
                (case label repoImage WerfImageTagLabel of None \<Rightarrow> Tag repoImage | Some t \<Rightarrow> t)
          in
          if strategy = GitTag then
            (if repoImageMetaTagMatch ext repoImageMetaTag gitTags
             then nonexistentGitPrimitives ext localGit gitTags gitBranches repoImages
             else (case nonexistentGitPrimitives ext localGit gitTags gitBranches repoImages of
                     Inl e \<Rightarrow> Inl e
                   | Inr (ts, bs, cs) \<Rightarrow> Inr (repoImage # ts, bs, cs)))
          else if strategy = GitBranch then
            (if repoImageMetaTagMatch ext repoImageMetaTag gitBranches
             then nonexistentGitPrimitives ext localGit gitTags gitBranches repoImages
             else (case nonexistentGitPrimitives ext localGit gitTags gitBranches repoImages of
                     Inl e \<Rightarrow> Inl e
                   | Inr (ts, bs, cs) \<Rightarrow> Inr (ts, repoImage # bs, cs)))
          else if strategy = GitCommit then
            (case commitExists localGit repoImageMetaTag of
               Inl e \<Rightarrow> Inl e
             | Inr exist \<Rightarrow>
                 if exist then nonexistentGitPrimitives ext localGit gitTags gitBranches repoImages
                 else (case nonexistentGitPrimitives ext localGit gitTags gitBranches repoImages of
                         Inl e \<Rightarrow> Inl e
                       | Inr (ts, bs, cs) \<Rightarrow> Inr (ts, bs, repoImage # cs)))
          else nonexistentGitPrimitives ext localGit gitTags gitBranches repoImages)"

text \<open>The block that follows the loop three times, once for each of its lists: a list that
  is not empty is deleted and taken out of \<open>repoImages\<close>.\<close>

definition deleteAndExcept ::
  "('repo, 'policies, 'ref) externals \<Rightarrow> bool \<Rightarrow> Info list \<Rightarrow> Info list \<Rightarrow> Info list action" where
  "deleteAndExcept ext dryRun repoImages imagesToDelete =
     (if imagesToDelete \<noteq> []
      then bind (deleteRepoImageInImagesRepo ext dryRun imagesToDelete)
             (\<lambda>_. return (exceptRepoImageList repoImages imagesToDelete))
      else return repoImages)"

definition repoImagesCleanupByNonexistentGitPrimitive ::
  "('repo, 'policies, 'ref) externals \<Rightarrow> ('repo, 'policies) imagesCleanupManager \<Rightarrow> Info list \<Rightarrow> Info list action" where
  "repoImagesCleanupByNonexistentGitPrimitive ext m repoImages =
     bind (case LocalGit m of
             None \<Rightarrow> return ([], [])
           | Some git \<Rightarrow>
               bind (lift ''cannot get local git tags list: '' (TagsList git))
                 (\<lambda>gitTags. bind (lift ''cannot get local git branches list: '' (RemoteBranchesList git))
                    (\<lambda>gitBranches. return (gitTags, gitBranches))))
       (\<lambda>(gitTags, gitBranches).
          bind ([], nonexistentGitPrimitives ext (LocalGit m) gitTags gitBranches repoImages)
            (\<lambda>(nonexistentGitTagRepoImages, nonexistentGitBranchRepoImages, nonexistentGitCommitRepoImages).
               bind (deleteAndExcept ext (DryRun m) repoImages nonexistentGitTagRepoImages)
                 (\<lambda>repoImages. bind (deleteAndExcept ext (DryRun m) repoImages nonexistentGitBranchRepoImages)
                    (\<lambda>repoImages. deleteAndExcept ext (DryRun m) repoImages nonexistentGitCommitRepoImages))))"

record repoImagesCleanupByPolicyOptions =
  hasLimit :: bool
  limit :: int
  hasExpiryPeriod :: bool
  expiryPeriod :: int
  schemeName :: string

text \<open>The zero \<open>time.Time\<close> (January 1 of year 1), in nanoseconds since the epoch.\<close>

definition zeroTime :: int where
  "zeroTime = - 62135596800 * 1000000000"

text \<open>
  \<open>repoImagesCleanupByPolicy\<close>. The expiry time is \<open>time.Now().Add(-options.expiryPeriod)\<close>:
  the negation of the \<open>int64\<close> duration wraps around. \<open>sort.Slice\<close> gets the \<open>less\<close>
  function of the source, \<open>iCreated.Before(jCreated)\<close>.

  The slice expression \<open>notExpiredRepoImages[:int64(len) - limit]\<close> has an \<open>int64\<close> bound
  that wraps around. A bound below zero or above the capacity of the slice is a run-time
  panic. A bound above the length, which a negative limit gives, reaches into the part
  of the capacity that \<open>append\<close> has not written: the deletion is called with all the
  images that are not expired, followed by \<open>nil\<close> pointers. A \<open>nil\<close> pointer is none of
  the images of the list, so that \<open>exceptRepoImageList\<close> then removes the images that are
  not expired.
\<close>

definition repoImagesCleanupByPolicy ::
  "('repo, 'policies, 'ref) externals \<Rightarrow> ('repo, 'policies) imagesCleanupManager \<Rightarrow> Info list \<Rightarrow> Info list
     \<Rightarrow> repoImagesCleanupByPolicyOptions \<Rightarrow> Info list action" where
  "repoImagesCleanupByPolicy ext m repoImages repoImagesWithScheme options =
     (let expiryTime = (if hasExpiryPeriod options then Now ext + wrap64 (- expiryPeriod options) else zeroTime);
          repoImagesWithScheme =
            sortSlice ext (\<lambda>i j. GetCreatedAt i < GetCreatedAt j) repoImagesWithScheme;
          expiredRepoImages =
            filter (\<lambda>repoImage. hasExpiryPeriod options \<and> GetCreatedAt repoImage < expiryTime) repoImagesWithScheme;
          notExpiredRepoImages =
            filter (\<lambda>repoImage. \<not> (hasExpiryPeriod options \<and> GetCreatedAt repoImage < expiryTime)) repoImagesWithScheme
      in
      bind (deleteAndExcept ext (DryRun m) repoImages expiredRepoImages)
        (\<lambda>repoImages.
           if hasLimit options \<and> int (length notExpiredRepoImages) > limit options
           then
             let high = wrap64 (int (length notExpiredRepoImages) - limit options);
                 capacity = max (length notExpiredRepoImages) (sliceCap ext (length notExpiredRepoImages))
             in
             if high < 0 \<or> int capacity < high then fail (Panic ''slice bounds out of range'')
             else if high \<le> int (length notExpiredRepoImages)
             then
               let excessImagesByLimit = take (nat high) notExpiredRepoImages
               in bind (deleteRepoImageInImagesRepo ext (DryRun m) excessImagesByLimit)
                    (\<lambda>_. return (exceptRepoImageList repoImages excessImagesByLimit))
             else
               bind (deleteRepoImageInImagesRepoNil ext (DryRun m) notExpiredRepoImages
                       (nat high - length notExpiredRepoImages))
                 (\<lambda>_. return (exceptRepoImageList repoImages notExpiredRepoImages))
           else return repoImages))"

text \<open>The images that carry a given tag strategy label, in the order of the list.\<close>

definition withScheme :: "string \<Rightarrow> Info list \<Rightarrow> Info list" where
  "withScheme strategy repoImages =
     filter (\<lambda>repoImage. label repoImage WerfTagStrategyLabel = Some strategy) repoImages"

definition repoImagesCleanupByPolicies ::
  "('repo, 'policies, 'ref) externals \<Rightarrow> ('repo, 'policies) imagesCleanupManager \<Rightarrow> Info list \<Rightarrow> Info list action" where
  "repoImagesCleanupByPolicies ext m repoImages =
     (let repoImagesWithGitTagScheme = withScheme GitTag repoImages;
          repoImagesWithGitCommitScheme = withScheme GitCommit repoImages;
          repoImagesWithStagesSignatureScheme = withScheme StagesSignature repoImages
      in
      bind (repoImagesCleanupByPolicy ext m repoImages repoImagesWithGitTagScheme
              \<lparr>hasLimit = GitTagStrategyHasLimit (Policies m),
               limit = GitTagStrategyLimit (Policies m),
               hasExpiryPeriod = GitTagStrategyHasExpiryPeriod (Policies m),
               expiryPeriod = GitTagStrategyExpiryPeriod (Policies m),
               schemeName = GitTag\<rparr>)
        (\<lambda>repoImages.
           bind (repoImagesCleanupByPolicy ext m repoImages repoImagesWithGitCommitScheme
                   \<lparr>hasLimit = GitCommitStrategyHasLimit (Policies m),
                    limit = GitCommitStrategyLimit (Policies m),
                    hasExpiryPeriod = GitCommitStrategyHasExpiryPeriod (Policies m),
                    expiryPeriod = GitCommitStrategyExpiryPeriod (Policies m),
                    schemeName = GitCommit\<rparr>)
             (\<lambda>repoImages.
                repoImagesCleanupByPolicy ext m repoImages repoImagesWithStagesSignatureScheme
                  \<lparr>hasLimit = StagesSignatureStrategyHasLimit (Policies m),
                   limit = StagesSignatureStrategyLimit (Policies m),
                   hasExpiryPeriod = StagesSignatureStrategyHasExpiryPeriod (Policies m),
                   expiryPeriod = StagesSignatureStrategyExpiryPeriod (Policies m),
                   schemeName = StagesSignature\<rparr>)))"

text \<open>\<open>repoImagesCleanup\<close>: each image name is visited once; its result is stored in
  \<open>resultRepoImages\<close>, and the first error ends the loop.\<close>

fun repoImagesCleanup ::
  "('repo, 'policies, 'ref) externals \<Rightarrow> ('repo, 'policies) imagesCleanupManager \<Rightarrow> Info list gomap
     \<Rightarrow> Info list gomap action" where
  "repoImagesCleanup ext m [] = return []"
| "repoImagesCleanup ext m ((imageName, repoImageListToCleanup) # repoImagesToCleanup) =
     bind (repoImagesCleanupByNonexistentGitPrimitive ext m repoImageListToCleanup)
       (\<lambda>repoImageListToCleanup.
          bind (repoImagesCleanupByPolicies ext m repoImageListToCleanup)
            (\<lambda>resultRepoImageList.
               bind (repoImagesCleanup ext m repoImagesToCleanup)
                 (\<lambda>resultRepoImages. return ((imageName, resultRepoImageList) # resultRepoImages))))"

section \<open>Images cleanup: the git-history-based cleanup\<close>

text \<open>Reading a key of a Go map that may lack it, or of a \<open>nil\<close> map: the value or the
  \<open>nil\<close> slice, the \<open>nil\<close> map.\<close>

definition getOrNil :: "(string \<times> 'v list) list \<Rightarrow> string \<Rightarrow> 'v list" where
  "getOrNil m k = (case map_of m k of None \<Rightarrow> [] | Some v \<Rightarrow> v)"

text \<open>\<open>m[k] = append(m[k], xs...)\<close>.\<close>

definition appendTo :: "'v list gomap \<Rightarrow> string \<Rightarrow> 'v list \<Rightarrow> 'v list gomap" where
  "appendTo m k xs = AList.update k (getOrNil m k @ xs) m"

text \<open>\<open>m.getImageCommitHashImageMetadata()\<close> dereferences the pointer field.\<close>

definition getImageCommitHashImageMetadata ::
  "('repo, 'policies) imagesCleanupManager \<Rightarrow> failure + (Hash \<times> ImageMetadata) list gomap" where
  "getImageCommitHashImageMetadata m =
     (case imageCommitHashImageMetadata m of
        None \<Rightarrow> Inl (Panic ''nil pointer dereference'')
      | Some metadataByImage \<Rightarrow> Inr metadataByImage)"

text \<open>The inner loops of \<open>getImageContentSignatureRepoImageListToCleanup\<close>: for each
  content signature of the metadata, seen for the first time, the images of the list
  whose content-signature label is that signature.\<close>

fun groupBySignature :: "Info list \<Rightarrow> (Hash \<times> ImageMetadata) list \<Rightarrow> Info list gomap \<Rightarrow> Info list gomap" where
  "groupBySignature repoImageListToCleanup [] acc = acc"
| "groupBySignature repoImageListToCleanup ((commitHash, imageMetadata) # rest) acc =
     (if map_of acc (ContentSignature imageMetadata) \<noteq> None
      then groupBySignature repoImageListToCleanup rest acc
      else groupBySignature repoImageListToCleanup rest
             (AList.update (ContentSignature imageMetadata)
                (filter (\<lambda>repoImage. labelOrEmpty repoImage WerfContentSignatureLabel
                                        = ContentSignature imageMetadata) repoImageListToCleanup)
                acc))"

definition getImageContentSignatureRepoImageListToCleanup ::
  "('repo, 'policies) imagesCleanupManager \<Rightarrow> Info list gomap \<Rightarrow> failure + Info list gomap gomap" where
  "getImageContentSignatureRepoImageListToCleanup m repoImagesToCleanup =
     (case getImageCommitHashImageMetadata m of
        Inl e \<Rightarrow> Inl e
      | Inr metadataByImage \<Rightarrow>
          Inr (map (\<lambda>(imageName, repoImageListToCleanup).
                      (imageName,
                       groupBySignature repoImageListToCleanup
                         (getOrNil metadataByImage imageName) []))
                 repoImagesToCleanup))"

text \<open>The inner loop of \<open>getImageContentSignatureExistingCommitHashes\<close>.\<close>

fun existingCommitHashes ::
  "'repo GitRepo \<Rightarrow> (Hash \<times> ImageMetadata) list \<Rightarrow> Hash list gomap \<Rightarrow> failure + Hash list gomap" where
  "existingCommitHashes git [] acc = Inr acc"
| "existingCommitHashes git ((commitHash, imageMetadata) # rest) acc =
     (case IsCommitExists git commitHash of
        Inl err \<Rightarrow> Inl (Error (''check git commit existence failed: '' @ err))
      | Inr exist \<Rightarrow>
          if exist
          then existingCommitHashes git rest (appendTo acc (ContentSignature imageMetadata) [commitHash])
          else existingCommitHashes git rest acc)"

fun existingCommitHashesByName ::
  "'repo GitRepo \<Rightarrow> (Hash \<times> ImageMetadata) list gomap \<Rightarrow> string list \<Rightarrow> Hash list gomap gomap
     \<Rightarrow> failure + Hash list gomap gomap" where
  "existingCommitHashesByName git metadataByImage [] acc = Inr acc"
| "existingCommitHashesByName git metadataByImage (imageName # imageNameList) acc =
     (case existingCommitHashes git (getOrNil metadataByImage imageName) [] of
        Inl e \<Rightarrow> Inl e
      | Inr commitHashes \<Rightarrow>
          existingCommitHashesByName git metadataByImage imageNameList
            (AList.update imageName commitHashes acc))"

text \<open>\<open>getImageContentSignatureExistingCommitHashes\<close>; \<open>git\<close> is \<open>m.LocalGit\<close>, which its
  caller has found not to be \<open>nil\<close>.\<close>

definition getImageContentSignatureExistingCommitHashes ::
  "('repo, 'policies) imagesCleanupManager \<Rightarrow> 'repo GitRepo \<Rightarrow> failure + Hash list gomap gomap" where
  "getImageContentSignatureExistingCommitHashes m git =
     (case getImageCommitHashImageMetadata m of
        Inl e \<Rightarrow> Inl e
      | Inr metadataByImage \<Rightarrow>
          existingCommitHashesByName git metadataByImage (ImageNameList m) [])"

definition getImageRepoImageListWithoutRelatedImageMetadata ::
  "Info list gomap \<Rightarrow> Info list gomap gomap \<Rightarrow> Info list gomap" where
  "getImageRepoImageListWithoutRelatedImageMetadata imageRepoImageListToCleanup
       imageContentSignatureRepoImageListToCleanup =
     map (\<lambda>(imageName, repoImageListToCleanup).
            (imageName,
             foldl exceptRepoImageList repoImageListToCleanup
               (map snd (getOrNil imageContentSignatureRepoImageListToCleanup imageName))))
       imageRepoImageListToCleanup"

text \<open>The two warnings of that loop, each of two lines.\<close>

definition warnNoMetadata :: "string list" where
  "warnNoMetadata =
     [''Detected tags without related image metadata.'',
      ''These tags will be saved during cleanup.'',
      ''Since v1.2 git history based cleanup will delete such tags by default.'',
      ''You can force this behaviour in current werf version with --git-history-based-cleanup-v1.2 option.'']"

text \<open>The loop "Processing images tags without related image metadata": the state is
  \<open>resultRepoImages\<close> and \<open>repoImagesToCleanup\<close>; the result is the log and the new state.\<close>

fun processWithoutMetadata ::
  "bool \<Rightarrow> Info list gomap \<Rightarrow> Info list gomap \<times> Info list gomap
     \<Rightarrow> effect list \<times> Info list gomap \<times> Info list gomap" where
  "processWithoutMetadata v12 [] (resultRepoImages, repoImagesToCleanup) =
     ([], resultRepoImages, repoImagesToCleanup)"
| "processWithoutMetadata v12 ((imageName, repoImages) # rest) (resultRepoImages, repoImagesToCleanup) =
     (if \<not> v12
      then
        (case processWithoutMetadata v12 rest
                (appendTo resultRepoImages imageName repoImages,
                 AList.update imageName
                   (exceptRepoImageList (getOrNil repoImagesToCleanup imageName) repoImages)
                   repoImagesToCleanup) of
           (log, st) \<Rightarrow>
             ((if repoImages \<noteq> [] then map WarnLine warnNoMetadata else [])
              @ map (\<lambda>repoImage. LogLine (''  tag: '' @ Tag repoImage)) repoImages @ log, st))
      else processWithoutMetadata v12 rest (resultRepoImages, repoImagesToCleanup))"

text \<open>The content signatures of an image name that have existing commits, with these
  commits: \<open>contentSignatureCommitHashes\<close>.\<close>

definition contentSignatureCommitHashes ::
  "Info list gomap \<Rightarrow> Hash list gomap \<Rightarrow> Hash list gomap" where
  "contentSignatureCommitHashes contentSignatureRepoImageListToCleanup existing =
     filter (\<lambda>(contentSignature, existingCommitHashes). existingCommitHashes \<noteq> [])
       (map (\<lambda>(contentSignature, _). (contentSignature, getOrNil existing contentSignature))
          contentSignatureRepoImageListToCleanup)"

text \<open>The images of the reached content signatures; a reached signature that is no key
  of the grouping is the \<open>panic("runtime error")\<close> of the source.\<close>

fun imagesToKeep :: "Info list gomap \<Rightarrow> string list \<Rightarrow> failure + Info list" where
  "imagesToKeep contentSignatureRepoImageListToCleanup [] = Inr []"
| "imagesToKeep contentSignatureRepoImageListToCleanup (contentSignature # reached) =
     (case map_of contentSignatureRepoImageListToCleanup contentSignature of
        None \<Rightarrow> Inl (Panic ''runtime error'')
      | Some repoImageList \<Rightarrow>
          (case imagesToKeep contentSignatureRepoImageListToCleanup reached of
             Inl e \<Rightarrow> Inl e
           | Inr repoImageListToKeep \<Rightarrow> Inr (repoImageList @ repoImageListToKeep)))"

text \<open>The body of the loop "Git history based cleanup" for one image name: the images to
  keep are found by the scan, logged as saved, and the other candidates are deleted. The
  result is the list of kept images, or nothing when the scan did not run.\<close>

definition historyCleanupOfImage ::
  "('repo, 'policies, 'ref) externals \<Rightarrow> bool \<Rightarrow> 'repo \<Rightarrow> 'ref list \<Rightarrow> Info list gomap \<Rightarrow> Hash list gomap
     \<Rightarrow> Info list \<Rightarrow> Info list option action" where
  "historyCleanupOfImage ext dryRun gitRepository referencesToScan
       contentSignatureRepoImageListToCleanup existing repoImageListToCleanup =
     (let cSCH = contentSignatureCommitHashes contentSignatureRepoImageListToCleanup existing in
      bind (if cSCH \<noteq> []
            then bind (lift [] (scanReferencesHistory ext gitRepository referencesToScan cSCH))
                   (\<lambda>reachedContentSignatureList.
                      bind ([], imagesToKeep contentSignatureRepoImageListToCleanup reachedContentSignatureList)
                        (\<lambda>repoImageListToKeep. return (Some repoImageListToKeep)))
            else bind (emit [LogLine ''Scanning stopped due to nothing to seek''])
                   (\<lambda>_. return None))
        (\<lambda>kept.
           let repoImageListToSave = (case kept of None \<Rightarrow> [] | Some k \<Rightarrow> k);
               repoImageListToCleanup =
                 (case kept of
                    None \<Rightarrow> repoImageListToCleanup
                  | Some k \<Rightarrow> exceptRepoImageList repoImageListToCleanup k)
           in bind (emit (map (\<lambda>repoImage. LogLine (''  tag: '' @ Tag repoImage)) repoImageListToSave))
                (\<lambda>_. bind (deleteRepoImageInImagesRepo ext dryRun repoImageListToCleanup)
                   (\<lambda>_. return kept))))"

fun historyCleanupLoop ::
  "('repo, 'policies, 'ref) externals \<Rightarrow> bool \<Rightarrow> 'repo \<Rightarrow> 'ref list \<Rightarrow> Info list gomap gomap
     \<Rightarrow> Hash list gomap gomap \<Rightarrow> Info list gomap \<Rightarrow> Info list gomap \<Rightarrow> Info list gomap action" where
  "historyCleanupLoop ext dryRun gitRepository referencesToScan sigLists existing [] resultRepoImages =
     return resultRepoImages"
| "historyCleanupLoop ext dryRun gitRepository referencesToScan sigLists existing
       ((imageName, repoImageListToCleanup) # repoImagesToCleanup) resultRepoImages =
     bind (historyCleanupOfImage ext dryRun gitRepository referencesToScan
             (getOrNil sigLists imageName) (getOrNil existing imageName) repoImageListToCleanup)
       (\<lambda>kept.
          historyCleanupLoop ext dryRun gitRepository referencesToScan sigLists existing
            repoImagesToCleanup
            (case kept of
               None \<Rightarrow> resultRepoImages
             | Some repoImageListToKeep \<Rightarrow> appendTo resultRepoImages imageName repoImageListToKeep))"

text \<open>\<open>getImageUnusedCommitHashes\<close>: for each image name with metadata, the commits whose
  content signature is the label of no image of the result.\<close>

definition getImageUnusedCommitHashes ::
  "(Hash \<times> ImageMetadata) list gomap \<Rightarrow> Info list gomap \<Rightarrow> Hash list gomap" where
  "getImageUnusedCommitHashes metadataByImage resultImageRepoImageList =
     map (\<lambda>(imageName, commitHashImageMetadata).
            (imageName,
             map fst
               (filter (\<lambda>(commitHash, imageMetadata).
                          \<not> list_ex (\<lambda>repoImage. labelOrEmpty repoImage WerfContentSignatureLabel
                                                     = ContentSignature imageMetadata)
                               (getOrNil resultImageRepoImageList imageName))
                  commitHashImageMetadata)))
       metadataByImage"

text \<open>The loop "Deleting unused images metadata" over the commits of one image name: in
  a dry run the commit is logged; otherwise \<open>RmImageCommit\<close> is called, and its error is
  logged as a warning and the loop goes on.\<close>

fun deleteUnusedMetadata ::
  "('repo, 'policies, 'ref) externals \<Rightarrow> ('repo, 'policies) imagesCleanupManager \<Rightarrow> string \<Rightarrow> Hash list \<Rightarrow> effect list" where
  "deleteUnusedMetadata ext m imageName [] = []"
| "deleteUnusedMetadata ext m imageName (commitHash # commitHashes) =
     (if DryRun m then [LogLine commitHash]
      else RmImageCommit (ProjectName m) imageName commitHash #
           (case RmImageCommitError (StagesManager_StagesStorage m) (ProjectName m) imageName commitHash of
              Some err \<Rightarrow>
                [WarnLine (''WARNING: Metadata image deletion (image '' @ ImageLogName ext imageName @
                           '', commit: '' @ commitHash @ '') failed: '' @ err)]
            | None \<Rightarrow> []))
     @ deleteUnusedMetadata ext m imageName commitHashes"

definition repoImagesGitHistoryBasedCleanup ::
  "('repo, 'policies, 'ref) externals \<Rightarrow> ('repo, 'policies) imagesCleanupManager \<Rightarrow> Info list gomap
     \<Rightarrow> Info list gomap action" where
  "repoImagesGitHistoryBasedCleanup ext m repoImagesToCleanup =
     (case LocalGit m of
        None \<Rightarrow> fail (Panic ''nil pointer dereference'')
      | Some git \<Rightarrow>
          bind (lift ''git plain open failed: '' (PlainOpen git))
            (\<lambda>gitRepository.
          bind (lift [] (getReferencesToScan ext gitRepository (KeepPolicies m)))
            (\<lambda>referencesToScan.
          bind ([], getImageContentSignatureRepoImageListToCleanup m repoImagesToCleanup)
            (\<lambda>imageContentSignatureRepoImageListToCleanup.
          bind ([], getImageContentSignatureExistingCommitHashes m git)
            (\<lambda>imageContentSignatureExistingCommitHashes.
          case processWithoutMetadata (GitHistoryBasedCleanupV12 m)
                 (getImageRepoImageListWithoutRelatedImageMetadata repoImagesToCleanup
                    imageContentSignatureRepoImageListToCleanup)
                 ([], repoImagesToCleanup) of
            (log, resultRepoImages, repoImagesToCleanup) \<Rightarrow>
          bind (emit log)
            (\<lambda>_.
          bind (historyCleanupLoop ext (DryRun m) gitRepository referencesToScan
                  imageContentSignatureRepoImageListToCleanup imageContentSignatureExistingCommitHashes
                  repoImagesToCleanup resultRepoImages)
            (\<lambda>resultRepoImages.
          bind ([], getImageCommitHashImageMetadata m)
            (\<lambda>metadataByImage.
          bind (emit (concat (map (\<lambda>(imageName, commitHashes). deleteUnusedMetadata ext m imageName commitHashes)
                                (getImageUnusedCommitHashes metadataByImage resultRepoImages))))
            (\<lambda>_. return resultRepoImages)))))))))"

section \<open>Images cleanup: fetching the data, and the run\<close>

text \<open>The loop of \<open>initImageCommitHashImageMetadata\<close> over the commits of an image name.\<close>

fun commitImageMetadata ::
  "('repo, 'policies, 'ref) externals \<Rightarrow> StagesStorage \<Rightarrow> string \<Rightarrow> string \<Rightarrow> string list
     \<Rightarrow> (Hash \<times> ImageMetadata) list \<Rightarrow> failure + (Hash \<times> ImageMetadata) list" where
  "commitImageMetadata ext stagesStorage projectName imageName [] acc = Inr acc"
| "commitImageMetadata ext stagesStorage projectName imageName (commit # commits) acc =
     (case GetImageMetadata stagesStorage projectName imageName commit of
        Inl err \<Rightarrow>
          Inl (Error (''get image '' @ imageName @ '' metadata by commit '' @ commit @ '' failed''))
      | Inr None \<Rightarrow> commitImageMetadata ext stagesStorage projectName imageName commits acc
      | Inr (Some imageMetadata) \<Rightarrow>
          commitImageMetadata ext stagesStorage projectName imageName commits
            (AList.update (NewHash ext commit) imageMetadata acc))"

fun imageCommitImageMetadata ::
  "('repo, 'policies, 'ref) externals \<Rightarrow> StagesStorage \<Rightarrow> string \<Rightarrow> string list
     \<Rightarrow> (Hash \<times> ImageMetadata) list gomap \<Rightarrow> failure + (Hash \<times> ImageMetadata) list gomap" where
  "imageCommitImageMetadata ext stagesStorage projectName [] acc = Inr acc"
| "imageCommitImageMetadata ext stagesStorage projectName (imageName # imageNameList) acc =
     (case GetImageCommits stagesStorage projectName imageName of
        Inl err \<Rightarrow> Inl (Error (''get image '' @ imageName @ '' commits failed: '' @ err))
      | Inr commits \<Rightarrow>
          (case commitImageMetadata ext stagesStorage projectName imageName commits [] of
             Inl e \<Rightarrow> Inl e
           | Inr metadataOfImage \<Rightarrow>
               imageCommitImageMetadata ext stagesStorage projectName imageNameList
                 (AList.update imageName metadataOfImage acc)))"

text \<open>\<open>initRepoImagesData\<close>: the manager with the fetched images and, in the
  git-history-based modes, the fetched metadata.\<close>

definition initRepoImagesData ::
  "('repo, 'policies, 'ref) externals \<Rightarrow> ('repo, 'policies) imagesCleanupManager
     \<Rightarrow> failure + ('repo, 'policies) imagesCleanupManager" where
  "initRepoImagesData ext m =
     (case selectRepoImagesFromImagesRepo ext (ImageNameList m) of
        Inl err \<Rightarrow> Inl (Error err)
      | Inr repoImages \<Rightarrow>
          if GitHistoryBasedCleanup m \<or> GitHistoryBasedCleanupV12 m
          then (case imageCommitImageMetadata ext (StagesManager_StagesStorage m) (ProjectName m)
                       (ImageNameList m) [] of
                  Inl e \<Rightarrow> Inl e
                | Inr metadataByImage \<Rightarrow>
                    Inr (m\<lparr>imageRepoImageList := Some repoImages,
                           imageCommitHashImageMetadata := Some metadataByImage\<rparr>))
          else Inr (m\<lparr>imageRepoImageList := Some repoImages\<rparr>))"

text \<open>The last loop of \<open>run\<close>: the excepted images of each image name are appended to
  its result.\<close>

definition mergeExcepted :: "Info list gomap \<Rightarrow> Info list gomap \<Rightarrow> Info list gomap" where
  "mergeExcepted resultRepoImages exceptedRepoImages =
     foldl (\<lambda>result (imageName, repoImageList). appendTo result imageName repoImageList)
       resultRepoImages exceptedRepoImages"

definition skippedLine :: string where
  "skippedLine = ''Images cleanup skipped due to local git repository was not detected''"

text \<open>\<open>imagesCleanupManager.run\<close>: the effects, and the error or the manager as the run
  leaves it, with the result in \<open>imageRepoImageList\<close>.\<close>

definition run ::
  "('repo, 'policies, 'ref) externals \<Rightarrow> ('repo, 'policies) imagesCleanupManager
     \<Rightarrow> ('repo, 'policies) imagesCleanupManager action" where
  "run ext m =
     (case WithHostLockError ext (''images-cleanup.'' @ ImagesRepo_String m) of
        Some err \<Rightarrow> fail (Error err)
      | None \<Rightarrow>
          bind ([], initRepoImagesData ext m)
            (\<lambda>m.
               case imageRepoImageList m of
                 None \<Rightarrow> fail (Panic ''nil pointer dereference'')
               | Some repoImagesToCleanup \<Rightarrow>
                   (case LocalGit m of
                      None \<Rightarrow> bind (emit [LogLine skippedLine]) (\<lambda>_. return m)
                    | Some _ \<Rightarrow>
                        bind (if \<not> WithoutKube m
                              then exceptRepoImagesByWhitelist repoImagesToCleanup (KubernetesContextsClients m)
                              else return (repoImagesToCleanup, []))
                          (\<lambda>(repoImagesToCleanup, exceptedRepoImages).
                             bind (if GitHistoryBasedCleanup m \<or> GitHistoryBasedCleanupV12 m
                                   then repoImagesGitHistoryBasedCleanup ext m repoImagesToCleanup
                                   else repoImagesCleanup ext m repoImagesToCleanup)
                               (\<lambda>resultRepoImages.
                                  return (m\<lparr>imageRepoImageList :=
                                              Some (mergeExcepted resultRepoImages exceptedRepoImages)\<rparr>))))))"

section \<open>Stages purge\<close>

text \<open>\<open>stagesPurgeManager\<close> with its stages manager: \<open>purge_GetAllStages\<close> is the answer of
  \<open>StagesManager.GetAllStages\<close>, a stage given by its id, and \<open>purge_StagesStorage\<close> is
  \<open>StagesManager.StagesStorage\<close>.\<close>

record stagesPurgeManager =
  purge_GetAllStages :: "error + StageID list"
  purge_StagesStorage :: StagesStorage
  purge_ProjectName :: string
  RmContainersThatUseWerfImages :: bool
  purge_DryRun :: bool

text \<open>Functions that the purge calls and that are not among the sources: the error of
  \<open>werf.WithHostLock\<close> when the lock cannot be taken, and the error that
  \<open>deleteStageInStagesStorage\<close> returns (the call itself is the effect \<open>DeleteStage\<close>).\<close>

record purge_externals =
  purge_WithHostLockError :: "string \<Rightarrow> error option"
  deleteStageError :: "bool \<Rightarrow> StageID list \<Rightarrow> error option"

text \<open>The loop of the purge over the managed images: \<open>RmManagedImage\<close> unless in a dry
  run, its error returned at once, then the log line of the tag.\<close>

fun purgeManagedImages :: "stagesPurgeManager \<Rightarrow> string list \<Rightarrow> unit action" where
  "purgeManagedImages m [] = return ()"
| "purgeManagedImages m (managedImage # managedImages) =
     bind (if \<not> purge_DryRun m
           then (case RmManagedImageError (purge_StagesStorage m) (purge_ProjectName m) managedImage of
                   Some err \<Rightarrow> ([RmManagedImage (purge_ProjectName m) managedImage], Inl (Error err))
                 | None \<Rightarrow> ([RmManagedImage (purge_ProjectName m) managedImage], Inr ()))
           else return ())
       (\<lambda>_. bind (emit [LogLine (''  tag: '' @ (if managedImage = [] then NamelessImageRecordTag else managedImage))])
          (\<lambda>_. purgeManagedImages m managedImages))"

definition stagesPurge_run :: "purge_externals \<Rightarrow> stagesPurgeManager \<Rightarrow> unit action" where
  "stagesPurge_run ext m =
     (case purge_WithHostLockError ext (''stages-purge.'' @ purge_ProjectName m) of
        Some err \<Rightarrow> fail (Error err)
      | None \<Rightarrow>
          bind (lift [] (purge_GetAllStages m))
            (\<lambda>stages.
               bind ([DeleteStage (purge_DryRun m) stages],
                     (case deleteStageError ext (purge_DryRun m) stages of
                        Some err \<Rightarrow> Inl (Error err)
                      | None \<Rightarrow> Inr ()))
                 (\<lambda>_. bind (lift [] (GetManagedImages (purge_StagesStorage m) (purge_ProjectName m)))
                    (\<lambda>managedImages. purgeManagedImages m managedImages))))"

section \<open>Inputs of the examples\<close>

text \<open>An image of the repository \<open>registry.example.com/app\<close> with the given tag, tag
  strategy, content signature and creation time.\<close>

definition exampleImage :: "string \<Rightarrow> string \<Rightarrow> string \<Rightarrow> int \<Rightarrow> Info" where
  "exampleImage tag strategy contentSignature createdAt =
     \<lparr>Name = ''registry.example.com/app:'' @ tag, Repository = ''registry.example.com/app'', Tag = tag,
      Labels = Some [(WerfTagStrategyLabel, strategy), (WerfContentSignatureLabel, contentSignature)],
      CreatedAtUnixNano = createdAt\<rparr>"

text \<open>A stages storage and a git repository whose calls all succeed; the repository
  has the commits \<open>c1\<close> and \<open>c2\<close>, the tag \<open>v1\<close> and the branch \<open>main\<close>.\<close>

definition exampleStagesStorage :: StagesStorage where
  "exampleStagesStorage =
     \<lparr>GetImageCommits = (\<lambda>_ _. Inr [''c1'']),
      GetImageMetadata = (\<lambda>_ _ _. Inr (Some \<lparr>ContentSignature = ''sigA''\<rparr>)),
      RmImageCommitError = (\<lambda>_ _ _. None),
      GetManagedImages = (\<lambda>_. Inr [''app'']),
      RmManagedImageError = (\<lambda>_ _. None)\<rparr>"

definition exampleGit :: "unit GitRepo" where
  "exampleGit =
     \<lparr>PlainOpen = Inr (),
      IsCommitExists = (\<lambda>commit. Inr (commit = ''c1'' \<or> commit = ''c2'')),
      TagsList = Inr [''v1''],
      RemoteBranchesList = Inr [''main'']\<rparr>"

text \<open>A cluster with one pod that runs \<open>registry.example.com/app:live\<close>.\<close>

definition exampleKube :: KubernetesClient where
  "exampleKube =
     \<lparr>Pods = Inr [[''registry.example.com/app:live'']],
      ReplicationControllers = Inr [], Deployments = Inr [], StatefulSets = Inr [],
      DaemonSets = Inr [], ReplicaSets = Inr [], CronJobs = Inr [], Jobs = Inr []\<rparr>"

definition examplePolicies :: ImagesCleanupPolicies where
  "examplePolicies =
     \<lparr>GitTagStrategyHasLimit = False, GitTagStrategyLimit = 0,
      GitTagStrategyHasExpiryPeriod = False, GitTagStrategyExpiryPeriod = 0,
      GitCommitStrategyHasLimit = True, GitCommitStrategyLimit = 3,
      GitCommitStrategyHasExpiryPeriod = False, GitCommitStrategyExpiryPeriod = 0,
      StagesSignatureStrategyHasLimit = False, StagesSignatureStrategyLimit = 0,
      StagesSignatureStrategyHasExpiryPeriod = False, StagesSignatureStrategyExpiryPeriod = 0\<rparr>"

text \<open>A manager of the image \<open>app\<close>, before the data is fetched: with the local git
  repository, the cluster, and the cleanup by policies.\<close>

definition exampleManager :: "(unit, unit) imagesCleanupManager" where
  "exampleManager =
     \<lparr>imageRepoImageList = None, imageCommitHashImageMetadata = None,
      ProjectName = ''project'', ImagesRepo_String = ''registry.example.com/app'',
      StagesManager_StagesStorage = exampleStagesStorage,
      ImageNameList = [''app''], LocalGit = Some exampleGit,
      KubernetesContextsClients = [(''default'', exampleKube)], WithoutKube = False,
      Policies = examplePolicies, GitHistoryBasedCleanup = False, GitHistoryBasedCleanupV12 = False,
      KeepPolicies = (), DryRun = False\<rparr>"

text \<open>A sort by insertion, given a \<open>less\<close> function.\<close>

fun insertBy :: "('a \<Rightarrow> 'a \<Rightarrow> bool) \<Rightarrow> 'a \<Rightarrow> 'a list \<Rightarrow> 'a list" where
  "insertBy lt x [] = [x]"
| "insertBy lt x (y # ys) = (if lt x y then x # y # ys else y # insertBy lt x ys)"

definition insertionSort :: "('a \<Rightarrow> 'a \<Rightarrow> bool) \<Rightarrow> 'a list \<Rightarrow> 'a list" where
  "insertionSort lt xs = foldr (insertBy lt) xs []"

text \<open>The capacities that \<open>append\<close> gives a slice of pointers that grows by one element at
  a time: 1, 2, 4 and 8 for up to eight elements.\<close>

definition exampleCap :: "nat \<Rightarrow> nat" where
  "exampleCap n =
     (if n = 0 then 0 else if n \<le> 1 then 1 else if n \<le> 2 then 2 else if n \<le> 4 then 4
      else if n \<le> 8 then 8 else 2 * n)"

text \<open>The functions outside the sources: every call succeeds, \<open>sort.Slice\<close> is the sort by
  insertion, the registry holds the given images of \<open>app\<close>, and the scan of the git
  history reaches the given content signatures.\<close>

definition exampleExternals :: "Info list \<Rightarrow> string list \<Rightarrow> (unit, unit, unit) externals" where
  "exampleExternals repoImages reached =
     \<lparr>WithHostLockError = (\<lambda>_. None),
      selectRepoImagesFromImagesRepo = (\<lambda>_. Inr [(''app'', repoImages)]),
      getReferencesToScan = (\<lambda>_ _. Inr [()]),
      scanReferencesHistory = (\<lambda>_ _ _. Inr reached),
      deleteRepoImageError = (\<lambda>_ _. None),
      deleteRepoImageNilFailure = (\<lambda>_ _ _. None),
      DockerTag = (\<lambda>s. s),
      NewHash = (\<lambda>s. s),
      ImageLogName = (\<lambda>s. s),
      Now = 1000,
      sortSlice = insertionSort,
      sliceCap = exampleCap\<rparr>"

text \<open>A purge of a project with the managed images \<open>app\<close>, \<open>api\<close> and \<open>web\<close> and no
  stages, where the registry refuses to delete the record of the given image.\<close>

definition examplePurgeManager :: "string \<Rightarrow> stagesPurgeManager" where
  "examplePurgeManager refused =
     \<lparr>purge_GetAllStages = Inr [],
      purge_StagesStorage = exampleStagesStorage
        \<lparr>GetManagedImages := (\<lambda>_. Inr [''app'', ''api'', ''web'']),
         RmManagedImageError := (\<lambda>_ managedImage. if managedImage = refused then Some ''connection reset'' else None)\<rparr>,
      purge_ProjectName = ''project'',
      RmContainersThatUseWerfImages = False,
      purge_DryRun = False\<rparr>"

definition examplePurgeExternals :: purge_externals where
  "examplePurgeExternals =
     \<lparr>purge_WithHostLockError = (\<lambda>_. None), deleteStageError = (\<lambda>_ _. None)\<rparr>"

text \<open>A manager in the git-history-based mode with fetched data: no image of \<open>app\<close> is
  left in the registry, its metadata has the content signature \<open>sigA\<close> at commit \<open>c1\<close>, and
  the stages storage refuses to delete metadata.\<close>

definition exampleRefusingManager :: "(unit, unit) imagesCleanupManager" where
  "exampleRefusingManager =
     exampleManager
       \<lparr>imageRepoImageList := Some [(''app'', [])],
        imageCommitHashImageMetadata := Some [(''app'', [(''c1'', \<lparr>ContentSignature = ''sigA''\<rparr>)])],
        StagesManager_StagesStorage :=
          exampleStagesStorage\<lparr>RmImageCommitError := (\<lambda>_ _ _. Some ''connection reset'')\<rparr>,
        GitHistoryBasedCleanup := True\<rparr>"

text \<open>A manager in the git-history-based mode, with or without the v1.2 flag: the metadata
  of \<open>app\<close> has the content signature \<open>sigA\<close> at commit \<open>c1\<close>.\<close>

definition exampleHistoryManager :: "bool \<Rightarrow> (unit, unit) imagesCleanupManager" where
  "exampleHistoryManager v12 =
     exampleManager
       \<lparr>imageCommitHashImageMetadata := Some [(''app'', [(''c1'', \<lparr>ContentSignature = ''sigA''\<rparr>)])],
        GitHistoryBasedCleanup := True, GitHistoryBasedCleanupV12 := v12\<rparr>"

section \<open>The retention policy in the words of the specification\<close>


section \<open>Properties of the tag codec and of the enumeration of stages\<close>

subsection \<open>Splitting and decimal numbers\<close>

lemma SplitN_2_eq:
  "SplitN_2 sep s =
     (if sep \<in> set s then [takeWhile (\<lambda>c. c \<noteq> sep) s, tl (dropWhile (\<lambda>c. c \<noteq> sep) s)] else [s])"
  by (induction s) auto

lemma digit_char_props:
  "d < 10 \<Longrightarrow> is_digit (digit_char d) \<and> digit_val (digit_char d) = d"
  by (auto simp: digit_char_def less_Suc_eq numeral_eq_Suc is_digit_def digit_val_def)

lemma digits_not_Nil: "digits n \<noteq> []"
  by (subst digits.simps) simp

lemma digits_is_digit: "c \<in> set (digits n) \<Longrightarrow> is_digit c"
proof (induction n rule: digits.induct)
  case (1 n)
  show ?case
  proof (cases "n < 10")
    case True
    with "1.prems" show ?thesis
      by (subst (asm) digits.simps) (simp add: digit_char_props)
  next
    case False
    with "1.prems" have "c \<in> set (digits (n div 10)) \<or> c = digit_char (n mod 10)"
      by (subst (asm) digits.simps) auto
    with False "1.IH" show ?thesis
      by (auto simp: digit_char_props)
  qed
qed

lemma ParseUint_loop_digits:
  "n < 2 ^ 64 \<Longrightarrow> ParseUint_loop 0 (digits n @ rest) = ParseUint_loop n rest"
proof (induction n arbitrary: rest rule: digits.induct)
  case (1 n)
  show ?case
  proof (cases "n < 10")
    case True
    then show ?thesis
      by (subst digits.simps) (simp add: digit_char_props)
  next
    case False
    have small: "n div 10 < 2 ^ 64" using "1.prems" by simp
    have d: "is_digit (digit_char (n mod 10))" "digit_val (digit_char (n mod 10)) = n mod 10"
      by (simp_all add: digit_char_props)
    have "ParseUint_loop 0 (digits n @ rest) =
          ParseUint_loop 0 (digits (n div 10) @ (digit_char (n mod 10) # rest))"
      using False by (subst digits.simps) simp
    also have "\<dots> = ParseUint_loop (n div 10) (digit_char (n mod 10) # rest)"
      using "1.IH" [OF False small] .
    also have "\<dots> = ParseUint_loop (n div 10 * 10 + n mod 10) rest"
    proof -
      have "n div 10 < 1844674407370955162" using "1.prems" by simp
      moreover have "n div 10 * 10 + n mod 10 = n" by simp
      ultimately show ?thesis using "1.prems" d by simp
    qed
    finally show ?thesis by simp
  qed
qed

lemma ParseUint_digits: "n < 2 ^ 64 \<Longrightarrow> ParseUint (digits n) = Inr n"
  using ParseUint_loop_digits [of n "[]"] by (simp add: ParseUint_def digits_not_Nil)

lemma hd_digits_no_sign: "hd (digits n) \<noteq> CHR ''-'' \<and> hd (digits n) \<noteq> CHR ''+''"
proof -
  have "hd (digits n) \<in> set (digits n)" by (simp add: digits_not_Nil)
  then have "is_digit (hd (digits n))" by (rule digits_is_digit)
  then show ?thesis by (auto simp: is_digit_def)
qed

lemma ParseInt_Sprintf_d:
  assumes "- (2 ^ 63) \<le> i" "i < 2 ^ 63"
  shows "ParseInt (Sprintf_d i) = Inr i"
proof (cases "i < 0")
  case True
  then have "nat (- i) \<le> 2 ^ 63" using assms by simp
  then have "nat (- i) < 2 ^ 64" by simp
  then have "ParseUint (digits (nat (- i))) = Inr (nat (- i))" by (rule ParseUint_digits)
  with True \<open>nat (- i) \<le> 2 ^ 63\<close> show ?thesis
    by (simp add: ParseInt_def Sprintf_d_def)
next
  case False
  then have "nat i < 2 ^ 63" using assms by simp
  then have "nat i < 2 ^ 64" by simp
  then have "ParseUint (digits (nat i)) = Inr (nat i)" by (rule ParseUint_digits)
  with False \<open>nat i < 2 ^ 63\<close> hd_digits_no_sign [of "nat i"] show ?thesis
    by (simp add: ParseInt_def Sprintf_d_def digits_not_Nil)
qed

subsection \<open>Decoding a stage tag\<close>

lemma decode_Inr_iff:
  "getSignatureAndUniqueIDFromRepoStageImageTag tag = Inr (s, u) \<longleftrightarrow>
     CHR ''-'' \<in> set tag \<and> s = takeWhile (\<lambda>c. c \<noteq> CHR ''-'') tag \<and>
     ParseUniqueIDAsTimestamp (tl (dropWhile (\<lambda>c. c \<noteq> CHR ''-'') tag)) = Inr u"
  by (auto simp: getSignatureAndUniqueIDFromRepoStageImageTag_def SplitN_2_eq Let_def
           split: sum.splits)

lemma decode_error_is_unexpected:
  "getSignatureAndUniqueIDFromRepoStageImageTag tag = Inl err \<Longrightarrow> isUnexpectedTagFormatError err"
  by (auto simp: getSignatureAndUniqueIDFromRepoStageImageTag_def Let_def
        isUnexpectedTagFormatError_def split: if_splits sum.splits)

lemma decode_isl:
  "isl (getSignatureAndUniqueIDFromRepoStageImageTag tag) \<longleftrightarrow>
     \<not> (CHR ''-'' \<in> set tag \<and> \<not> isl (ParseUniqueIDAsTimestamp (tl (dropWhile (\<lambda>c. c \<noteq> CHR ''-'') tag))))"
  by (auto simp: getSignatureAndUniqueIDFromRepoStageImageTag_def SplitN_2_eq Let_def
           split: sum.splits)

lemma GetAllStages_loop_result:
  "snd (GetAllStages_loop tags) =
     Inr (map (\<lambda>tag. \<lparr>Signature = takeWhile (\<lambda>c. c \<noteq> CHR ''-'') tag,
                       UniqueID = projr (ParseUniqueIDAsTimestamp (tl (dropWhile (\<lambda>c. c \<noteq> CHR ''-'') tag)))\<rparr>)
           (filter (\<lambda>tag. \<not> prefix RepoManagedImageRecord_ImageTagPrefix tag
                         \<and> \<not> prefix RepoImageMetadataByCommitRecord_ImageTagPrefix tag
                         \<and> CHR ''-'' \<in> set tag
                         \<and> \<not> isl (ParseUniqueIDAsTimestamp (tl (dropWhile (\<lambda>c. c \<noteq> CHR ''-'') tag))))
              tags))"
proof (induction tags)
  case Nil
  show ?case by simp
next
  case (Cons tag tags)
  show ?case
  proof (cases "getSignatureAndUniqueIDFromRepoStageImageTag tag")
    case (Inl err)
    then have "isUnexpectedTagFormatError err" by (rule decode_error_is_unexpected)
    moreover from Inl have "\<not> (CHR ''-'' \<in> set tag \<and>
        \<not> isl (ParseUniqueIDAsTimestamp (tl (dropWhile (\<lambda>c. c \<noteq> CHR ''-'') tag))))"
      using decode_isl [of tag] by simp
    ultimately show ?thesis using Inl Cons.IH
      by (auto split: prod.splits)
  next
    case (Inr p)
    obtain s u where p: "p = (s, u)" by (cases p)
    from Inr p have "CHR ''-'' \<in> set tag" "s = takeWhile (\<lambda>c. c \<noteq> CHR ''-'') tag"
      "ParseUniqueIDAsTimestamp (tl (dropWhile (\<lambda>c. c \<noteq> CHR ''-'') tag)) = Inr u"
      by (simp_all add: decode_Inr_iff)
    then show ?thesis using Inr p Cons.IH
      by (auto split: prod.splits sum.splits)
  qed
qed

lemma GetAllStages_loop_log:
  "fst (GetAllStages_loop tags) =
     concat (map (\<lambda>tag. if prefix RepoManagedImageRecord_ImageTagPrefix tag
                            \<or> prefix RepoImageMetadataByCommitRecord_ImageTagPrefix tag then []
                         else (case getSignatureAndUniqueIDFromRepoStageImageTag tag of
                                 Inl err \<Rightarrow> [ErrorLine err]
                               | Inr (s, u) \<Rightarrow> [SelectedStage s u])) tags)"
proof (induction tags)
  case Nil
  show ?case by simp
next
  case (Cons tag tags)
  then show ?case
    by (auto split: prod.splits sum.splits dest: decode_error_is_unexpected)
qed

lemma GetStagesBySignature_loop_result:
  "snd (GetStagesBySignature_loop sig tags) =
     Inr (map (\<lambda>tag. \<lparr>Signature = sig,
                       UniqueID = projr (ParseUniqueIDAsTimestamp (tl (dropWhile (\<lambda>c. c \<noteq> CHR ''-'') tag)))\<rparr>)
           (filter (\<lambda>tag. prefix sig tag \<and> CHR ''-'' \<in> set tag
                         \<and> \<not> isl (ParseUniqueIDAsTimestamp (tl (dropWhile (\<lambda>c. c \<noteq> CHR ''-'') tag))))
              tags))"
proof (induction tags)
  case Nil
  show ?case by simp
next
  case (Cons tag tags)
  show ?case
  proof (cases "getSignatureAndUniqueIDFromRepoStageImageTag tag")
    case (Inl err)
    then have "isUnexpectedTagFormatError err" by (rule decode_error_is_unexpected)
    moreover from Inl have "\<not> (CHR ''-'' \<in> set tag \<and>
        \<not> isl (ParseUniqueIDAsTimestamp (tl (dropWhile (\<lambda>c. c \<noteq> CHR ''-'') tag))))"
      using decode_isl [of tag] by simp
    ultimately show ?thesis using Inl Cons.IH
      by (auto split: prod.splits)
  next
    case (Inr p)
    obtain s u where p: "p = (s, u)" by (cases p)
    from Inr p have "CHR ''-'' \<in> set tag"
      "ParseUniqueIDAsTimestamp (tl (dropWhile (\<lambda>c. c \<noteq> CHR ''-'') tag)) = Inr u"
      by (simp_all add: decode_Inr_iff)
    then show ?thesis using Inr p Cons.IH
      by (auto split: prod.splits sum.splits)
  qed
qed

subsection \<open>Claims about the stage tag codec and the enumerations\<close>

text \<open>
  C2 (as amended). For every signature and every \<open>int64\<close> unique id, decoding the stage
  tag \<open><signature>-<unique_id>\<close> gives back \<open>(signature, unique_id)\<close> exactly when the
  signature contains no hyphen: the decoder cuts the tag at its first hyphen. A signature
  without a hyphen starts with no reserved prefix, since each of them contains one.
\<close>

theorem stage_tag_roundtrip_iff_no_hyphen:
  assumes "- (2 ^ 63) \<le> uniqueID" "uniqueID < 2 ^ 63"
  shows "(getSignatureAndUniqueIDFromRepoStageImageTag (stageTag signature uniqueID)
            = Inr (signature, uniqueID)) = (CHR ''-'' \<notin> set signature)"
proof (cases "CHR ''-'' \<in> set signature")
  case True
  then have "takeWhile (\<lambda>c. c \<noteq> CHR ''-'') (stageTag signature uniqueID) \<noteq> signature"
    by (metis (mono_tags, lifting) set_takeWhileD)
  then show ?thesis using True by (simp add: decode_Inr_iff)
next
  case False
  then have nd: "\<And>x. x \<in> set signature \<Longrightarrow> x \<noteq> CHR ''-''" by auto
  have tw: "takeWhile (\<lambda>c. c \<noteq> CHR ''-'') (stageTag signature uniqueID) = signature"
    unfolding stageTag_def by (subst takeWhile_append2) (simp_all add: nd)
  have dw: "dropWhile (\<lambda>c. c \<noteq> CHR ''-'') (stageTag signature uniqueID) = CHR ''-'' # Sprintf_d uniqueID"
    unfolding stageTag_def by (subst dropWhile_append2) (simp_all add: nd)
  show ?thesis using False assms
    by (simp add: decode_Inr_iff tw dw ParseUniqueIDAsTimestamp_def ParseInt_Sprintf_d)
  (simp add: stageTag_def)
qed

theorem stage_tag_roundtrip_witness:
  "getSignatureAndUniqueIDFromRepoStageImageTag (stageTag ''abc123'' 1700000000000)
     = Inr (''abc123'', 1700000000000)"
  using stage_tag_roundtrip_iff_no_hyphen [of 1700000000000 "''abc123''"] by simp

text \<open>
  The claim as it was stated fails for a signature with a hyphen: \<open>a-b\<close> starts with no
  reserved prefix, its tag for the unique id 1 is \<open>a-b-1\<close>, and decoding that tag reports
  an unexpected tag format, because \<open>b-1\<close> is no timestamp.
\<close>

theorem stage_tag_roundtrip_hyphen_counterexample:
  "\<not> prefix RepoManagedImageRecord_ImageTagPrefix ''a-b''
   \<and> \<not> prefix RepoImageMetadataByCommitRecord_ImageTagPrefix ''a-b''
   \<and> \<not> prefix RepoClientIDRecrod_ImageTagPrefix ''a-b''
   \<and> stageTag ''a-b'' 1 = ''a-b-1''
   \<and> isl (getSignatureAndUniqueIDFromRepoStageImageTag (stageTag ''a-b'' 1))
   \<and> getSignatureAndUniqueIDFromRepoStageImageTag (stageTag ''a-b'' 1) \<noteq> Inr (''a-b'', 1)"
  by (simp add: RepoManagedImageRecord_ImageTagPrefix_def
        RepoImageMetadataByCommitRecord_ImageTagPrefix_def RepoClientIDRecrod_ImageTagPrefix_def
        stageTag_def Sprintf_d_def digits.simps digit_char_def
        getSignatureAndUniqueIDFromRepoStageImageTag_def ParseUniqueIDAsTimestamp_def
        ParseInt_def ParseUint_def is_digit_def digit_val_def)

text \<open>
  C8. When the registry lists the tags, \<open>GetAllStages\<close> returns, in the order of the
  list, one stage for every tag that has neither the managed-image nor the
  metadata-by-commit prefix, contains a hyphen, and whose text after the first hyphen
  parses as a timestamp; the stage has the text before the first hyphen as signature and
  the parsed number as unique id. Every other tag without one of the two prefixes is
  logged and skipped, and no error is returned.
\<close>

theorem GetAllStages_returns_decodable_tags:
  assumes "Tags reg RepoAddress = Inr tags"
  shows "snd (GetAllStages reg RepoAddress) =
     Inr (map (\<lambda>tag. \<lparr>Signature = takeWhile (\<lambda>c. c \<noteq> CHR ''-'') tag,
                       UniqueID = projr (ParseUniqueIDAsTimestamp (tl (dropWhile (\<lambda>c. c \<noteq> CHR ''-'') tag)))\<rparr>)
           (filter (\<lambda>tag. \<not> prefix RepoManagedImageRecord_ImageTagPrefix tag
                         \<and> \<not> prefix RepoImageMetadataByCommitRecord_ImageTagPrefix tag
                         \<and> CHR ''-'' \<in> set tag
                         \<and> \<not> isl (ParseUniqueIDAsTimestamp (tl (dropWhile (\<lambda>c. c \<noteq> CHR ''-'') tag))))
              tags))
   \<and> fst (GetAllStages reg RepoAddress) =
     FetchedTags RepoAddress tags #
     concat (map (\<lambda>tag. if prefix RepoManagedImageRecord_ImageTagPrefix tag
                            \<or> prefix RepoImageMetadataByCommitRecord_ImageTagPrefix tag then []
                         else (case getSignatureAndUniqueIDFromRepoStageImageTag tag of
                                 Inl err \<Rightarrow> [ErrorLine err]
                               | Inr (s, u) \<Rightarrow> [SelectedStage s u])) tags)"
proof -
  have "GetAllStages reg RepoAddress =
      (FetchedTags RepoAddress tags # fst (GetAllStages_loop tags), snd (GetAllStages_loop tags))"
    using assms by (simp add: GetAllStages_def split: prod.splits)
  then show ?thesis
    by (simp only: fst_conv snd_conv GetAllStages_loop_result GetAllStages_loop_log simp_thms)
qed

text \<open>The scenario S1 of the specification.\<close>

theorem GetAllStages_scenario_S1_witness:
  "snd (GetAllStages
         \<lparr>Tags = (\<lambda>_. Inr [''abc123-1700000000000'', ''abc123-1700000001000'',
                            ''managed-image-myapp'', ''noise'', ''def-notanumber'']),
          TryGetRepoImage = (\<lambda>_. Inr None)\<rparr>
         ''registry.example.com/app'')
     = Inr [\<lparr>Signature = ''abc123'', UniqueID = 1700000000000\<rparr>,
            \<lparr>Signature = ''abc123'', UniqueID = 1700000001000\<rparr>]"
  using GetAllStages_returns_decodable_tags
    [of "\<lparr>Tags = (\<lambda>_. Inr [''abc123-1700000000000'', ''abc123-1700000001000'',
                            ''managed-image-myapp'', ''noise'', ''def-notanumber'']),
          TryGetRepoImage = (\<lambda>_. Inr None)\<rparr>"
        "''registry.example.com/app''"
        "[''abc123-1700000000000'', ''abc123-1700000001000'',
          ''managed-image-myapp'', ''noise'', ''def-notanumber'']"]
  by (simp add: RepoManagedImageRecord_ImageTagPrefix_def
        RepoImageMetadataByCommitRecord_ImageTagPrefix_def
        ParseUniqueIDAsTimestamp_def ParseInt_def ParseUint_def is_digit_def digit_val_def)

text \<open>
  C10. When the registry lists the tags, \<open>GetStagesBySignature\<close> returns, in the order of
  the list, one stage for every tag that starts with the given signature (nothing asks
  for a hyphen right after it), contains a hyphen, and whose text after its first hyphen
  parses as a timestamp. Every returned stage carries the signature that was asked for,
  whatever the text before the tag's first hyphen is.
\<close>

theorem GetStagesBySignature_selects_by_bare_prefix:
  assumes "Tags reg RepoAddress = Inr tags"
  shows "snd (GetStagesBySignature reg RepoAddress signature) =
     Inr (map (\<lambda>tag. \<lparr>Signature = signature,
                       UniqueID = projr (ParseUniqueIDAsTimestamp (tl (dropWhile (\<lambda>c. c \<noteq> CHR ''-'') tag)))\<rparr>)
           (filter (\<lambda>tag. prefix signature tag \<and> CHR ''-'' \<in> set tag
                         \<and> \<not> isl (ParseUniqueIDAsTimestamp (tl (dropWhile (\<lambda>c. c \<noteq> CHR ''-'') tag))))
              tags))"
proof -
  have "snd (GetStagesBySignature reg RepoAddress signature) =
      snd (GetStagesBySignature_loop signature tags)"
    using assms by (simp add: GetStagesBySignature_def split: prod.splits)
  then show ?thesis
    by (simp only: GetStagesBySignature_loop_result)
qed

text \<open>Asked for \<open>abc\<close>, the tag \<open>abcdef-17\<close> of the longer signature \<open>abcdef\<close> is
  returned as a stage of \<open>abc\<close>.\<close>

theorem GetStagesBySignature_longer_signature_witness:
  "snd (GetStagesBySignature
         \<lparr>Tags = (\<lambda>_. Inr [''abcdef-17'', ''abc-18'', ''abd-1'', ''abcx'', ''abc-de-1'']),
          TryGetRepoImage = (\<lambda>_. Inr None)\<rparr>
         ''registry.example.com/app'' ''abc'')
     = Inr [\<lparr>Signature = ''abc'', UniqueID = 17\<rparr>, \<lparr>Signature = ''abc'', UniqueID = 18\<rparr>]"
  using GetStagesBySignature_selects_by_bare_prefix
    [of "\<lparr>Tags = (\<lambda>_. Inr [''abcdef-17'', ''abc-18'', ''abd-1'', ''abcx'', ''abc-de-1'']),
          TryGetRepoImage = (\<lambda>_. Inr None)\<rparr>"
        "''registry.example.com/app''"
        "[''abcdef-17'', ''abc-18'', ''abd-1'', ''abcx'', ''abc-de-1'']" "''abc''"]
  by (simp add: ParseUniqueIDAsTimestamp_def ParseInt_def ParseUint_def is_digit_def digit_val_def)

section \<open>Properties of the metadata-by-commit records\<close>

lemma length_ReplaceAll_one: "length (ReplaceAll s old [new]) = length s"
  by (induction s) (simp_all add: ReplaceAll_def)

lemma ReplaceAll_one_map: "ReplaceAll s old [new] = map (\<lambda>c. if c = old then new else c) s"
  by (induction s) (simp_all add: ReplaceAll_def)

text \<open>
  C5. For every image name and every commit of at most 40 bytes, with a
  \<open>LimitedSlug\<close> that shrinks an over-long text to the size asked for, the
  metadata-by-commit tag has at most 128 bytes; when the unshrunk form has more than
  128, the tag has exactly 128 bytes and is the prefix, the shrunk slug of the name with
  every hyphen replaced by an underscore, one hyphen, and the commit.
\<close>

theorem metadata_tag_capped_at_128:
  assumes "length commit \<le> 40"
    and "LimitedSlug_shrinks_to_size LimitedSlug"
  shows "length (slugRepoImageMetadataByCommitImageRecordTag LimitedSlug imageName commit) \<le> 128
    \<and> (128 < length (RepoImageMetadataByCommitRecord_TagFormat (slugImageNameAsDockerImageTag imageName) commit)
        \<longrightarrow> length (slugRepoImageMetadataByCommitImageRecordTag LimitedSlug imageName commit) = 128
          \<and> slugRepoImageMetadataByCommitImageRecordTag LimitedSlug imageName commit =
              ''image-metadata-by-commit-'' @
              map (\<lambda>c. if c = CHR ''-'' then CHR ''_'' else c)
                (LimitedSlug (slugImageNameAsDockerImageTag imageName) (102 - int (length commit))) @
              ''-'' @ commit
          \<and> CHR ''-'' \<notin> set (map (\<lambda>c. if c = CHR ''-'' then CHR ''_'' else c)
                (LimitedSlug (slugImageNameAsDockerImageTag imageName) (102 - int (length commit)))))"
proof (cases "length (RepoImageMetadataByCommitRecord_TagFormat (slugImageNameAsDockerImageTag imageName) commit) \<le> 128")
  case True
  then show ?thesis
    by (simp add: slugRepoImageMetadataByCommitImageRecordTag_def
          slugImageMetadataByCommitImageRecordTag_def Let_def)
next
  case False
  define f where "f = slugImageNameAsDockerImageTag imageName"
  have len: "length (RepoImageMetadataByCommitRecord_TagFormat f commit) = 26 + length f + length commit"
    by (simp add: RepoImageMetadataByCommitRecord_TagFormat_def)
  have budget: "int (length f) - (int (length (RepoImageMetadataByCommitRecord_TagFormat f commit)) - 128)
      = 102 - int (length commit)"
    by (simp add: len)
  have over: "102 - int (length commit) < int (length f)"
    using False by (simp add: f_def [symmetric] len)
  have nonneg: "0 \<le> 102 - int (length commit)"
    using assms(1) by simp
  have shrunk: "int (length (LimitedSlug f (102 - int (length commit)))) = 102 - int (length commit)"
    using assms(2) over nonneg by (simp add: LimitedSlug_shrinks_to_size_def)
  have tag: "slugRepoImageMetadataByCommitImageRecordTag LimitedSlug imageName commit =
      ''image-metadata-by-commit-'' @
        map (\<lambda>c. if c = CHR ''-'' then CHR ''_'' else c) (LimitedSlug f (102 - int (length commit))) @
        ''-'' @ commit"
    using False
    by (simp add: slugRepoImageMetadataByCommitImageRecordTag_def
          slugImageMetadataByCommitImageRecordTag_def Let_def f_def [symmetric] budget
          ReplaceAll_one_map)
       (simp add: RepoImageMetadataByCommitRecord_TagFormat_def)
  have "length (slugRepoImageMetadataByCommitImageRecordTag LimitedSlug imageName commit) = 128"
    using shrunk by (simp add: tag)
  then show ?thesis
    using tag by (auto simp: f_def)
qed

theorem metadata_tag_scenario_S6_witness:
  "length (replicate 40 CHR ''0'') \<le> 40
   \<and> LimitedSlug_shrinks_to_size (\<lambda>data n. take (nat n) data)
   \<and> length (slugImageNameAsDockerImageTag (concat (replicate 60 ''a-''))) = 120
   \<and> length (slugRepoImageMetadataByCommitImageRecordTag (\<lambda>data n. take (nat n) data)
                (concat (replicate 60 ''a-'')) (replicate 40 CHR ''0'')) = 128
   \<and> slugRepoImageMetadataByCommitImageRecordTag (\<lambda>data n. take (nat n) data)
                (concat (replicate 60 ''a-'')) (replicate 40 CHR ''0'')
       = ''image-metadata-by-commit-'' @ concat (replicate 31 ''a_'') @ ''-'' @ replicate 40 CHR ''0''"
proof -
  have c: "length (replicate 40 CHR ''0'') \<le> 40" by simp
  have l: "LimitedSlug_shrinks_to_size (\<lambda>data n. take (nat n) data)"
    by (auto simp: LimitedSlug_shrinks_to_size_def)
  have n: "slugImageNameAsDockerImageTag (concat (replicate 60 ''a-'')) = concat (replicate 60 ''a-'')"
    by (simp add: slugImageNameAsDockerImageTag_def ReplaceAll_def numeral_eq_Suc)
  have over: "128 < length (RepoImageMetadataByCommitRecord_TagFormat
       (slugImageNameAsDockerImageTag (concat (replicate 60 ''a-''))) (replicate 40 CHR ''0''))"
    by (simp add: n RepoImageMetadataByCommitRecord_TagFormat_def length_concat sum_list_replicate)
  have t: "map (\<lambda>c. if c = CHR ''-'' then CHR ''_'' else c) (take 62 (concat (replicate 60 ''a-'')))
      = concat (replicate 31 ''a_'')"
    by (simp add: numeral_eq_Suc)
  from metadata_tag_capped_at_128 [OF c l, of "concat (replicate 60 ''a-'')"] over
  show ?thesis
    by (simp add: n t c l length_concat sum_list_replicate)
qed

text \<open>
  C6 (as amended). \<open>GetImageMetadataByCommit\<close> returns the registry's error as an error.
  Otherwise it returns \<open>nil\<close> exactly when the tag is absent or the image has no labels
  map at all; for an image with a labels map it returns metadata whose content signature
  is the \<open>ContentSignature\<close> label, or the empty text when that label is missing.
\<close>

theorem GetImageMetadataByCommit_by_labels_map:
  "(GetImageMetadataByCommit LimitedSlug reg RepoAddress imageName commit = Inr None) =
      (TryGetRepoImage reg (makeRepoImageMetadataByCommitImageRecord LimitedSlug RepoAddress imageName commit) = Inr None
       \<or> (\<exists>i. TryGetRepoImage reg (makeRepoImageMetadataByCommitImageRecord LimitedSlug RepoAddress imageName commit) = Inr (Some i)
              \<and> Labels i = None))
   \<and> (\<forall>i m. TryGetRepoImage reg (makeRepoImageMetadataByCommitImageRecord LimitedSlug RepoAddress imageName commit) = Inr (Some i)
            \<and> Labels i = Some m
        \<longrightarrow> GetImageMetadataByCommit LimitedSlug reg RepoAddress imageName commit =
              Inr (Some \<lparr>ContentSignature = (case map_of m ''ContentSignature'' of None \<Rightarrow> [] | Some v \<Rightarrow> v)\<rparr>))
   \<and> isl (GetImageMetadataByCommit LimitedSlug reg RepoAddress imageName commit) =
       isl (TryGetRepoImage reg (makeRepoImageMetadataByCommitImageRecord LimitedSlug RepoAddress imageName commit))"
proof (cases "TryGetRepoImage reg (makeRepoImageMetadataByCommitImageRecord LimitedSlug RepoAddress imageName commit)")
  case (Inl err)
  then show ?thesis by (simp add: GetImageMetadataByCommit_def Let_def)
next
  case (Inr got)
  show ?thesis
  proof (cases got)
    case None
    with Inr show ?thesis by (simp add: GetImageMetadataByCommit_def Let_def)
  next
    case (Some i)
    with Inr show ?thesis
      by (cases "Labels i")
         (simp_all add: GetImageMetadataByCommit_def Let_def labelOrEmpty_def label_def)
  qed
qed

theorem GetImageMetadataByCommit_witness:
  "GetImageMetadataByCommit (\<lambda>data n. take (nat n) data)
      \<lparr>Tags = (\<lambda>_. Inr []),
       TryGetRepoImage = (\<lambda>_. Inr (Some \<lparr>Name = ''repo:t'', Repository = ''repo'', Tag = ''t'',
          Labels = Some [(''ContentSignature'', ''sig1'')], CreatedAtUnixNano = 0\<rparr>))\<rparr>
      ''repo'' ''app'' ''c0ffee''
    = Inr (Some \<lparr>ContentSignature = ''sig1''\<rparr>)
   \<and> GetImageMetadataByCommit (\<lambda>data n. take (nat n) data)
      \<lparr>Tags = (\<lambda>_. Inr []),
       TryGetRepoImage = (\<lambda>_. Inr (Some \<lparr>Name = ''repo:t'', Repository = ''repo'', Tag = ''t'',
          Labels = None, CreatedAtUnixNano = 0\<rparr>))\<rparr>
      ''repo'' ''app'' ''c0ffee''
    = Inr None"
  using GetImageMetadataByCommit_by_labels_map
    [of "\<lambda>data n. take (nat n) data"
        "\<lparr>Tags = (\<lambda>_. Inr []),
          TryGetRepoImage = (\<lambda>_. Inr (Some \<lparr>Name = ''repo:t'', Repository = ''repo'', Tag = ''t'',
            Labels = Some [(''ContentSignature'', ''sig1'')], CreatedAtUnixNano = 0\<rparr>))\<rparr>"
        "''repo''" "''app''" "''c0ffee''"]
    GetImageMetadataByCommit_by_labels_map
    [of "\<lambda>data n. take (nat n) data"
        "\<lparr>Tags = (\<lambda>_. Inr []),
          TryGetRepoImage = (\<lambda>_. Inr (Some \<lparr>Name = ''repo:t'', Repository = ''repo'', Tag = ''t'',
            Labels = None, CreatedAtUnixNano = 0\<rparr>))\<rparr>"
        "''repo''" "''app''" "''c0ffee''"]
  by simp

text \<open>
  The claim as it was stated fails for an image that has labels but no
  \<open>ContentSignature\<close> label: the metadata returned is not \<open>nil\<close>, it has the empty
  content signature.
\<close>

theorem GetImageMetadataByCommit_missing_label_counterexample:
  "label \<lparr>Name = ''repo:t'', Repository = ''repo'', Tag = ''t'',
          Labels = Some [(''maintainer'', ''dev'')], CreatedAtUnixNano = 0\<rparr> ''ContentSignature'' = None
   \<and> GetImageMetadataByCommit (\<lambda>data n. take (nat n) data)
      \<lparr>Tags = (\<lambda>_. Inr []),
       TryGetRepoImage = (\<lambda>_. Inr (Some \<lparr>Name = ''repo:t'', Repository = ''repo'', Tag = ''t'',
          Labels = Some [(''maintainer'', ''dev'')], CreatedAtUnixNano = 0\<rparr>))\<rparr>
      ''repo'' ''app'' ''c0ffee''
    = Inr (Some \<lparr>ContentSignature = []\<rparr>)"
  by (simp add: GetImageMetadataByCommit_def Let_def labelOrEmpty_def label_def)

section \<open>Properties of the images cleanup\<close>

subsection \<open>Actions and effects\<close>

lemma bind_return: "bind (return x) f = f x"
  by (simp add: bind_def return_def split: prod.splits)

lemma bind_fail: "bind (fail e) f = fail e"
  by (simp add: bind_def fail_def)

lemma bind_Inr: "bind (es, Inr x) f = (es @ fst (f x), snd (f x))"
  by (simp add: bind_def split: prod.splits)

lemma bind_Inl: "bind (es, Inl e) f = (es, Inl e)"
  by (simp add: bind_def)

lemma fst_bind:
  "fst (bind a f) = (case snd a of Inl e \<Rightarrow> fst a | Inr x \<Rightarrow> fst a @ fst (f x))"
  by (cases a) (auto simp: bind_def split: sum.splits prod.splits)

lemma snd_bind:
  "snd (bind a f) = (case snd a of Inl e \<Rightarrow> Inl e | Inr x \<Rightarrow> snd (f x))"
  by (cases a) (auto simp: bind_def split: sum.splits prod.splits)

lemma deleted_append [simp]: "deleted (es @ es') = deleted es @ deleted es'"
  by (induction es rule: deleted.induct) simp_all


subsection \<open>Fetching the data\<close>

lemma initRepoImagesData_fields:
  assumes "initRepoImagesData ext m = Inr fetched"
  shows "imageRepoImageList fetched \<noteq> None" "LocalGit fetched = LocalGit m"
    "WithoutKube fetched = WithoutKube m" "DryRun fetched = DryRun m"
    "GitHistoryBasedCleanup fetched = GitHistoryBasedCleanup m"
    "GitHistoryBasedCleanupV12 fetched = GitHistoryBasedCleanupV12 m"
    "KubernetesContextsClients fetched = KubernetesContextsClients m"
    "imageRepoImageList fetched = (case selectRepoImagesFromImagesRepo ext (ImageNameList m) of Inr x \<Rightarrow> Some x | Inl _ \<Rightarrow> None)"
  using assms
  by (auto simp: initRepoImagesData_def split: sum.splits if_splits)

subsection \<open>The retention policies\<close>


lemma mset_insertBy: "mset (insertBy lt x xs) = add_mset x (mset xs)"
  by (induction xs) simp_all

lemma set_insertBy: "set (insertBy lt x xs) = insert x (set xs)"
  by (induction xs) auto

lemma sorted_insertBy:
  fixes key :: "'a \<Rightarrow> int"
  assumes "sorted_wrt (\<lambda>i j. \<not> key j < key i) xs"
  shows "sorted_wrt (\<lambda>i j. \<not> key j < key i) (insertBy (\<lambda>i j. key i < key j) x xs)"
  using assms by (induction xs) (auto simp: set_insertBy)

lemma mset_insertionSort: "mset (insertionSort lt xs) = mset xs"
  by (induction xs) (simp_all add: insertionSort_def mset_insertBy)

lemma sorted_insertionSort:
  fixes key :: "'a \<Rightarrow> int"
  shows "sorted_wrt (\<lambda>i j. \<not> key j < key i) (insertionSort (\<lambda>i j. key i < key j) xs)"
proof (induction xs)
  case Nil
  show ?case by (simp add: insertionSort_def)
next
  case (Cons x xs)
  then show ?case
    using sorted_insertBy [of key "insertionSort (\<lambda>i j. key i < key j) xs" x]
    by (simp add: insertionSort_def)
qed

lemma sortSlice_sorts_insertionSort: "sortSlice_sorts insertionSort"
  unfolding sortSlice_sorts_def by (simp add: mset_insertionSort sorted_insertionSort)

lemma sortSlice_sorts_createdAt:
  assumes "sortSlice_sorts srt"
  shows "mset (srt (\<lambda>i j. GetCreatedAt i < GetCreatedAt j) xs) = mset xs"
    and "sorted (map GetCreatedAt (srt (\<lambda>i j. GetCreatedAt i < GetCreatedAt j) xs))"
proof -
  from assms have a: "mset (srt (\<lambda>i j. GetCreatedAt i < GetCreatedAt j) xs) = mset xs
      \<and> sorted_wrt (\<lambda>i j. \<not> GetCreatedAt j < GetCreatedAt i) (srt (\<lambda>i j. GetCreatedAt i < GetCreatedAt j) xs)"
    unfolding sortSlice_sorts_def by blast
  then show "mset (srt (\<lambda>i j. GetCreatedAt i < GetCreatedAt j) xs) = mset xs" by simp
  from a show "sorted (map GetCreatedAt (srt (\<lambda>i j. GetCreatedAt i < GetCreatedAt j) xs))"
    by (simp add: sorted_map not_less)
qed






subsection \<open>The run without a local git repository\<close>

text \<open>
  C9. Without a local git repository (\<open>LocalGit\<close> is \<open>nil\<close>) the run takes the host lock,
  fetches the repo image data, logs that the cleanup is skipped and returns success with
  the fetched data, before any exclusion, policy or deletion; when the lock or the fetch
  fails it returns that error. No deleting call is made in any case.
\<close>

theorem run_without_local_git:
  assumes "LocalGit m = None"
  shows "run ext m =
     (case WithHostLockError ext (''images-cleanup.'' @ ImagesRepo_String m) of
        Some err \<Rightarrow> ([], Inl (Error err))
      | None \<Rightarrow>
          (case initRepoImagesData ext m of
             Inl e \<Rightarrow> ([], Inl e)
           | Inr fetched \<Rightarrow> ([LogLine skippedLine], Inr fetched)))"
proof (cases "WithHostLockError ext (''images-cleanup.'' @ ImagesRepo_String m)")
  case (Some err)
  then show ?thesis by (simp add: run_def fail_def)
next
  case None
  show ?thesis
  proof (cases "initRepoImagesData ext m")
    case (Inl e)
    with None show ?thesis by (simp add: run_def bind_Inl)
  next
    case (Inr fetched)
    from initRepoImagesData_fields(1,2) [OF Inr] assms
    obtain imgs where "imageRepoImageList fetched = Some imgs" "LocalGit fetched = None"
      by auto
    with None Inr show ?thesis
      by (simp add: run_def bind_Inr emit_def return_def)
  qed
qed

theorem run_without_local_git_witness:
  "LocalGit (exampleManager\<lparr>LocalGit := None\<rparr>) = None
   \<and> fst (run (exampleExternals [exampleImage ''v9'' GitTag ''s'' 10] [])
            (exampleManager\<lparr>LocalGit := None\<rparr>)) = [LogLine skippedLine]
   \<and> snd (run (exampleExternals [exampleImage ''v9'' GitTag ''s'' 10] [])
            (exampleManager\<lparr>LocalGit := None\<rparr>))
      = Inr (exampleManager\<lparr>LocalGit := None,
               imageRepoImageList := Some [(''app'', [exampleImage ''v9'' GitTag ''s'' 10])]\<rparr>)"
proof -
  have a: "LocalGit (exampleManager\<lparr>LocalGit := None\<rparr>) = None" by simp
  have i: "initRepoImagesData (exampleExternals [exampleImage ''v9'' GitTag ''s'' 10] [])
             (exampleManager\<lparr>LocalGit := None\<rparr>)
       = Inr (exampleManager\<lparr>LocalGit := None,
               imageRepoImageList := Some [(''app'', [exampleImage ''v9'' GitTag ''s'' 10])]\<rparr>)"
    by (simp add: initRepoImagesData_def exampleExternals_def exampleManager_def)
  have l: "WithHostLockError (exampleExternals [exampleImage ''v9'' GitTag ''s'' 10] []) = (\<lambda>_. None)"
    by (simp add: exampleExternals_def)
  show ?thesis
    using run_without_local_git [OF a, of "exampleExternals [exampleImage ''v9'' GitTag ''s'' 10] []"]
    by (simp add: i l)
qed

subsection \<open>Failures of single deletions\<close>

lemma purgeManagedImages_abort:
  assumes "\<not> purge_DryRun m"
    and "\<And>x. x \<in> set done \<Longrightarrow> RmManagedImageError (purge_StagesStorage m) (purge_ProjectName m) x = None"
    and "RmManagedImageError (purge_StagesStorage m) (purge_ProjectName m) failing = Some err"
  shows "purgeManagedImages m (done @ failing # remaining) =
     (concat (map (\<lambda>x. [RmManagedImage (purge_ProjectName m) x,
                         LogLine (''  tag: '' @ (if x = [] then NamelessImageRecordTag else x))]) done)
        @ [RmManagedImage (purge_ProjectName m) failing],
      Inl (Error err))"
  using assms
proof (induction "done")
  case Nil
  then show ?case by (simp add: bind_Inl)
next
  case (Cons x xs)
  then show ?case by (simp add: bind_Inr emit_def)
qed

lemma deleteUnusedMetadata_calls:
  "\<not> DryRun m \<Longrightarrow>
   concat (map (\<lambda>e. case e of RmImageCommit p i c \<Rightarrow> [c] | _ \<Rightarrow> [])
             (deleteUnusedMetadata ext m imageName commitHashes))
     = commitHashes"
  by (induction commitHashes) (auto split: option.splits)

lemma deleteUnusedMetadata_warns:
  "\<not> DryRun m \<Longrightarrow> c \<in> set commitHashes \<Longrightarrow>
   RmImageCommitError (StagesManager_StagesStorage m) (ProjectName m) imageName c = Some err \<Longrightarrow>
   WarnLine (''WARNING: Metadata image deletion (image '' @ ImageLogName ext imageName @
             '', commit: '' @ c @ '') failed: '' @ err)
     \<in> set (deleteUnusedMetadata ext m imageName commitHashes)"
  by (induction commitHashes) (auto split: option.splits)

lemma history_result_ignores_RmImageCommit_errors:
  "snd (repoImagesGitHistoryBasedCleanup ext (m\<lparr>StagesManager_StagesStorage := ss\<rparr>) cands) =
   snd (repoImagesGitHistoryBasedCleanup ext m cands)"
proof -
  have a: "getImageCommitHashImageMetadata (m\<lparr>StagesManager_StagesStorage := ss\<rparr>) = getImageCommitHashImageMetadata m"
    by (simp add: getImageCommitHashImageMetadata_def)
  have b: "getImageContentSignatureRepoImageListToCleanup (m\<lparr>StagesManager_StagesStorage := ss\<rparr>) = getImageContentSignatureRepoImageListToCleanup m"
    by (auto simp: getImageContentSignatureRepoImageListToCleanup_def a fun_eq_iff split: sum.splits)
  have c: "getImageContentSignatureExistingCommitHashes (m\<lparr>StagesManager_StagesStorage := ss\<rparr>) = getImageContentSignatureExistingCommitHashes m"
    by (auto simp: getImageContentSignatureExistingCommitHashes_def a fun_eq_iff split: sum.splits)
  show ?thesis
    unfolding repoImagesGitHistoryBasedCleanup_def a b c
    by (simp add: snd_bind emit_def return_def fail_def split: option.splits sum.splits prod.splits)
qed

text \<open>
  C7 (as amended). In the purge, a failure to delete the record of a managed image ends
  the loop at once with that error: the records after it are not processed. In the
  cleanup, every unused per-commit metadata tag is given to \<open>RmImageCommit\<close>, a failure is
  logged as a warning, and the result of the git-history-based cleanup does not depend on
  what \<open>RmImageCommit\<close> returns: a failure is not counted and does not make the run fail.
\<close>

theorem batch_delete_failures:
  "(\<not> purge_DryRun pm
      \<and> (\<forall>x \<in> set done. RmManagedImageError (purge_StagesStorage pm) (purge_ProjectName pm) x = None)
      \<and> RmManagedImageError (purge_StagesStorage pm) (purge_ProjectName pm) failing = Some err
    \<longrightarrow> purgeManagedImages pm (done @ failing # remaining) =
         (concat (map (\<lambda>x. [RmManagedImage (purge_ProjectName pm) x,
                             LogLine (''  tag: '' @ (if x = [] then NamelessImageRecordTag else x))]) done)
            @ [RmManagedImage (purge_ProjectName pm) failing],
          Inl (Error err)))
   \<and> (\<not> DryRun m
    \<longrightarrow> concat (map (\<lambda>e. case e of RmImageCommit p i c \<Rightarrow> [c] | _ \<Rightarrow> [])
                  (deleteUnusedMetadata ext m imageName commitHashes)) = commitHashes
      \<and> (\<forall>c \<in> set commitHashes. \<forall>err'.
            RmImageCommitError (StagesManager_StagesStorage m) (ProjectName m) imageName c = Some err'
            \<longrightarrow> WarnLine (''WARNING: Metadata image deletion (image '' @ ImageLogName ext imageName @
                           '', commit: '' @ c @ '') failed: '' @ err')
                  \<in> set (deleteUnusedMetadata ext m imageName commitHashes)))
   \<and> snd (repoImagesGitHistoryBasedCleanup ext (m\<lparr>StagesManager_StagesStorage := ss\<rparr>) cands) =
      snd (repoImagesGitHistoryBasedCleanup ext m cands)"
proof (intro conjI impI ballI allI)
  assume "\<not> purge_DryRun pm
      \<and> (\<forall>x \<in> set done. RmManagedImageError (purge_StagesStorage pm) (purge_ProjectName pm) x = None)
      \<and> RmManagedImageError (purge_StagesStorage pm) (purge_ProjectName pm) failing = Some err"
  then show "purgeManagedImages pm (done @ failing # remaining) =
         (concat (map (\<lambda>x. [RmManagedImage (purge_ProjectName pm) x,
                             LogLine (''  tag: '' @ (if x = [] then NamelessImageRecordTag else x))]) done)
            @ [RmManagedImage (purge_ProjectName pm) failing],
          Inl (Error err))"
    by (intro purgeManagedImages_abort) simp_all
next
  assume "\<not> DryRun m"
  then show "concat (map (\<lambda>e. case e of RmImageCommit p i c \<Rightarrow> [c] | _ \<Rightarrow> [])
                  (deleteUnusedMetadata ext m imageName commitHashes)) = commitHashes"
    by (rule deleteUnusedMetadata_calls)
next
  fix c err'
  assume "\<not> DryRun m" "c \<in> set commitHashes"
    "RmImageCommitError (StagesManager_StagesStorage m) (ProjectName m) imageName c = Some err'"
  then show "WarnLine (''WARNING: Metadata image deletion (image '' @ ImageLogName ext imageName @
                           '', commit: '' @ c @ '') failed: '' @ err')
                  \<in> set (deleteUnusedMetadata ext m imageName commitHashes)"
    by (rule deleteUnusedMetadata_warns)
next
  show "snd (repoImagesGitHistoryBasedCleanup ext (m\<lparr>StagesManager_StagesStorage := ss\<rparr>) cands) =
      snd (repoImagesGitHistoryBasedCleanup ext m cands)"
    by (rule history_result_ignores_RmImageCommit_errors)
qed

theorem batch_delete_failures_witness:
  "purgeManagedImages (examplePurgeManager ''api'') ([''app''] @ ''api'' # [''web'']) =
     ([RmManagedImage ''project'' ''app'', LogLine ''  tag: app'', RmManagedImage ''project'' ''api''],
      Inl (Error ''connection reset''))
   \<and> deleteUnusedMetadata (exampleExternals [] []) exampleRefusingManager ''app'' [''c1'', ''c2''] =
     [RmImageCommit ''project'' ''app'' ''c1'',
      WarnLine ''WARNING: Metadata image deletion (image app, commit: c1) failed: connection reset'',
      RmImageCommit ''project'' ''app'' ''c2'',
      WarnLine ''WARNING: Metadata image deletion (image app, commit: c2) failed: connection reset'']"
proof -
  have p: "\<not> purge_DryRun (examplePurgeManager ''api'')
      \<and> (\<forall>x \<in> set [''app'']. RmManagedImageError (purge_StagesStorage (examplePurgeManager ''api''))
              (purge_ProjectName (examplePurgeManager ''api'')) x = None)
      \<and> RmManagedImageError (purge_StagesStorage (examplePurgeManager ''api''))
              (purge_ProjectName (examplePurgeManager ''api'')) ''api'' = Some ''connection reset''"
    by (simp add: examplePurgeManager_def exampleStagesStorage_def)
  have n: "purge_ProjectName (examplePurgeManager ''api'') = ''project''"
    by (simp add: examplePurgeManager_def)
  have d: "deleteUnusedMetadata (exampleExternals [] []) exampleRefusingManager ''app'' [''c1'', ''c2''] =
     [RmImageCommit ''project'' ''app'' ''c1'',
      WarnLine ''WARNING: Metadata image deletion (image app, commit: c1) failed: connection reset'',
      RmImageCommit ''project'' ''app'' ''c2'',
      WarnLine ''WARNING: Metadata image deletion (image app, commit: c2) failed: connection reset'']"
    by (simp add: exampleRefusingManager_def exampleManager_def exampleStagesStorage_def exampleExternals_def)
  note t = batch_delete_failures [where pm = "examplePurgeManager ''api''" and ?done = "[''app'']"
      and failing = "''api''" and err = "''connection reset''" and remaining = "[''web'']"
      and m = exampleRefusingManager and ext = "exampleExternals [] []" and imageName = "''app''"
      and commitHashes = "[''c1'', ''c2'']" and ss = exampleStagesStorage and cands = "[]"]
  from t p have "purgeManagedImages (examplePurgeManager ''api'') ([''app''] @ ''api'' # [''web'']) =
         (concat (map (\<lambda>x. [RmManagedImage (purge_ProjectName (examplePurgeManager ''api'')) x,
                             LogLine (''  tag: '' @ (if x = [] then NamelessImageRecordTag else x))]) [''app''])
            @ [RmManagedImage (purge_ProjectName (examplePurgeManager ''api'')) ''api''],
          Inl (Error ''connection reset''))"
    by blast
  then have "purgeManagedImages (examplePurgeManager ''api'') ([''app''] @ ''api'' # [''web'']) =
     ([RmManagedImage ''project'' ''app'', LogLine ''  tag: app'', RmManagedImage ''project'' ''api''],
      Inl (Error ''connection reset''))"
    by (simp add: n del: purgeManagedImages.simps)
  from this d show ?thesis
    by (rule conjI)
qed

text \<open>
  The claim as it was stated fails in both places. In the purge of \<open>app\<close>, \<open>api\<close> and
  \<open>web\<close>, the refused deletion of \<open>app\<close> ends the run with the error, and \<open>api\<close> and \<open>web\<close>
  are never tried. In the cleanup, the refused deletion of the metadata of commit \<open>c1\<close> is
  logged, and the cleanup returns its result without an error.
\<close>

theorem batch_delete_failures_counterexample:
  "stagesPurge_run examplePurgeExternals (examplePurgeManager ''app'') =
     ([DeleteStage False [], RmManagedImage ''project'' ''app''], Inl (Error ''connection reset''))
   \<and> repoImagesGitHistoryBasedCleanup (exampleExternals [] []) exampleRefusingManager [(''app'', [])] =
     ([DeleteRepoImage False [], RmImageCommit ''project'' ''app'' ''c1'',
       WarnLine ''WARNING: Metadata image deletion (image app, commit: c1) failed: connection reset''],
      Inr [(''app'', [])])"
proof -
  have a: "stagesPurge_run examplePurgeExternals (examplePurgeManager ''app'') =
     ([DeleteStage False [], RmManagedImage ''project'' ''app''], Inl (Error ''connection reset''))"
    by (simp add: stagesPurge_run_def examplePurgeExternals_def examplePurgeManager_def
          exampleStagesStorage_def lift_def bind_Inr bind_Inl)
  have b: "repoImagesGitHistoryBasedCleanup (exampleExternals [] []) exampleRefusingManager [(''app'', [])] =
     ([DeleteRepoImage False [], RmImageCommit ''project'' ''app'' ''c1'',
       WarnLine ''WARNING: Metadata image deletion (image app, commit: c1) failed: connection reset''],
      Inr [(''app'', [])])"
    by (simp add: repoImagesGitHistoryBasedCleanup_def exampleRefusingManager_def exampleManager_def
          exampleGit_def exampleStagesStorage_def exampleExternals_def lift_def bind_Inr bind_Inl
          getImageContentSignatureRepoImageListToCleanup_def getImageCommitHashImageMetadata_def
          getImageContentSignatureExistingCommitHashes_def getOrNil_def appendTo_def
          getImageRepoImageListWithoutRelatedImageMetadata_def exceptRepoImageList_def
          historyCleanupOfImage_def contentSignatureCommitHashes_def Let_def emit_def return_def
          deleteRepoImageInImagesRepo_def getImageUnusedCommitHashes_def)
  from a b show ?thesis by simp
qed

subsection \<open>The images that the deleting calls are given\<close>

lemma deleted_bind_subset:
  assumes "set (deleted (fst a)) \<subseteq> S"
    and "\<And>x. snd a = Inr x \<Longrightarrow> set (deleted (fst (f x))) \<subseteq> S"
  shows "set (deleted (fst (bind a f))) \<subseteq> S"
  using assms by (auto simp: fst_bind deleted_append split: sum.splits)

lemma snd_bind_Inr:
  assumes "snd (bind a f) = Inr y"
  obtains x where "snd a = Inr x" "snd (f x) = Inr y"
  using assms by (auto simp: snd_bind split: sum.splits)

lemma deleted_lift [simp]: "deleted (fst (lift w r)) = []"
  by (simp add: lift_def split: sum.splits)

lemma deleted_return [simp]: "deleted (fst (return x)) = []"
  by (simp add: return_def)

lemma deleted_fail [simp]: "deleted (fst (fail e)) = []"
  by (simp add: fail_def)

lemma deleted_LogLines [simp]: "deleted (map (\<lambda>x. LogLine (f x)) xs) = []"
  by (induction xs) simp_all

lemma deleted_WarnLines [simp]: "deleted (map WarnLine xs) = []"
  by (induction xs) simp_all

lemma set_exceptRepoImageList: "set (exceptRepoImageList xs ys) = set xs - set ys"
  by (auto simp: exceptRepoImageList_def)

lemma deleteRepoImageInImagesRepo_deleted [simp]:
  "deleted (fst (deleteRepoImageInImagesRepo ext dry xs)) = xs"
  by (simp add: deleteRepoImageInImagesRepo_def)

lemma deleteAndExcept_deleted:
  "set (deleted (fst (deleteAndExcept ext dry repoImages xs))) \<subseteq> set xs"
  by (auto simp: deleteAndExcept_def fst_bind split: sum.splits)

lemma deleteAndExcept_result:
  "snd (deleteAndExcept ext dry repoImages xs) = Inr res \<Longrightarrow> set res \<subseteq> set repoImages"
  by (auto simp: deleteAndExcept_def snd_bind return_def set_exceptRepoImageList split: sum.splits if_splits)

lemma nonexistentGitPrimitives_subset:
  "nonexistentGitPrimitives ext git ts bs repoImages = Inr (a, b, c) \<Longrightarrow>
   set a \<subseteq> set repoImages \<and> set b \<subseteq> set repoImages \<and> set c \<subseteq> set repoImages"
proof (induction repoImages arbitrary: a b c)
  case Nil
  then show ?case by simp
next
  case (Cons x xs)
  show ?case
  proof (cases "nonexistentGitPrimitives ext git ts bs xs")
    case (Inl e)
    with Cons.prems show ?thesis
      by (auto simp: Let_def split: option.splits if_splits sum.splits)
  next
    case (Inr t)
    obtain a' b' c' where t: "t = (a', b', c')" by (cases t)
    from Cons.IH [OF Inr [unfolded t]] have
      "set a' \<subseteq> set xs" "set b' \<subseteq> set xs" "set c' \<subseteq> set xs" by simp_all
    with Cons.prems Inr t show ?thesis
      by (auto simp: Let_def split: option.splits if_splits sum.splits)
  qed
qed

lemma repoImagesCleanupByNonexistentGitPrimitive_subset:
  "set (deleted (fst (repoImagesCleanupByNonexistentGitPrimitive ext m repoImages))) \<subseteq> set repoImages
   \<and> (\<forall>res. snd (repoImagesCleanupByNonexistentGitPrimitive ext m repoImages) = Inr res
        \<longrightarrow> set res \<subseteq> set repoImages)"
proof -
  have step: "set (deleted (fst (bind ([], nonexistentGitPrimitives ext (LocalGit m) ts bs repoImages)
            (\<lambda>(a, b, c).
               bind (deleteAndExcept ext (DryRun m) repoImages a)
                 (\<lambda>r1. bind (deleteAndExcept ext (DryRun m) r1 b)
                    (\<lambda>r2. deleteAndExcept ext (DryRun m) r2 c)))))) \<subseteq> set repoImages
      \<and> (\<forall>res. snd (bind ([], nonexistentGitPrimitives ext (LocalGit m) ts bs repoImages)
            (\<lambda>(a, b, c).
               bind (deleteAndExcept ext (DryRun m) repoImages a)
                 (\<lambda>r1. bind (deleteAndExcept ext (DryRun m) r1 b)
                    (\<lambda>r2. deleteAndExcept ext (DryRun m) r2 c)))) = Inr res
            \<longrightarrow> set res \<subseteq> set repoImages)" for ts bs
  proof (cases "nonexistentGitPrimitives ext (LocalGit m) ts bs repoImages")
    case (Inl e)
    then show ?thesis by (simp add: bind_Inl)
  next
    case (Inr t)
    obtain a b c where t: "t = (a, b, c)" by (cases t)
    from nonexistentGitPrimitives_subset [OF Inr [unfolded t]]
    have sub: "set a \<subseteq> set repoImages" "set b \<subseteq> set repoImages" "set c \<subseteq> set repoImages"
      by simp_all
    have d: "set (deleted (fst (bind (deleteAndExcept ext (DryRun m) repoImages a)
                 (\<lambda>r1. bind (deleteAndExcept ext (DryRun m) r1 b)
                    (\<lambda>r2. deleteAndExcept ext (DryRun m) r2 c))))) \<subseteq> set repoImages"
      using sub deleteAndExcept_deleted [of ext "DryRun m" _ a]
        deleteAndExcept_deleted [of ext "DryRun m" _ b] deleteAndExcept_deleted [of ext "DryRun m" _ c]
      by (intro deleted_bind_subset) blast+
    have r: "set res \<subseteq> set repoImages"
      if "snd (bind (deleteAndExcept ext (DryRun m) repoImages a)
                 (\<lambda>r1. bind (deleteAndExcept ext (DryRun m) r1 b)
                    (\<lambda>r2. deleteAndExcept ext (DryRun m) r2 c))) = Inr res" for res
    proof -
      from that obtain r1 where 1: "snd (deleteAndExcept ext (DryRun m) repoImages a) = Inr r1"
        and "snd (bind (deleteAndExcept ext (DryRun m) r1 b)
                    (\<lambda>r2. deleteAndExcept ext (DryRun m) r2 c)) = Inr res"
        by (rule snd_bind_Inr)
      then obtain r2 where 2: "snd (deleteAndExcept ext (DryRun m) r1 b) = Inr r2"
        and 3: "snd (deleteAndExcept ext (DryRun m) r2 c) = Inr res"
        by (auto elim: snd_bind_Inr)
      from deleteAndExcept_result [OF 1] deleteAndExcept_result [OF 2] deleteAndExcept_result [OF 3]
      show ?thesis by blast
    qed
    show ?thesis
      using d r by (simp add: Inr t bind_Inr)
  qed
  show ?thesis
  proof (cases "LocalGit m")
    case None
    then show ?thesis
      using step [of "[]" "[]"]
      by (simp add: repoImagesCleanupByNonexistentGitPrimitive_def bind_return)
  next
    case (Some git)
    show ?thesis
    proof (cases "TagsList git")
      case (Inl e)
      with Some show ?thesis
        by (simp add: repoImagesCleanupByNonexistentGitPrimitive_def lift_def bind_Inl)
    next
      case ts: (Inr ts)
      show ?thesis
      proof (cases "RemoteBranchesList git")
        case (Inl e)
        with Some ts show ?thesis
          by (simp add: repoImagesCleanupByNonexistentGitPrimitive_def lift_def bind_Inl bind_Inr)
      next
        case (Inr bs)
        with Some ts show ?thesis
          using step [of ts bs]
          by (simp add: repoImagesCleanupByNonexistentGitPrimitive_def lift_def bind_Inr bind_return return_def)
      qed
    qed
  qed
qed

lemma deleteRepoImageInImagesRepoNil_deleted [simp]:
  "deleted (fst (deleteRepoImageInImagesRepoNil ext dry xs n)) = xs"
  by (simp add: deleteRepoImageInImagesRepoNil_def)

lemma repoImagesCleanupByPolicy_subset:
  assumes "sortSlice_sorts (sortSlice ext)" "set ws \<subseteq> S" "set repoImages \<subseteq> S"
  shows "set (deleted (fst (repoImagesCleanupByPolicy ext m repoImages ws options))) \<subseteq> S
   \<and> (\<forall>res. snd (repoImagesCleanupByPolicy ext m repoImages ws options) = Inr res \<longrightarrow> set res \<subseteq> S)"
proof -
  define old where "old = (\<lambda>repoImage. hasExpiryPeriod options \<and> GetCreatedAt repoImage <
      (if hasExpiryPeriod options then Now ext + wrap64 (- expiryPeriod options) else zeroTime))"
  define s where "s = sortSlice ext (\<lambda>i j. GetCreatedAt i < GetCreatedAt j) ws"
  define expired where "expired = filter old s"
  define notExpired where "notExpired = filter (\<lambda>i. \<not> old i) s"
  define high where "high = wrap64 (int (length notExpired) - limit options)"
  define rest where "rest = (\<lambda>r. if hasLimit options \<and> int (length notExpired) > limit options
      then if high < 0 \<or> int (max (length notExpired) (sliceCap ext (length notExpired))) < high
           then fail (Panic ''slice bounds out of range'')
           else if high \<le> int (length notExpired)
           then bind (deleteRepoImageInImagesRepo ext (DryRun m) (take (nat high) notExpired))
                  (\<lambda>_. return (exceptRepoImageList r (take (nat high) notExpired)))
           else bind (deleteRepoImageInImagesRepoNil ext (DryRun m) notExpired (nat high - length notExpired))
                  (\<lambda>_. return (exceptRepoImageList r notExpired))
      else return r)"
  have unf: "repoImagesCleanupByPolicy ext m repoImages ws options =
      bind (deleteAndExcept ext (DryRun m) repoImages expired) rest"
    unfolding repoImagesCleanupByPolicy_def Let_def rest_def high_def notExpired_def expired_def
      s_def old_def
    by (rule refl)
  have "set s = set ws"
    unfolding s_def using sortSlice_sorts_createdAt(1) [OF assms(1), of ws] by (metis set_mset_mset)
  then have s: "set s \<subseteq> S" using assms(2) by simp
  then have e: "set expired \<subseteq> S" and n: "set notExpired \<subseteq> S"
    by (auto simp: expired_def notExpired_def)
  from n have x: "set (take k notExpired) \<subseteq> S" for k
    by (auto dest!: in_set_takeD)
  have d: "set (deleted (fst (rest r))) \<subseteq> S" for r
    using x n by (auto simp: rest_def fst_bind split: sum.splits)
  have r: "set res \<subseteq> set r'" if "snd (rest r') = Inr res" for r' res
    using that
    by (auto simp: rest_def snd_bind return_def fail_def set_exceptRepoImageList split: if_splits sum.splits)
  have "set (deleted (fst (bind (deleteAndExcept ext (DryRun m) repoImages expired) rest))) \<subseteq> S"
    using deleteAndExcept_deleted [of ext "DryRun m" repoImages expired] e d
    by (intro deleted_bind_subset) blast+
  moreover have "set res \<subseteq> S"
    if "snd (bind (deleteAndExcept ext (DryRun m) repoImages expired) rest) = Inr res" for res
  proof -
    from that obtain r1 where 1: "snd (deleteAndExcept ext (DryRun m) repoImages expired) = Inr r1"
      and 2: "snd (rest r1) = Inr res"
      by (rule snd_bind_Inr)
    from deleteAndExcept_result [OF 1] r [OF 2] assms(3) show ?thesis by blast
  qed
  ultimately show ?thesis by (simp add: unf)
qed

lemma repoImagesCleanupByPolicies_subset:
  assumes srt: "sortSlice_sorts (sortSlice ext)"
  shows "set (deleted (fst (repoImagesCleanupByPolicies ext m repoImages))) \<subseteq> set repoImages
   \<and> (\<forall>res. snd (repoImagesCleanupByPolicies ext m repoImages) = Inr res \<longrightarrow> set res \<subseteq> set repoImages)"
proof -
  define S where "S = set repoImages"
  define p1 where "p1 = (\<lambda>r. repoImagesCleanupByPolicy ext m r (withScheme GitTag repoImages)
          \<lparr>hasLimit = GitTagStrategyHasLimit (Policies m), limit = GitTagStrategyLimit (Policies m),
           hasExpiryPeriod = GitTagStrategyHasExpiryPeriod (Policies m),
           expiryPeriod = GitTagStrategyExpiryPeriod (Policies m), schemeName = GitTag\<rparr>)"
  define p2 where "p2 = (\<lambda>r. repoImagesCleanupByPolicy ext m r (withScheme GitCommit repoImages)
          \<lparr>hasLimit = GitCommitStrategyHasLimit (Policies m), limit = GitCommitStrategyLimit (Policies m),
           hasExpiryPeriod = GitCommitStrategyHasExpiryPeriod (Policies m),
           expiryPeriod = GitCommitStrategyExpiryPeriod (Policies m), schemeName = GitCommit\<rparr>)"
  define p3 where "p3 = (\<lambda>r. repoImagesCleanupByPolicy ext m r (withScheme StagesSignature repoImages)
          \<lparr>hasLimit = StagesSignatureStrategyHasLimit (Policies m), limit = StagesSignatureStrategyLimit (Policies m),
           hasExpiryPeriod = StagesSignatureStrategyHasExpiryPeriod (Policies m),
           expiryPeriod = StagesSignatureStrategyExpiryPeriod (Policies m), schemeName = StagesSignature\<rparr>)"
  have unf: "repoImagesCleanupByPolicies ext m repoImages = bind (p1 repoImages) (\<lambda>r. bind (p2 r) p3)"
    by (simp add: repoImagesCleanupByPolicies_def Let_def p1_def p2_def p3_def)
  have w: "set (withScheme s repoImages) \<subseteq> S" for s
    by (auto simp: withScheme_def S_def)
  have d: "set (deleted (fst (repoImagesCleanupByPolicy ext m r (withScheme s repoImages) opts))) \<subseteq> S"
    if "set r \<subseteq> S" for r s opts
    using repoImagesCleanupByPolicy_subset [OF srt w that] by blast
  have r: "set res \<subseteq> S"
    if "set r \<subseteq> S" "snd (repoImagesCleanupByPolicy ext m r (withScheme s repoImages) opts) = Inr res"
    for r s opts res
    using repoImagesCleanupByPolicy_subset [OF srt w that(1)] that(2) by blast
  have s0: "set repoImages \<subseteq> S" by (simp add: S_def)
  have "set (deleted (fst (bind (p1 repoImages) (\<lambda>r. bind (p2 r) p3)))) \<subseteq> S"
  proof (rule deleted_bind_subset)
    show "set (deleted (fst (p1 repoImages))) \<subseteq> S" unfolding p1_def using s0 by (rule d)
  next
    fix r1 assume "snd (p1 repoImages) = Inr r1"
    with s0 have r1: "set r1 \<subseteq> S" unfolding p1_def by (rule r)
    show "set (deleted (fst (bind (p2 r1) p3))) \<subseteq> S"
    proof (rule deleted_bind_subset)
      show "set (deleted (fst (p2 r1))) \<subseteq> S" unfolding p2_def using r1 by (rule d)
    next
      fix r2 assume "snd (p2 r1) = Inr r2"
      with r1 have "set r2 \<subseteq> S" unfolding p2_def by (rule r)
      then show "set (deleted (fst (p3 r2))) \<subseteq> S" unfolding p3_def by (rule d)
    qed
  qed
  moreover have "set res \<subseteq> S" if "snd (bind (p1 repoImages) (\<lambda>r. bind (p2 r) p3)) = Inr res" for res
  proof -
    from that obtain r1 where 1: "snd (p1 repoImages) = Inr r1" and "snd (bind (p2 r1) p3) = Inr res"
      by (rule snd_bind_Inr)
    then obtain r2 where 2: "snd (p2 r1) = Inr r2" and 3: "snd (p3 r2) = Inr res"
      by (auto elim: snd_bind_Inr)
    from s0 1 have "set r1 \<subseteq> S" unfolding p1_def by (rule r)
    from this 2 have "set r2 \<subseteq> S" unfolding p2_def by (rule r)
    from this 3 show ?thesis unfolding p3_def by (rule r)
  qed
  ultimately show ?thesis by (simp add: unf S_def)
qed

lemma repoImagesCleanup_subset:
  assumes srt: "sortSlice_sorts (sortSlice ext)"
  shows "set (deleted (fst (repoImagesCleanup ext m cands))) \<subseteq> (\<Union>(n, l) \<in> set cands. set l)"
proof (induction cands)
  case Nil
  show ?case by simp
next
  case (Cons c cands)
  obtain n l where c: "c = (n, l)" by (cases c)
  have 1: "set (deleted (fst (repoImagesCleanupByNonexistentGitPrimitive ext m l))) \<subseteq> set l"
    and 2: "\<And>r. snd (repoImagesCleanupByNonexistentGitPrimitive ext m l) = Inr r \<Longrightarrow> set r \<subseteq> set l"
    using repoImagesCleanupByNonexistentGitPrimitive_subset [of ext m l] by blast+
  have 3: "set (deleted (fst (repoImagesCleanupByPolicies ext m r))) \<subseteq> set r" for r
    using repoImagesCleanupByPolicies_subset [OF srt, of m r] by blast
  show ?case
    unfolding c repoImagesCleanup.simps
    apply (intro deleted_bind_subset)
    using 1 apply auto[1]
    using 2 3 apply fastforce
    using Cons.IH apply auto[1]
    apply simp
    done
qed

lemma map_of_update_alist: "map_of (AList.update k v al) k' = (if k' = k then Some v else map_of al k')"
  by (simp add: update_conv')

lemma getOrNil_appendTo:
  "getOrNil (appendTo m k xs) k' = (if k' = k then getOrNil m k @ xs else getOrNil m k')"
  by (simp add: getOrNil_def appendTo_def map_of_update_alist)

lemma getOrNil_subset: "set (getOrNil m k) \<subseteq> (\<Union>(n, l) \<in> set m. set l)"
proof (cases "map_of m k")
  case None
  then show ?thesis by (simp add: getOrNil_def)
next
  case (Some v)
  then have "(k, v) \<in> set m" by (rule map_of_SomeD)
  then show ?thesis using Some by (auto simp: getOrNil_def)
qed

lemma images_update_subset:
  "(\<Union>(n, l) \<in> set (AList.update k v m). set l) \<subseteq> (\<Union>(n, l) \<in> set m. set l) \<union> set v"
  by (induction m) auto

lemma deleted_emit [simp]: "deleted (fst (emit es)) = deleted es"
  by (simp add: emit_def)

lemma snd_emit [simp]: "snd (emit es) = Inr ()"
  by (simp add: emit_def)

lemma processWithoutMetadata_images:
  "processWithoutMetadata v12 wm (res, tc) = (log, res', tc') \<Longrightarrow>
   (\<Union>(n, l) \<in> set tc'. set l) \<subseteq> (\<Union>(n, l) \<in> set tc. set l) \<and> deleted log = []"
proof (induction wm arbitrary: res tc log res' tc')
  case Nil
  then show ?case by simp
next
  case (Cons e wm)
  obtain n l where e: "e = (n, l)" by (cases e)
  show ?case
  proof (cases v12)
    case True
    with Cons e show ?thesis by simp
  next
    case False
    define tc1 where "tc1 = AList.update n (exceptRepoImageList (getOrNil tc n) l) tc"
    obtain log1 st1 where p: "processWithoutMetadata v12 wm (appendTo res n l, tc1) = (log1, st1)"
      by (cases "processWithoutMetadata v12 wm (appendTo res n l, tc1)")
    with Cons.prems e False have st: "st1 = (res', tc')" and lg: "deleted log = deleted log1"
      by (auto simp: tc1_def)
    from Cons.IH [OF p [unfolded st]]
    have "(\<Union>(n, l) \<in> set tc'. set l) \<subseteq> (\<Union>(n, l) \<in> set tc1. set l)" "deleted log1 = []"
      by simp_all
    moreover have "(\<Union>(n, l) \<in> set tc1. set l) \<subseteq> (\<Union>(n, l) \<in> set tc. set l)"
      using images_update_subset [of n "exceptRepoImageList (getOrNil tc n) l" tc] getOrNil_subset [of tc n]
      by (auto simp: tc1_def set_exceptRepoImageList)
    ultimately show ?thesis using lg by auto
  qed
qed

lemma historyCleanupOfImage_deleted:
  "set (deleted (fst (historyCleanupOfImage ext dry repo refs sigs existing l))) \<subseteq> set l"
  unfolding historyCleanupOfImage_def Let_def
  by (intro deleted_bind_subset)
     (auto simp: fst_bind set_exceptRepoImageList split: sum.splits option.splits)

lemma historyCleanupLoop_deleted:
  "set (deleted (fst (historyCleanupLoop ext dry repo refs sigLists existing tc res)))
     \<subseteq> (\<Union>(n, l) \<in> set tc. set l)"
proof (induction tc arbitrary: res)
  case Nil
  show ?case by simp
next
  case (Cons e tc)
  obtain n l where e: "e = (n, l)" by (cases e)
  show ?case
    unfolding e historyCleanupLoop.simps
  proof (rule deleted_bind_subset)
    show "set (deleted (fst (historyCleanupOfImage ext dry repo refs (getOrNil sigLists n) (getOrNil existing n) l)))
        \<subseteq> (\<Union>(n, l) \<in> set ((n, l) # tc). set l)"
      using historyCleanupOfImage_deleted [of ext dry repo refs "getOrNil sigLists n" "getOrNil existing n" l]
      by auto
  next
    fix kept
    show "set (deleted (fst (historyCleanupLoop ext dry repo refs sigLists existing tc
              (case kept of None \<Rightarrow> res | Some k \<Rightarrow> appendTo res n k))))
        \<subseteq> (\<Union>(n, l) \<in> set ((n, l) # tc). set l)"
      using Cons.IH [of "case kept of None \<Rightarrow> res | Some k \<Rightarrow> appendTo res n k"] by auto
  qed
qed

lemma deleted_deleteUnusedMetadata [simp]: "deleted (deleteUnusedMetadata ext m n cs) = []"
  by (induction cs) (auto split: option.splits)

lemma deleted_concat_Nil: "(\<And>x. x \<in> set xs \<Longrightarrow> deleted (f x) = []) \<Longrightarrow> deleted (concat (map f xs)) = []"
  by (induction xs) auto

lemma repoImagesGitHistoryBasedCleanup_deleted:
  "set (deleted (fst (repoImagesGitHistoryBasedCleanup ext m cands))) \<subseteq> (\<Union>(n, l) \<in> set cands. set l)"
proof (cases "LocalGit m")
  case None
  then show ?thesis by (simp add: repoImagesGitHistoryBasedCleanup_def)
next
  case (Some git)
  have tail: "set (deleted (fst (case processWithoutMetadata v12 wm ([], cands) of
            (log, res, tc) \<Rightarrow>
          bind (emit log)
            (\<lambda>_. bind (historyCleanupLoop ext dry repo refs sigLists existing tc res)
              (\<lambda>res. bind ([], getImageCommitHashImageMetadata m)
                (\<lambda>md. bind (emit (concat (map (\<lambda>(n, cs). deleteUnusedMetadata ext m n cs)
                                (getImageUnusedCommitHashes md res))))
                  (\<lambda>_. return res))))))) \<subseteq> (\<Union>(n, l) \<in> set cands. set l)"
    for v12 wm dry repo refs sigLists existing
  proof -
    obtain log res tc where p: "processWithoutMetadata v12 wm ([], cands) = (log, res, tc)"
      by (cases "processWithoutMetadata v12 wm ([], cands)") auto
    from processWithoutMetadata_images [OF p]
    have sub: "(\<Union>(n, l) \<in> set tc. set l) \<subseteq> (\<Union>(n, l) \<in> set cands. set l)" and lg: "deleted log = []"
      by simp_all
    have u: "deleted (concat (map (\<lambda>(n, cs). deleteUnusedMetadata ext m n cs) xs)) = []" for xs
      by (rule deleted_concat_Nil) auto
    show ?thesis
      unfolding p prod.case
      apply (intro deleted_bind_subset)
      using lg apply simp
      using historyCleanupLoop_deleted [of ext dry repo refs sigLists existing tc res] sub apply blast
      apply simp
      apply (simp add: u)
      apply simp
      done
  qed
  show ?thesis
    unfolding repoImagesGitHistoryBasedCleanup_def Some option.case
    apply (intro deleted_bind_subset)
    apply simp
    apply simp
    apply simp
    apply simp
    apply (rule tail)
    done
qed

subsection \<open>The images in use in Kubernetes\<close>

lemma exceptLoop_filter:
  "exceptLoop deployed l =
     (filter (\<lambda>i. dockerImageName i \<notin> set deployed) l, filter (\<lambda>i. dockerImageName i \<in> set deployed) l)"
  by (induction l) simp_all

lemma exceptByNames_result:
  "exceptByNames deployed rs = (log, cands, ex) \<Longrightarrow>
     cands = map (\<lambda>(n, l). (n, filter (\<lambda>i. dockerImageName i \<notin> set deployed) l)) rs
   \<and> ex = filter (\<lambda>(n, l). l \<noteq> []) (map (\<lambda>(n, l). (n, filter (\<lambda>i. dockerImageName i \<in> set deployed) l)) rs)
   \<and> deleted log = []"
proof (induction rs arbitrary: log cands ex)
  case Nil
  then show ?case by simp
next
  case (Cons e rs)
  obtain n l where e: "e = (n, l)" by (cases e)
  obtain log' cands' ex' where r: "exceptByNames deployed rs = (log', cands', ex')"
    by (cases "exceptByNames deployed rs") auto
  from Cons.IH [OF r] Cons.prems show ?case
    by (auto simp: e r exceptLoop_filter split: if_splits)
qed

lemma mergeExcepted_mono:
  "set (getOrNil res k) \<subseteq> set (getOrNil (foldl (\<lambda>result (imageName, repoImageList).
      appendTo result imageName repoImageList) res ex) k)"
proof (induction ex arbitrary: res)
  case Nil
  show ?case by simp
next
  case (Cons e ex)
  obtain n l where e: "e = (n, l)" by (cases e)
  have "set (getOrNil res k) \<subseteq> set (getOrNil (appendTo res n l) k)"
    by (simp add: getOrNil_appendTo)
  with Cons.IH [of "appendTo res n l"] show ?case by (auto simp: e)
qed

lemma mergeExcepted_contains:
  "(k, l) \<in> set ex \<Longrightarrow> set l \<subseteq> set (getOrNil (mergeExcepted res ex) k)"
  unfolding mergeExcepted_def
proof (induction ex arbitrary: res)
  case Nil
  then show ?case by simp
next
  case (Cons e ex)
  obtain n l' where e: "e = (n, l')" by (cases e)
  show ?case
  proof (cases "(k, l) = e")
    case True
    then have "set l \<subseteq> set (getOrNil (appendTo res n l') k)"
      by (simp add: e getOrNil_appendTo)
    with mergeExcepted_mono [of "appendTo res n l'" k ex] show ?thesis by (auto simp: e)
  next
    case False
    with Cons.prems have "(k, l) \<in> set ex" by simp
    from Cons.IH [OF this, of "appendTo res n l'"] show ?thesis by (simp add: e)
  qed
qed

lemma cleanup_of_candidates:
  assumes srt: "sortSlice_sorts (sortSlice ext)"
    and d: "x \<in> set (deleted (fst (if h then repoImagesGitHistoryBasedCleanup ext m cands
                                       else repoImagesCleanup ext m cands)))"
  shows "\<exists>n l. (n, l) \<in> set cands \<and> x \<in> set l"
proof -
  have "set (deleted (fst (if h then repoImagesGitHistoryBasedCleanup ext m cands
                                       else repoImagesCleanup ext m cands)))
      \<subseteq> (\<Union>(n, l) \<in> set cands. set l)"
    using repoImagesGitHistoryBasedCleanup_deleted [of ext m cands] repoImagesCleanup_subset [OF srt, of m cands]
    by simp
  with d show ?thesis by blast
qed

text \<open>
  C1. When the Kubernetes probe is enabled and answers, an image of the registry whose
  \<open>Repository:Tag\<close> is one of the deployed docker image names is given to no deleting call
  of the run, and a run that succeeds leaves it in the result list of its image name.
  \<open>sort.Slice\<close> is taken to sort, as its documentation says.
\<close>

theorem deployed_images_are_kept:
  assumes srt: "sortSlice_sorts (sortSlice ext)"
    and sel: "selectRepoImagesFromImagesRepo ext (ImageNameList m) = Inr repoImages"
    and kube: "\<not> WithoutKube m"
    and probe: "getDeployedDockerImagesNames (KubernetesContextsClients m) = Inr deployedDockerImagesNames"
    and name: "map_of repoImages imageName = Some repoImageList"
    and img: "repoImage \<in> set repoImageList"
    and dep: "dockerImageName repoImage \<in> set deployedDockerImagesNames"
  shows "repoImage \<notin> set (deleted (fst (run ext m)))
    \<and> (\<forall>m'. snd (run ext m) = Inr m' \<longrightarrow>
          (\<exists>resultRepoImages. imageRepoImageList m' = Some resultRepoImages
             \<and> repoImage \<in> set (getOrNil resultRepoImages imageName)))"
proof (cases "WithHostLockError ext (''images-cleanup.'' @ ImagesRepo_String m)")
  case (Some err)
  then show ?thesis by (simp add: run_def fail_def)
next
  case None
  show ?thesis
  proof (cases "initRepoImagesData ext m")
    case (Inl e)
    with None show ?thesis by (simp add: run_def bind_Inl)
  next
    case (Inr m1)
    from initRepoImagesData_fields [OF Inr] sel kube
    have f: "imageRepoImageList m1 = Some repoImages" "LocalGit m1 = LocalGit m" "\<not> WithoutKube m1"
      "KubernetesContextsClients m1 = KubernetesContextsClients m"
      by simp_all
    show ?thesis
    proof (cases "LocalGit m")
      case LNone: None
      with None Inr f name img show ?thesis
        by (simp add: run_def bind_Inr emit_def return_def getOrNil_def)
    next
      case (Some git)
      obtain log cands ex where x: "exceptByNames deployedDockerImagesNames repoImages = (log, cands, ex)"
        by (cases "exceptByNames deployedDockerImagesNames repoImages") auto
      from exceptByNames_result [OF x]
      have c: "cands = map (\<lambda>(n, l). (n, filter (\<lambda>i. dockerImageName i \<notin> set deployedDockerImagesNames) l)) repoImages"
        and e: "ex = filter (\<lambda>(n, l). l \<noteq> [])
                 (map (\<lambda>(n, l). (n, filter (\<lambda>i. dockerImageName i \<in> set deployedDockerImagesNames) l)) repoImages)"
        and lg: "deleted log = []"
        by simp_all
      define A where "A = (if GitHistoryBasedCleanup m1 \<or> GitHistoryBasedCleanupV12 m1
                           then repoImagesGitHistoryBasedCleanup ext m1 cands
                           else repoImagesCleanup ext m1 cands)"
      have w: "exceptRepoImagesByWhitelist repoImages (KubernetesContextsClients m) = (log, Inr (cands, ex))"
        by (simp add: exceptRepoImagesByWhitelist_def probe lift_def bind_Inr x)
      have r: "run ext m = bind (log, Inr (cands, ex))
          (\<lambda>(repoImagesToCleanup, exceptedRepoImages).
             bind (if GitHistoryBasedCleanup m1 \<or> GitHistoryBasedCleanupV12 m1
                   then repoImagesGitHistoryBasedCleanup ext m1 repoImagesToCleanup
                   else repoImagesCleanup ext m1 repoImagesToCleanup)
               (\<lambda>resultRepoImages.
                  return (m1\<lparr>imageRepoImageList := Some (mergeExcepted resultRepoImages exceptedRepoImages)\<rparr>)))"
        using None Inr f Some by (simp add: run_def bind_Inr w split del: if_split)
      have r2: "run ext m = (log @ fst (bind A (\<lambda>resultRepoImages.
                  return (m1\<lparr>imageRepoImageList := Some (mergeExcepted resultRepoImages ex)\<rparr>))),
             snd (bind A (\<lambda>resultRepoImages.
                  return (m1\<lparr>imageRepoImageList := Some (mergeExcepted resultRepoImages ex)\<rparr>))))"
        unfolding r bind_Inr A_def by (simp split del: if_split)
      have del: "deleted (fst (run ext m)) = deleted (fst A)"
        by (auto simp: r2 lg fst_bind return_def split: sum.splits)
      have nd: "repoImage \<notin> set (deleted (fst A))"
      proof
        assume "repoImage \<in> set (deleted (fst A))"
        from cleanup_of_candidates [OF srt this [unfolded A_def]]
        obtain n l where "(n, l) \<in> set cands" "repoImage \<in> set l" by blast
        with dep show False by (auto simp: c)
      qed
      have "(imageName, repoImageList) \<in> set repoImages"
        using name by (rule map_of_SomeD)
      moreover have "filter (\<lambda>i. dockerImageName i \<in> set deployedDockerImagesNames) repoImageList \<noteq> []"
        using img dep by (auto simp: filter_empty_conv)
      ultimately have "(imageName, filter (\<lambda>i. dockerImageName i \<in> set deployedDockerImagesNames) repoImageList) \<in> set ex"
        unfolding e by force
      from mergeExcepted_contains [OF this] img dep
      have keep: "repoImage \<in> set (getOrNil (mergeExcepted res ex) imageName)" for res
        by auto
      have res: "\<exists>resultRepoImages. imageRepoImageList m' = Some resultRepoImages
             \<and> repoImage \<in> set (getOrNil resultRepoImages imageName)"
        if "snd (run ext m) = Inr m'" for m'
        using that keep by (auto simp: r2 snd_bind return_def split: sum.splits)
      show ?thesis using nd del res by simp
    qed
  qed
qed

text \<open>A registry with the images \<open>live\<close> and \<open>v9\<close> of the strategy \<open>git-tag\<close>, neither of
  them a tag of the local git repository; a pod runs \<open>live\<close>. The run excepts \<open>live\<close>,
  deletes \<open>v9\<close>, whose git tag does not exist, and its result is \<open>live\<close>.\<close>

theorem deployed_images_are_kept_witness:
  "getDeployedDockerImagesNames (KubernetesContextsClients exampleManager) = Inr [''registry.example.com/app:live'']
   \<and> dockerImageName (exampleImage ''live'' GitTag ''s'' 10) = ''registry.example.com/app:live''
   \<and> fst (run (exampleExternals [exampleImage ''live'' GitTag ''s'' 10, exampleImage ''v9'' GitTag ''s'' 20] [])
             exampleManager)
       = [LogLine ''  tag: live'', DeleteRepoImage False [exampleImage ''v9'' GitTag ''s'' 20]]
   \<and> snd (run (exampleExternals [exampleImage ''live'' GitTag ''s'' 10, exampleImage ''v9'' GitTag ''s'' 20] [])
             exampleManager)
       = Inr (exampleManager\<lparr>imageRepoImageList := Some [(''app'', [exampleImage ''live'' GitTag ''s'' 10])]\<rparr>)"
proof -
  define ext :: "(unit, unit, unit) externals"
    where "ext = exampleExternals [exampleImage ''live'' GitTag ''s'' 10, exampleImage ''v9'' GitTag ''s'' 20] []"
  have s: "sortSlice_sorts (sortSlice ext)"
    by (simp add: ext_def exampleExternals_def sortSlice_sorts_insertionSort)
  have sel: "selectRepoImagesFromImagesRepo ext (ImageNameList exampleManager)
      = Inr [(''app'', [exampleImage ''live'' GitTag ''s'' 10, exampleImage ''v9'' GitTag ''s'' 20])]"
    by (simp add: ext_def exampleExternals_def)
  have kube: "\<not> WithoutKube exampleManager"
    by (simp add: exampleManager_def)
  have probe: "getDeployedDockerImagesNames (KubernetesContextsClients exampleManager)
      = Inr [''registry.example.com/app:live'']"
    by (simp add: exampleManager_def exampleKube_def deployedDockerImages_def appendImages_def Let_def
          getPodsImages_def getReplicationControllersImages_def getDeploymentsImages_def
          getStatefulSetsImages_def getDaemonSetsImages_def getReplicaSetsImages_def
          getCronJobsImages_def getJobsImages_def)
  have name: "map_of [(''app'', [exampleImage ''live'' GitTag ''s'' 10, exampleImage ''v9'' GitTag ''s'' 20])] ''app''
      = Some [exampleImage ''live'' GitTag ''s'' 10, exampleImage ''v9'' GitTag ''s'' 20]"
    by simp
  have img: "exampleImage ''live'' GitTag ''s'' 10
      \<in> set [exampleImage ''live'' GitTag ''s'' 10, exampleImage ''v9'' GitTag ''s'' 20]"
    by simp
  have dn: "dockerImageName (exampleImage ''live'' GitTag ''s'' 10) = ''registry.example.com/app:live''"
    by (simp add: dockerImageName_def exampleImage_def)
  then have dep: "dockerImageName (exampleImage ''live'' GitTag ''s'' 10) \<in> set [''registry.example.com/app:live'']"
    by simp
  have i: "initRepoImagesData ext exampleManager
      = Inr (exampleManager\<lparr>imageRepoImageList :=
               Some [(''app'', [exampleImage ''live'' GitTag ''s'' 10, exampleImage ''v9'' GitTag ''s'' 20])]\<rparr>)"
    by (simp add: initRepoImagesData_def sel) (simp add: exampleManager_def)
  define m1 where "m1 = exampleManager\<lparr>imageRepoImageList :=
               Some [(''app'', [exampleImage ''live'' GitTag ''s'' 10, exampleImage ''v9'' GitTag ''s'' 20])]\<rparr>"
  have x: "exceptRepoImagesByWhitelist
        [(''app'', [exampleImage ''live'' GitTag ''s'' 10, exampleImage ''v9'' GitTag ''s'' 20])]
        (KubernetesContextsClients exampleManager)
      = ([LogLine ''  tag: live''],
         Inr ([(''app'', [exampleImage ''v9'' GitTag ''s'' 20])], [(''app'', [exampleImage ''live'' GitTag ''s'' 10])]))"
    by (simp add: exceptRepoImagesByWhitelist_def probe lift_def bind_def dockerImageName_def exampleImage_def)
  have g: "repoImagesCleanupByNonexistentGitPrimitive ext m1 [exampleImage ''v9'' GitTag ''s'' 20]
      = ([DeleteRepoImage False [exampleImage ''v9'' GitTag ''s'' 20]], Inr [])"
    by (simp add: repoImagesCleanupByNonexistentGitPrimitive_def m1_def exampleManager_def exampleGit_def
          lift_def bind_def return_def Let_def label_def exampleImage_def repoImageMetaTagMatch_def
          WerfTagStrategyLabel_def WerfContentSignatureLabel_def WerfImageTagLabel_def GitTag_def
          deleteAndExcept_def deleteRepoImageInImagesRepo_def exceptRepoImageList_def
          ext_def exampleExternals_def)
  have p: "repoImagesCleanupByPolicies ext m1 [] = ([], Inr [])"
    by (simp add: repoImagesCleanupByPolicies_def repoImagesCleanupByPolicy_def withScheme_def Let_def
          deleteAndExcept_def bind_def return_def insertionSort_def ext_def exampleExternals_def
          m1_def exampleManager_def examplePolicies_def)
  have c: "repoImagesCleanup ext m1 [(''app'', [exampleImage ''v9'' GitTag ''s'' 20])]
      = ([DeleteRepoImage False [exampleImage ''v9'' GitTag ''s'' 20]], Inr [(''app'', [])])"
    by (simp add: g p bind_Inr return_def)
  have l: "WithHostLockError ext = (\<lambda>_. None)"
    by (simp add: ext_def exampleExternals_def)
  have f: "LocalGit exampleManager = Some exampleGit" "\<not> GitHistoryBasedCleanup exampleManager"
    "\<not> GitHistoryBasedCleanupV12 exampleManager"
    by (simp_all add: exampleManager_def)
  have r: "run ext exampleManager
      = ([LogLine ''  tag: live'', DeleteRepoImage False [exampleImage ''v9'' GitTag ''s'' 20]],
         Inr (exampleManager\<lparr>imageRepoImageList := Some [(''app'', [exampleImage ''live'' GitTag ''s'' 10])]\<rparr>))"
    by (simp add: run_def l i bind_Inr f kube x c [unfolded m1_def] return_def mergeExcepted_def
          appendTo_def getOrNil_def del: repoImagesCleanup.simps)
  from deployed_images_are_kept [OF s sel kube probe name img dep] probe dn r
  show ?thesis
    unfolding ext_def by simp
qed

subsection \<open>The images without related image metadata\<close>

lemma bind_success:
  assumes "snd (bind a f) = Inr y"
  obtains x where "snd a = Inr x" "snd (f x) = Inr y" "fst (bind a f) = fst a @ fst (f x)"
  using assms by (auto simp: snd_bind fst_bind split: sum.splits)

lemma set_update_subset: "set (AList.update k v al) \<subseteq> insert (k, v) (set al)"
  by (induction al) auto

lemma groupBySignature_entries:
  "(sig, g) \<in> set (groupBySignature l md acc) \<Longrightarrow>
     (sig, g) \<in> set acc
   \<or> (sig \<in> (\<lambda>(c, d). ContentSignature d) ` set md
      \<and> g = filter (\<lambda>i. labelOrEmpty i WerfContentSignatureLabel = sig) l)"
proof (induction md arbitrary: acc)
  case Nil
  then show ?case by simp
next
  case (Cons e md)
  obtain c d where e: "e = (c, d)" by (cases e)
  show ?case
  proof (cases "map_of acc (ContentSignature d) \<noteq> None")
    case True
    with Cons.prems e have "(sig, g) \<in> set (groupBySignature l md acc)" by simp
    from Cons.IH [OF this] show ?thesis by (auto simp: e)
  next
    case False
    define acc' where "acc' = AList.update (ContentSignature d)
        (filter (\<lambda>i. labelOrEmpty i WerfContentSignatureLabel = ContentSignature d) l) acc"
    from False Cons.prems e have "(sig, g) \<in> set (groupBySignature l md acc')"
      by (simp add: acc'_def)
    from Cons.IH [OF this] have "(sig, g) \<in> set acc'
        \<or> (sig \<in> (\<lambda>(c, d). ContentSignature d) ` set md
           \<and> g = filter (\<lambda>i. labelOrEmpty i WerfContentSignatureLabel = sig) l)" .
    moreover have "set acc' \<subseteq> insert (ContentSignature d,
        filter (\<lambda>i. labelOrEmpty i WerfContentSignatureLabel = ContentSignature d) l) (set acc)"
      unfolding acc'_def by (rule set_update_subset)
    ultimately show ?thesis by (auto simp: e)
  qed
qed

lemma no_metadata_not_grouped:
  assumes "\<forall>(c, d) \<in> set md. ContentSignature d \<noteq> labelOrEmpty x WerfContentSignatureLabel"
    and "(sig, g) \<in> set (groupBySignature l md [])"
  shows "x \<notin> set g"
  using groupBySignature_entries [OF assms(2)] assms(1) by auto

lemma set_foldl_exceptRepoImageList:
  "set (foldl exceptRepoImageList l gs) = set l - (\<Union>g \<in> set gs. set g)"
  by (induction gs arbitrary: l) (auto simp: set_exceptRepoImageList)

lemma map_of_map_values:
  "map_of (map (\<lambda>(n, l). (n, F n l)) al) k = map_option (F k) (map_of al k)"
  by (induction al) auto

lemma getOrNil_update:
  "getOrNil (AList.update k v al) k' = (if k' = k then v else getOrNil al k')"
  by (simp add: getOrNil_def map_of_update_alist)

lemma processWithoutMetadata_keep:
  "processWithoutMetadata False wm (res, tc) = (log, res', tc') \<Longrightarrow>
     set (getOrNil res k) \<subseteq> set (getOrNil res' k)
   \<and> set (getOrNil tc' k) \<subseteq> set (getOrNil tc k)
   \<and> (distinct (map fst tc) \<longrightarrow> distinct (map fst tc'))
   \<and> (\<forall>wl. (k, wl) \<in> set wm \<longrightarrow>
         set wl \<subseteq> set (getOrNil res' k) \<and> set (getOrNil tc' k) \<inter> set wl = {}
         \<and> (wl \<noteq> [] \<longrightarrow> set (map WarnLine warnNoMetadata) \<subseteq> set log))"
proof (induction wm arbitrary: res tc log)
  case Nil
  then show ?case by simp
next
  case (Cons e wm)
  obtain n l where e: "e = (n, l)" by (cases e)
  define res1 where "res1 = appendTo res n l"
  define tc1 where "tc1 = AList.update n (exceptRepoImageList (getOrNil tc n) l) tc"
  obtain log1 where p: "processWithoutMetadata False wm (res1, tc1) = (log1, res', tc')"
    and lg: "log = (if l \<noteq> [] then map WarnLine warnNoMetadata else [])
                   @ map (\<lambda>repoImage. LogLine (''  tag: '' @ Tag repoImage)) l @ log1"
    using Cons.prems unfolding e res1_def tc1_def
    by (auto split: prod.splits)
  note ih = Cons.IH [OF p]
  have r1: "set (getOrNil res k) \<subseteq> set (getOrNil res1 k)"
    by (simp add: res1_def getOrNil_appendTo)
  have t1: "set (getOrNil tc1 k) \<subseteq> set (getOrNil tc k)"
    by (auto simp: tc1_def getOrNil_update set_exceptRepoImageList)
  have d1: "distinct (map fst tc) \<Longrightarrow> distinct (map fst tc1)"
    unfolding tc1_def by (rule distinct_update)
  have a: "set (getOrNil res k) \<subseteq> set (getOrNil res' k)" using ih r1 by blast
  have b: "set (getOrNil tc' k) \<subseteq> set (getOrNil tc k)" using ih t1 by blast
  have c: "distinct (map fst tc) \<longrightarrow> distinct (map fst tc')" using ih d1 by blast
  have d: "set wl \<subseteq> set (getOrNil res' k) \<and> set (getOrNil tc' k) \<inter> set wl = {}
         \<and> (wl \<noteq> [] \<longrightarrow> set (map WarnLine warnNoMetadata) \<subseteq> set log)"
    if "(k, wl) \<in> set (e # wm)" for wl
  proof (cases "(k, wl) = e")
    case True
    then have kn: "k = n" "wl = l" by (simp_all add: e)
    have "set l \<subseteq> set (getOrNil res1 n)" by (simp add: res1_def getOrNil_appendTo)
    moreover have "set (getOrNil res1 n) \<subseteq> set (getOrNil res' n)" using ih kn by blast
    moreover have "set (getOrNil tc1 n) \<inter> set l = {}"
      by (auto simp: tc1_def getOrNil_update set_exceptRepoImageList)
    moreover have "set (getOrNil tc' n) \<subseteq> set (getOrNil tc1 n)" using ih kn by blast
    ultimately show ?thesis using kn lg by auto
  next
    case False
    with that have "(k, wl) \<in> set wm" by simp
    with ih have i: "set wl \<subseteq> set (getOrNil res' k)" "set (getOrNil tc' k) \<inter> set wl = {}"
      "wl \<noteq> [] \<longrightarrow> set (map WarnLine warnNoMetadata) \<subseteq> set log1"
      by blast+
    have "set log1 \<subseteq> set log" by (auto simp: lg)
    with i show ?thesis by blast
  qed
  show ?case using a b c d by blast
qed

lemma imagesToKeep_subset:
  "imagesToKeep sigs reached = Inr keep \<Longrightarrow> set keep \<subseteq> (\<Union>(sig, g) \<in> set sigs. set g)"
proof (induction reached arbitrary: keep)
  case Nil
  then show ?case by simp
next
  case (Cons s reached)
  from Cons.prems obtain g keep' where g: "map_of sigs s = Some g"
    and k: "imagesToKeep sigs reached = Inr keep'" and keep: "keep = g @ keep'"
    by (auto split: option.splits sum.splits)
  from g have "(s, g) \<in> set sigs" by (rule map_of_SomeD)
  with Cons.IH [OF k] keep show ?case by auto
qed

lemma historyCleanupOfImage_success:
  assumes "snd (historyCleanupOfImage ext dry repo refs sigs existing l) = Inr kept"
  shows "set (case kept of None \<Rightarrow> [] | Some k \<Rightarrow> k) \<subseteq> (\<Union>(sig, g) \<in> set sigs. set g)"
    and "deleted (fst (historyCleanupOfImage ext dry repo refs sigs existing l))
         = (case kept of None \<Rightarrow> l | Some k \<Rightarrow> exceptRepoImageList l k)"
proof -
  define scan where "scan = (if contentSignatureCommitHashes sigs existing \<noteq> []
            then bind (lift [] (scanReferencesHistory ext repo refs (contentSignatureCommitHashes sigs existing)))
                   (\<lambda>reachedContentSignatureList.
                      bind ([], imagesToKeep sigs reachedContentSignatureList)
                        (\<lambda>repoImageListToKeep. return (Some repoImageListToKeep)))
            else bind (emit [LogLine ''Scanning stopped due to nothing to seek''])
                   (\<lambda>_. return None))"
  define rest where "rest = (\<lambda>kept.
           bind (emit (map (\<lambda>repoImage. LogLine (''  tag: '' @ Tag repoImage))
                   (case kept of None \<Rightarrow> [] | Some k \<Rightarrow> k)))
                (\<lambda>_. bind (deleteRepoImageInImagesRepo ext dry
                         (case kept of None \<Rightarrow> l | Some k \<Rightarrow> exceptRepoImageList l k))
                   (\<lambda>_. return kept)))"
  have unf: "historyCleanupOfImage ext dry repo refs sigs existing l = bind scan rest"
    by (simp add: historyCleanupOfImage_def Let_def scan_def rest_def)
  from assms obtain kept0 where s: "snd scan = Inr kept0" and r: "snd (rest kept0) = Inr kept"
    and f: "fst (bind scan rest) = fst scan @ fst (rest kept0)"
    unfolding unf by (rule bind_success)
  have k0: "kept0 = kept"
    using r by (auto simp: rest_def snd_bind return_def split: sum.splits)
  have ds: "deleted (fst scan) = []"
    by (auto simp: scan_def fst_bind lift_def return_def emit_def split: sum.splits)
  have dr: "deleted (fst (rest kept)) = (case kept of None \<Rightarrow> l | Some k \<Rightarrow> exceptRepoImageList l k)"
    using r [unfolded k0]
    by (auto simp: rest_def fst_bind snd_bind return_def emit_def deleteRepoImageInImagesRepo_def
          split: sum.splits option.splits)
  show "deleted (fst (historyCleanupOfImage ext dry repo refs sigs existing l))
         = (case kept of None \<Rightarrow> l | Some k \<Rightarrow> exceptRepoImageList l k)"
    by (simp add: unf f k0 ds dr)
  show "set (case kept of None \<Rightarrow> [] | Some k \<Rightarrow> k) \<subseteq> (\<Union>(sig, g) \<in> set sigs. set g)"
  proof (cases kept)
    case None
    then show ?thesis by simp
  next
    case (Some k)
    with s k0 have "\<exists>reached. imagesToKeep sigs reached = Inr k"
      by (auto simp: scan_def snd_bind lift_def return_def emit_def bind_def
            split: sum.splits if_splits prod.splits)
    with imagesToKeep_subset Some show ?thesis by fastforce
  qed
qed

lemma historyCleanupLoop_success:
  "snd (historyCleanupLoop ext dry repo refs sigLists existing tc res) = Inr r \<Longrightarrow>
     set (getOrNil res k) \<subseteq> set (getOrNil r k)
   \<and> set (getOrNil r k) \<subseteq> set (getOrNil res k) \<union> (\<Union>(sig, g) \<in> set (getOrNil sigLists k). set g)
   \<and> (\<forall>n l. (n, l) \<in> set tc \<longrightarrow>
         set l - (\<Union>(sig, g) \<in> set (getOrNil sigLists n). set g)
           \<subseteq> set (deleted (fst (historyCleanupLoop ext dry repo refs sigLists existing tc res))))"
proof (induction tc arbitrary: res)
  case Nil
  then show ?case by (simp add: return_def)
next
  case (Cons e tc)
  obtain n l where e: "e = (n, l)" by (cases e)
  define one where "one = historyCleanupOfImage ext dry repo refs (getOrNil sigLists n) (getOrNil existing n) l"
  define next_res where "next_res = (\<lambda>kept. case kept of None \<Rightarrow> res | Some k \<Rightarrow> appendTo res n k)"
  have unf: "historyCleanupLoop ext dry repo refs sigLists existing (e # tc) res =
      bind one (\<lambda>kept. historyCleanupLoop ext dry repo refs sigLists existing tc (next_res kept))"
    by (simp add: e one_def next_res_def)
  from Cons.prems obtain kept where o: "snd one = Inr kept"
    and t: "snd (historyCleanupLoop ext dry repo refs sigLists existing tc (next_res kept)) = Inr r"
    and f: "fst (historyCleanupLoop ext dry repo refs sigLists existing (e # tc) res) =
        fst one @ fst (historyCleanupLoop ext dry repo refs sigLists existing tc (next_res kept))"
    unfolding unf by (rule bind_success)
  note ih = Cons.IH [OF t]
  from historyCleanupOfImage_success [OF o [unfolded one_def]]
  have ks: "set (case kept of None \<Rightarrow> [] | Some k \<Rightarrow> k) \<subseteq> (\<Union>(sig, g) \<in> set (getOrNil sigLists n). set g)"
    and dl: "deleted (fst one) = (case kept of None \<Rightarrow> l | Some k \<Rightarrow> exceptRepoImageList l k)"
    by (simp_all add: one_def)
  have n1: "set (getOrNil res k) \<subseteq> set (getOrNil (next_res kept) k)"
    by (cases kept) (auto simp: next_res_def getOrNil_appendTo)
  have n2: "set (getOrNil (next_res kept) k)
      \<subseteq> set (getOrNil res k) \<union> (\<Union>(sig, g) \<in> set (getOrNil sigLists k). set g)"
    using ks by (cases kept) (auto simp: next_res_def getOrNil_appendTo)
  have a: "set (getOrNil res k) \<subseteq> set (getOrNil r k)" using ih n1 by blast
  have b: "set (getOrNil r k) \<subseteq> set (getOrNil res k) \<union> (\<Union>(sig, g) \<in> set (getOrNil sigLists k). set g)"
    using ih n2 by blast
  have here: "set l - (\<Union>(sig, g) \<in> set (getOrNil sigLists n). set g) \<subseteq> set (deleted (fst one))"
    using ks by (cases kept) (auto simp: dl set_exceptRepoImageList)
  have c: "set l' - (\<Union>(sig, g) \<in> set (getOrNil sigLists n'). set g)
           \<subseteq> set (deleted (fst (historyCleanupLoop ext dry repo refs sigLists existing (e # tc) res)))"
    if "(n', l') \<in> set (e # tc)" for n' l'
  proof (cases "(n', l') = e")
    case True
    then have "n' = n" "l' = l" by (simp_all add: e)
    with here show ?thesis unfolding f by auto
  next
    case False
    with that have "(n', l') \<in> set tc" by simp
    with ih have "set l' - (\<Union>(sig, g) \<in> set (getOrNil sigLists n'). set g)
        \<subseteq> set (deleted (fst (historyCleanupLoop ext dry repo refs sigLists existing tc (next_res kept))))"
      by blast
    then show ?thesis unfolding f by auto
  qed
  show ?case using a b c by blast
qed

lemma processWithoutMetadata_v12: "processWithoutMetadata True wm st = ([], st)"
proof (induction wm)
  case Nil
  show ?case by (cases st) simp
next
  case (Cons e wm)
  then show ?case by (cases e; cases st) simp
qed

lemma repoImagesGitHistoryBasedCleanup_success:
  assumes ok: "snd (repoImagesGitHistoryBasedCleanup ext m cands) = Inr r"
    and md: "imageCommitHashImageMetadata m = Some metadataByImage"
  obtains repo refs existing log res tc metadataEffects where
    "processWithoutMetadata (GitHistoryBasedCleanupV12 m)
       (getImageRepoImageListWithoutRelatedImageMetadata cands
          (map (\<lambda>(n, l). (n, groupBySignature l (getOrNil metadataByImage n) [])) cands))
       ([], cands) = (log, res, tc)"
    "snd (historyCleanupLoop ext (DryRun m) repo refs
            (map (\<lambda>(n, l). (n, groupBySignature l (getOrNil metadataByImage n) [])) cands)
            existing tc res) = Inr r"
    "fst (repoImagesGitHistoryBasedCleanup ext m cands) =
       log @ fst (historyCleanupLoop ext (DryRun m) repo refs
            (map (\<lambda>(n, l). (n, groupBySignature l (getOrNil metadataByImage n) [])) cands)
            existing tc res) @ metadataEffects"
    "deleted metadataEffects = []"
proof -
  define sigLists where "sigLists = map (\<lambda>(n, l). (n, groupBySignature l (getOrNil metadataByImage n) [])) cands"
  obtain git where git: "LocalGit m = Some git"
    using ok by (cases "LocalGit m") (auto simp: repoImagesGitHistoryBasedCleanup_def fail_def)
  have sl: "getImageContentSignatureRepoImageListToCleanup m cands = Inr sigLists"
    by (simp add: getImageContentSignatureRepoImageListToCleanup_def getImageCommitHashImageMetadata_def
          md sigLists_def)
  have gm: "getImageCommitHashImageMetadata m = Inr metadataByImage"
    by (simp add: getImageCommitHashImageMetadata_def md)
  define tail where "tail = (\<lambda>repo refs existing.
          case processWithoutMetadata (GitHistoryBasedCleanupV12 m)
                 (getImageRepoImageListWithoutRelatedImageMetadata cands sigLists)
                 ([], cands) of
            (log, resultRepoImages, repoImagesToCleanup) \<Rightarrow>
          bind (emit log)
            (\<lambda>_.
          bind (historyCleanupLoop ext (DryRun m) repo refs sigLists existing
                  repoImagesToCleanup resultRepoImages)
            (\<lambda>resultRepoImages.
          bind ([], getImageCommitHashImageMetadata m)
            (\<lambda>metadataByImage.
          bind (emit (concat (map (\<lambda>(imageName, commitHashes). deleteUnusedMetadata ext m imageName commitHashes)
                                (getImageUnusedCommitHashes metadataByImage resultRepoImages))))
            (\<lambda>_. return resultRepoImages)))))"
  have unf: "repoImagesGitHistoryBasedCleanup ext m cands =
      bind (lift ''git plain open failed: '' (PlainOpen git))
        (\<lambda>repo. bind (lift [] (getReferencesToScan ext repo (KeepPolicies m)))
           (\<lambda>refs. bind ([], getImageContentSignatureExistingCommitHashes m git)
              (\<lambda>existing. tail repo refs existing)))"
    by (simp add: repoImagesGitHistoryBasedCleanup_def git sl bind_Inr tail_def)
  from ok [unfolded unf] obtain repo where
      1: "snd (bind (lift [] (getReferencesToScan ext repo (KeepPolicies m)))
           (\<lambda>refs. bind ([], getImageContentSignatureExistingCommitHashes m git)
              (\<lambda>existing. tail repo refs existing))) = Inr r"
    and f1: "fst (repoImagesGitHistoryBasedCleanup ext m cands) =
        fst (lift ''git plain open failed: '' (PlainOpen git)) @
        fst (bind (lift [] (getReferencesToScan ext repo (KeepPolicies m)))
           (\<lambda>refs. bind ([], getImageContentSignatureExistingCommitHashes m git)
              (\<lambda>existing. tail repo refs existing)))"
    unfolding unf by (rule bind_success)
  from 1 obtain refs where
      2: "snd (bind ([], getImageContentSignatureExistingCommitHashes m git)
              (\<lambda>existing. tail repo refs existing)) = Inr r"
    and f2: "fst (bind (lift [] (getReferencesToScan ext repo (KeepPolicies m)))
           (\<lambda>refs. bind ([], getImageContentSignatureExistingCommitHashes m git)
              (\<lambda>existing. tail repo refs existing))) =
        fst (lift [] (getReferencesToScan ext repo (KeepPolicies m))) @
        fst (bind ([], getImageContentSignatureExistingCommitHashes m git)
              (\<lambda>existing. tail repo refs existing))"
    by (rule bind_success)
  from 2 obtain existing where
      3: "snd (tail repo refs existing) = Inr r"
    and f3: "fst (bind ([], getImageContentSignatureExistingCommitHashes m git)
              (\<lambda>existing. tail repo refs existing)) = fst (tail repo refs existing)"
    by (rule bind_success) simp
  have l0: "fst (lift w x) = []" for w :: string and x :: "error + 'z"
    by (simp add: lift_def split: sum.splits)
  have f: "fst (repoImagesGitHistoryBasedCleanup ext m cands) = fst (tail repo refs existing)"
    by (simp add: f1 f2 f3 l0)
  obtain log res tc where p: "processWithoutMetadata (GitHistoryBasedCleanupV12 m)
                 (getImageRepoImageListWithoutRelatedImageMetadata cands sigLists)
                 ([], cands) = (log, res, tc)"
    by (cases "processWithoutMetadata (GitHistoryBasedCleanupV12 m)
                 (getImageRepoImageListWithoutRelatedImageMetadata cands sigLists) ([], cands)") auto
  define loop where "loop = historyCleanupLoop ext (DryRun m) repo refs sigLists existing tc res"
  define meta where "meta = (\<lambda>res'. concat (map (\<lambda>(imageName, commitHashes). deleteUnusedMetadata ext m imageName commitHashes)
                                (getImageUnusedCommitHashes metadataByImage res')))"
  have t: "tail repo refs existing =
      bind (emit log) (\<lambda>_. bind loop (\<lambda>res'. bind (emit (meta res')) (\<lambda>_. return res')))"
    by (simp add: tail_def p loop_def meta_def gm bind_Inr)
  have t2: "tail repo refs existing =
      (log @ fst (bind loop (\<lambda>res'. bind (emit (meta res')) (\<lambda>_. return res'))),
       snd (bind loop (\<lambda>res'. bind (emit (meta res')) (\<lambda>_. return res'))))"
    by (simp add: t emit_def bind_Inr)
  from 3 have "snd (bind loop (\<lambda>res'. bind (emit (meta res')) (\<lambda>_. return res'))) = Inr r"
    by (simp add: t2)
  then obtain r' where lr: "snd loop = Inr r'"
    and 4: "snd (bind (emit (meta r')) (\<lambda>_. return r')) = Inr r"
    and f4: "fst (bind loop (\<lambda>res'. bind (emit (meta res')) (\<lambda>_. return res'))) =
        fst loop @ fst (bind (emit (meta r')) (\<lambda>_. return r'))"
    by (rule bind_success)
  from 4 have rr: "r' = r" by (simp add: emit_def bind_Inr return_def)
  have f5: "fst (bind (emit (meta r)) (\<lambda>_. return r)) = meta r"
    by (simp add: emit_def bind_Inr return_def)
  have dm: "deleted (meta r) = []"
    unfolding meta_def by (rule deleted_concat_Nil) auto
  show thesis
  proof (rule that)
    show "processWithoutMetadata (GitHistoryBasedCleanupV12 m)
       (getImageRepoImageListWithoutRelatedImageMetadata cands
          (map (\<lambda>(n, l). (n, groupBySignature l (getOrNil metadataByImage n) [])) cands))
       ([], cands) = (log, res, tc)"
      using p by (simp add: sigLists_def)
    show "snd (historyCleanupLoop ext (DryRun m) repo refs
            (map (\<lambda>(n, l). (n, groupBySignature l (getOrNil metadataByImage n) [])) cands)
            existing tc res) = Inr r"
      using lr rr by (simp add: loop_def sigLists_def)
    show "fst (repoImagesGitHistoryBasedCleanup ext m cands) =
       log @ fst (historyCleanupLoop ext (DryRun m) repo refs
            (map (\<lambda>(n, l). (n, groupBySignature l (getOrNil metadataByImage n) [])) cands)
            existing tc res) @ meta r"
      using f t2 f4 rr f5 by (simp add: loop_def sigLists_def)
    show "deleted (meta r) = []" by (rule dm)
  qed
qed

text \<open>
  C4. In the git-history-based cleanup that succeeds, take an image of the candidates of
  one image name whose content-signature label is the content signature of no stored
  metadata of that image name. With the v1.2 flag it is given to the deleting call and is
  not in the result. Without the flag it is in the result of its image name, the warnings
  are logged, and it is given to no deleting call. The candidates are a Go map, with each
  key once, and the image is an image of that image name only.
\<close>

theorem images_without_related_metadata:
  assumes keys: "distinct (map fst repoImagesToCleanup)"
    and md: "imageCommitHashImageMetadata m = Some metadataByImage"
    and name: "map_of repoImagesToCleanup imageName = Some repoImageList"
    and img: "repoImage \<in> set repoImageList"
    and only: "\<forall>(otherName, otherList) \<in> set repoImagesToCleanup.
                 repoImage \<in> set otherList \<longrightarrow> otherName = imageName"
    and nometa: "\<forall>(commitHash, imageMetadata) \<in> set (getOrNil metadataByImage imageName).
                 ContentSignature imageMetadata \<noteq> labelOrEmpty repoImage WerfContentSignatureLabel"
    and ok: "snd (repoImagesGitHistoryBasedCleanup ext m repoImagesToCleanup) = Inr resultRepoImages"
  shows "if GitHistoryBasedCleanupV12 m
         then repoImage \<in> set (deleted (fst (repoImagesGitHistoryBasedCleanup ext m repoImagesToCleanup)))
            \<and> repoImage \<notin> set (getOrNil resultRepoImages imageName)
         else repoImage \<in> set (getOrNil resultRepoImages imageName)
            \<and> set (map WarnLine warnNoMetadata)
                \<subseteq> set (fst (repoImagesGitHistoryBasedCleanup ext m repoImagesToCleanup))
            \<and> repoImage \<notin> set (deleted (fst (repoImagesGitHistoryBasedCleanup ext m repoImagesToCleanup)))"
proof -
  define sigLists where
    "sigLists = map (\<lambda>(n, l). (n, groupBySignature l (getOrNil metadataByImage n) [])) repoImagesToCleanup"
  define wm where "wm = getImageRepoImageListWithoutRelatedImageMetadata repoImagesToCleanup sigLists"
  obtain repo refs existing log res tc metadataEffects where
    p: "processWithoutMetadata (GitHistoryBasedCleanupV12 m) wm ([], repoImagesToCleanup) = (log, res, tc)"
    and lr: "snd (historyCleanupLoop ext (DryRun m) repo refs sigLists existing tc res) = Inr resultRepoImages"
    and f: "fst (repoImagesGitHistoryBasedCleanup ext m repoImagesToCleanup) =
       log @ fst (historyCleanupLoop ext (DryRun m) repo refs sigLists existing tc res) @ metadataEffects"
    and dm: "deleted metadataEffects = []"
    unfolding wm_def sigLists_def by (rule repoImagesGitHistoryBasedCleanup_success [OF ok md])
  have entry: "(imageName, repoImageList) \<in> set repoImagesToCleanup"
    using name by (rule map_of_SomeD)
  have sg: "getOrNil sigLists imageName = groupBySignature repoImageList (getOrNil metadataByImage imageName) []"
    by (simp add: getOrNil_def sigLists_def map_of_map_values name)
  have ng: "repoImage \<notin> (\<Union>(sig, g) \<in> set (getOrNil sigLists imageName). set g)"
  proof
    assume "repoImage \<in> (\<Union>(sig, g) \<in> set (getOrNil sigLists imageName). set g)"
    then obtain sig g where "(sig, g) \<in> set (getOrNil sigLists imageName)" "repoImage \<in> set g"
      by auto
    with no_metadata_not_grouped [OF nometa, of sig g repoImageList] show False
      by (simp add: sg)
  qed
  show ?thesis
  proof (cases "GitHistoryBasedCleanupV12 m")
    case True
    from p True have st: "log = []" "res = []" "tc = repoImagesToCleanup"
      by (simp_all add: processWithoutMetadata_v12)
    have et: "(imageName, repoImageList) \<in> set tc"
      using entry by (simp add: st)
    note hs = historyCleanupLoop_success [OF lr, of imageName]
    from hs have b: "set (getOrNil resultRepoImages imageName)
          \<subseteq> set (getOrNil res imageName) \<union> (\<Union>(sig, g) \<in> set (getOrNil sigLists imageName). set g)"
      by (elim conjE)
    from hs have "\<forall>n l. (n, l) \<in> set tc \<longrightarrow>
         set l - (\<Union>(sig, g) \<in> set (getOrNil sigLists n). set g)
           \<subseteq> set (deleted (fst (historyCleanupLoop ext (DryRun m) repo refs sigLists existing tc res)))"
      by (elim conjE)
    with et have c: "set repoImageList - (\<Union>(sig, g) \<in> set (getOrNil sigLists imageName). set g)
           \<subseteq> set (deleted (fst (historyCleanupLoop ext (DryRun m) repo refs sigLists existing tc res)))"
      by blast
    from c img ng
    have "repoImage \<in> set (deleted (fst (historyCleanupLoop ext (DryRun m) repo refs sigLists existing tc res)))"
      by blast
    then have "repoImage \<in> set (deleted (fst (repoImagesGitHistoryBasedCleanup ext m repoImagesToCleanup)))"
      by (simp add: f)
    moreover have "getOrNil res imageName = []"
      by (simp add: st getOrNil_def)
    with b ng have "repoImage \<notin> set (getOrNil resultRepoImages imageName)"
      by auto
    ultimately show ?thesis using True by simp
  next
    case False
    define wl where "wl = foldl exceptRepoImageList repoImageList (map snd (getOrNil sigLists imageName))"
    have we: "(imageName, wl) \<in> set wm"
    proof -
      have "(\<lambda>(n, l). (n, foldl exceptRepoImageList l (map snd (getOrNil sigLists n)))) (imageName, repoImageList)
          \<in> (\<lambda>(n, l). (n, foldl exceptRepoImageList l (map snd (getOrNil sigLists n)))) ` set repoImagesToCleanup"
        using entry by (rule imageI)
      then show ?thesis
        by (simp add: wm_def getImageRepoImageListWithoutRelatedImageMetadata_def wl_def)
    qed
    have xw: "repoImage \<in> set wl"
      using img ng by (auto simp: wl_def set_foldl_exceptRepoImageList)
    from p False have p': "processWithoutMetadata False wm ([], repoImagesToCleanup) = (log, res, tc)"
      by simp
    note pk = processWithoutMetadata_keep [OF p', of imageName]
    from pk have "\<forall>wl. (imageName, wl) \<in> set wm \<longrightarrow>
         set wl \<subseteq> set (getOrNil res imageName) \<and> set (getOrNil tc imageName) \<inter> set wl = {}
         \<and> (wl \<noteq> [] \<longrightarrow> set (map WarnLine warnNoMetadata) \<subseteq> set log)"
      by (elim conjE)
    with we have k1: "set wl \<subseteq> set (getOrNil res imageName)"
      and k2: "set (getOrNil tc imageName) \<inter> set wl = {}"
      and k3: "wl \<noteq> [] \<longrightarrow> set (map WarnLine warnNoMetadata) \<subseteq> set log"
      by blast+
    from pk have "distinct (map fst repoImagesToCleanup) \<longrightarrow> distinct (map fst tc)"
      by (elim conjE)
    with keys have dt: "distinct (map fst tc)" by simp
    from historyCleanupLoop_success [OF lr, of imageName]
    have "set (getOrNil res imageName) \<subseteq> set (getOrNil resultRepoImages imageName)"
      by (elim conjE)
    with k1 xw have a: "repoImage \<in> set (getOrNil resultRepoImages imageName)" by blast
    from xw have "wl \<noteq> []" by auto
    with k3 have "set (map WarnLine warnNoMetadata) \<subseteq> set log" by simp
    moreover have "set log \<subseteq> set (fst (repoImagesGitHistoryBasedCleanup ext m repoImagesToCleanup))"
      by (simp add: f)
    ultimately have w: "set (map WarnLine warnNoMetadata)
        \<subseteq> set (fst (repoImagesGitHistoryBasedCleanup ext m repoImagesToCleanup))"
      by (rule subset_trans)
    have dl: "deleted log = []"
      using processWithoutMetadata_images [OF p'] by simp
    have nd: "repoImage \<notin> set (deleted (fst (historyCleanupLoop ext (DryRun m) repo refs sigLists existing tc res)))"
    proof
      assume "repoImage \<in> set (deleted (fst (historyCleanupLoop ext (DryRun m) repo refs sigLists existing tc res)))"
      with historyCleanupLoop_deleted [of ext "DryRun m" repo refs sigLists existing tc res]
      obtain n l where nl: "(n, l) \<in> set tc" "repoImage \<in> set l" by blast
      from dt nl(1) have "map_of tc n = Some l" by (rule map_of_is_SomeI)
      then have g: "getOrNil tc n = l" by (simp add: getOrNil_def)
      show False
      proof (cases "n = imageName")
        case True
        with g nl(2) k2 xw show False by blast
      next
        case False
        from processWithoutMetadata_keep [OF p', of n]
        have "set (getOrNil tc n) \<subseteq> set (getOrNil repoImagesToCleanup n)" by (elim conjE)
        with g nl(2) have x: "repoImage \<in> set (getOrNil repoImagesToCleanup n)" by blast
        then obtain l0 where "map_of repoImagesToCleanup n = Some l0" "repoImage \<in> set l0"
          by (cases "map_of repoImagesToCleanup n") (auto simp: getOrNil_def)
        then have "(n, l0) \<in> set repoImagesToCleanup" "repoImage \<in> set l0"
          by (auto dest: map_of_SomeD)
        with only have "n = imageName" by blast
        with False show False by simp
      qed
    qed
    then have "repoImage \<notin> set (deleted (fst (repoImagesGitHistoryBasedCleanup ext m repoImagesToCleanup)))"
      by (simp add: f dl dm)
    with a w False show ?thesis by simp
  qed
qed

text \<open>The candidates \<open>a\<close>, with the content signature \<open>sigA\<close> of the metadata, which the scan
  of the git history reaches, and \<open>x\<close>, with a content signature of no metadata. Without
  the v1.2 flag \<open>x\<close> is saved with the warnings and the deleting call is given no image;
  with the flag the deleting call is given \<open>x\<close>.\<close>

theorem images_without_related_metadata_witness:
  "repoImagesGitHistoryBasedCleanup (exampleExternals [] [''sigA'']) (exampleHistoryManager False)
       [(''app'', [exampleImage ''a'' GitCommit ''sigA'' 10, exampleImage ''x'' GitCommit ''sigX'' 20])]
     = (map WarnLine warnNoMetadata @
        [LogLine ''  tag: x'', LogLine ''  tag: a'', DeleteRepoImage False []],
        Inr [(''app'', [exampleImage ''x'' GitCommit ''sigX'' 20, exampleImage ''a'' GitCommit ''sigA'' 10])])
   \<and> repoImagesGitHistoryBasedCleanup (exampleExternals [] [''sigA'']) (exampleHistoryManager True)
       [(''app'', [exampleImage ''a'' GitCommit ''sigA'' 10, exampleImage ''x'' GitCommit ''sigX'' 20])]
     = ([LogLine ''  tag: a'', DeleteRepoImage False [exampleImage ''x'' GitCommit ''sigX'' 20]],
        Inr [(''app'', [exampleImage ''a'' GitCommit ''sigA'' 10])])"
proof -
  define a where "a = exampleImage ''a'' GitCommit ''sigA'' 10"
  define x where "x = exampleImage ''x'' GitCommit ''sigX'' 20"
  define ext :: "(unit, unit, unit) externals" where "ext = exampleExternals [] [''sigA'']"
  have la: "labelOrEmpty a WerfContentSignatureLabel = ''sigA''"
    and lx: "labelOrEmpty x WerfContentSignatureLabel = ''sigX''"
    and ax: "a \<noteq> x" "x \<noteq> a" and tg: "Tag a = ''a''" "Tag x = ''x''"
    by (simp_all add: a_def x_def exampleImage_def labelOrEmpty_def label_def
          WerfTagStrategyLabel_def WerfContentSignatureLabel_def)
  have sl: "getImageContentSignatureRepoImageListToCleanup (exampleHistoryManager v) [(''app'', [a, x])]
      = Inr [(''app'', [(''sigA'', [a])])]" for v
    by (simp add: getImageContentSignatureRepoImageListToCleanup_def getImageCommitHashImageMetadata_def
          exampleHistoryManager_def getOrNil_def la lx)
  have ex: "getImageContentSignatureExistingCommitHashes (exampleHistoryManager v) exampleGit
      = Inr [(''app'', [(''sigA'', [''c1''])])]" for v
    by (simp add: getImageContentSignatureExistingCommitHashes_def getImageCommitHashImageMetadata_def
          exampleHistoryManager_def exampleManager_def exampleGit_def getOrNil_def appendTo_def)
  have wm: "getImageRepoImageListWithoutRelatedImageMetadata [(''app'', [a, x])] [(''app'', [(''sigA'', [a])])]
      = [(''app'', [x])]"
    by (simp add: getImageRepoImageListWithoutRelatedImageMetadata_def getOrNil_def exceptRepoImageList_def ax)
  have f: "LocalGit (exampleHistoryManager v) = Some exampleGit" "DryRun (exampleHistoryManager v) = False"
    "GitHistoryBasedCleanupV12 (exampleHistoryManager v) = v"
    "imageCommitHashImageMetadata (exampleHistoryManager v)
       = Some [(''app'', [(''c1'', \<lparr>ContentSignature = ''sigA''\<rparr>)])]" for v
    by (simp_all add: exampleHistoryManager_def exampleManager_def)
  have g: "PlainOpen exampleGit = Inr ()" by (simp add: exampleGit_def)
  have e: "getReferencesToScan ext r k = Inr [()]" "scanReferencesHistory ext r rs hs = Inr [''sigA'']"
    "deleteRepoImageError ext d is = None" for r k rs hs d "is"
    by (simp_all add: ext_def exampleExternals_def)
  have h: "historyCleanupOfImage ext False () [()] [(''sigA'', [a])] [(''sigA'', [''c1''])] l
      = ([LogLine ''  tag: a'', DeleteRepoImage False (exceptRepoImageList l [a])], Inr (Some [a]))" for l
    by (simp add: historyCleanupOfImage_def Let_def contentSignatureCommitHashes_def getOrNil_def
          lift_def bind_def return_def emit_def e deleteRepoImageInImagesRepo_def tg)
  have u: "getImageUnusedCommitHashes [(''app'', [(''c1'', \<lparr>ContentSignature = ''sigA''\<rparr>)])] [(''app'', l)]
      = [(''app'', [])]" if "a \<in> set l" for l
  proof -
    from that have "list_ex (\<lambda>repoImage. labelOrEmpty repoImage WerfContentSignatureLabel = ''sigA'') l"
      using la by (auto simp: list_ex_iff)
    then show ?thesis
      by (simp add: getImageUnusedCommitHashes_def getOrNil_def)
  qed
  have off: "repoImagesGitHistoryBasedCleanup ext (exampleHistoryManager False) [(''app'', [a, x])]
     = (map WarnLine warnNoMetadata @ [LogLine ''  tag: x'', LogLine ''  tag: a'', DeleteRepoImage False []],
        Inr [(''app'', [x, a])])"
    by (simp add: repoImagesGitHistoryBasedCleanup_def f g e lift_def bind_Inr sl ex wm h
          getImageCommitHashImageMetadata_def u
          appendTo_def getOrNil_def exceptRepoImageList_def ax tg emit_def return_def)
  have on: "repoImagesGitHistoryBasedCleanup ext (exampleHistoryManager True) [(''app'', [a, x])]
     = ([LogLine ''  tag: a'', DeleteRepoImage False [x]], Inr [(''app'', [a])])"
    by (simp add: repoImagesGitHistoryBasedCleanup_def f g e lift_def bind_Inr sl ex wm h
          getImageCommitHashImageMetadata_def u
          appendTo_def getOrNil_def exceptRepoImageList_def ax tg emit_def return_def)
  have keys: "distinct (map fst [(''app'', [a, x])])" by simp
  have name: "map_of [(''app'', [a, x])] ''app'' = Some [a, x]" by simp
  have img: "x \<in> set [a, x]" by simp
  have only: "\<forall>(otherName, otherList) \<in> set [(''app'', [a, x])]. x \<in> set otherList \<longrightarrow> otherName = ''app''"
    by simp
  have nometa: "\<forall>(commitHash, imageMetadata) \<in> set (getOrNil [(''app'', [(''c1'', \<lparr>ContentSignature = ''sigA''\<rparr>)])] ''app'').
      ContentSignature imageMetadata \<noteq> labelOrEmpty x WerfContentSignatureLabel"
    by (simp add: getOrNil_def lx)
  have ok0: "snd (repoImagesGitHistoryBasedCleanup ext (exampleHistoryManager False) [(''app'', [a, x])])
      = Inr [(''app'', [x, a])]"
    by (simp add: off)
  have ok1: "snd (repoImagesGitHistoryBasedCleanup ext (exampleHistoryManager True) [(''app'', [a, x])])
      = Inr [(''app'', [a])]"
    by (simp add: on)
  from images_without_related_metadata [OF keys f(4) name img only nometa ok0]
    images_without_related_metadata [OF keys f(4) name img only nometa ok1]
    off on
  show ?thesis
    unfolding a_def x_def ext_def by simp
qed

end
